(* ===== verification/Prelude.thy ===== *)
theory Prelude
  imports Main "HOL-Library.Word"
begin

text \<open>
  Shared vocabulary of the development: names for the machine types the sources
  use, the byte-string operations of \<^verbatim>\<open>QByteArray\<close> and \<^verbatim>\<open>QString\<close> that several
  components call, decimal printing, and the generic lemmas on them.

  A \<^verbatim>\<open>QByteArray\<close> is a \<open>string\<close> (a HOL \<open>char\<close> is one byte), or a list of
  8-bit words where the code does bit arithmetic on it. A \<^verbatim>\<open>QString\<close> is a \<open>string\<close>
  too, one \<open>char\<close> per code unit; code units above 255 are outside the model.
  The collection \<open>wire_defs\<close> holds the unfolding equations of the byte layouts.
\<close>

named_theorems wire_defs "definitions of byte layouts and wire formats"
named_theorems qt_defs "definitions of the Qt string operations"

type_synonym u8 = "8 word"
type_synonym u16 = "16 word"
type_synonym u32 = "32 word"
type_synonym u64 = "64 word"
type_synonym bytes = "8 word list"
type_synonym qstring = string

unbundle bit_operations_syntax

subsection \<open>Byte-string operations\<close>

text \<open>\<^verbatim>\<open>indexOf(c, pos)\<close>: the first position at or after \<open>pos\<close>, \<open>None\<close> for -1.\<close>

fun find_index :: "'a \<Rightarrow> 'a list \<Rightarrow> nat option" where
  "find_index c [] = None"
| "find_index c (x # xs) = (if x = c then Some 0 else map_option Suc (find_index c xs))"

definition index_of :: "'a \<Rightarrow> 'a list \<Rightarrow> nat \<Rightarrow> nat option" where
  "index_of c s pos = map_option (\<lambda>i. pos + i) (find_index c (drop pos s))"

text \<open>\<^verbatim>\<open>mid(pos, len)\<close> and \<^verbatim>\<open>left(len)\<close>.\<close>

definition mid :: "nat \<Rightarrow> nat \<Rightarrow> 'a list \<Rightarrow> 'a list" where
  [qt_defs]: "mid pos len s = take len (drop pos s)"

definition starts_with :: "'a list \<Rightarrow> 'a list \<Rightarrow> bool" where
  [qt_defs]: "starts_with p s \<longleftrightarrow> take (length p) s = p"

definition is_space :: "char \<Rightarrow> bool" where
  "is_space c \<longleftrightarrow> of_char c \<in> {9, 10, 11, 12, 13, 32 :: nat}"

definition trimmed :: "string \<Rightarrow> string" where
  "trimmed s = rev (dropWhile is_space (rev (dropWhile is_space s)))"

definition lower_char :: "char \<Rightarrow> char" where
  "lower_char c =
     (let n = (of_char c :: nat) in if 65 \<le> n \<and> n \<le> 90 then char_of (n + 32) else c)"

definition to_lower :: "string \<Rightarrow> string" where
  "to_lower s = map lower_char s"

text \<open>\<^verbatim>\<open>compare(other, Qt::CaseInsensitive) == 0\<close>.\<close>

definition equal_ci :: "string \<Rightarrow> string \<Rightarrow> bool" where
  "equal_ci a b \<longleftrightarrow> to_lower a = to_lower b"

fun contains_sub :: "'a list \<Rightarrow> 'a list \<Rightarrow> bool" where
  "contains_sub p [] = (p = [])"
| "contains_sub p (x # xs) = (starts_with p (x # xs) \<or> contains_sub p xs)"

text \<open>\<^verbatim>\<open>split(sep)\<close>: the fields between separators, empty ones kept.\<close>

fun split_on :: "'a \<Rightarrow> 'a list \<Rightarrow> 'a list list" where
  "split_on c [] = [[]]"
| "split_on c (x # xs) =
     (if x = c then [] # split_on c xs
      else (case split_on c xs of [] \<Rightarrow> [[x]] | f # fs \<Rightarrow> (x # f) # fs))"

text \<open>The offset of the first occurrence of a byte sequence (\<^verbatim>\<open>indexOf(QByteArray)\<close>).\<close>

fun find_sub :: "'a list \<Rightarrow> 'a list \<Rightarrow> nat option" where
  "find_sub p [] = (if p = [] then Some 0 else None)"
| "find_sub p (x # xs) =
     (if starts_with p (x # xs) then Some 0 else map_option Suc (find_sub p xs))"

text \<open>\<^verbatim>\<open>QString::toUtf8\<close> on code units up to 255.\<close>

definition utf8_char :: "char \<Rightarrow> string" where
  "utf8_char c =
     (let n = (of_char c :: nat) in
      if n < 128 then [c] else [char_of (192 + n div 64), char_of (128 + n mod 64)])"

definition to_utf8 :: "qstring \<Rightarrow> string" where
  "to_utf8 s = concat (map utf8_char s)"

subsection \<open>Decimal printing\<close>

definition digit_char :: "nat \<Rightarrow> char" where
  "digit_char d = char_of (48 + d)"

fun digits :: "nat \<Rightarrow> string" where
  "digits n = (if n < 10 then [digit_char n] else digits (n div 10) @ [digit_char (n mod 10)])"

declare digits.simps [simp del]

text \<open>\<^verbatim>\<open>QString::number(int)\<close>.\<close>

definition number :: "int \<Rightarrow> string" where
  "number i = (if i < 0 then CHR ''-'' # digits (nat (- i)) else digits (nat i))"

text \<open>\<^verbatim>\<open>rightJustified(w, c)\<close>, and \<^verbatim>\<open>arg(n, w, 10, QChar('0'))\<close>, which puts the padding
  after the sign.\<close>

definition right_justified :: "nat \<Rightarrow> char \<Rightarrow> string \<Rightarrow> string" where
  "right_justified w c s = replicate (w - length s) c @ s"

definition arg_pad0 :: "nat \<Rightarrow> int \<Rightarrow> string" where
  "arg_pad0 w i =
     (if i < 0 then CHR ''-'' # right_justified (w - 1) (CHR ''0'') (digits (nat (- i)))
      else right_justified w (CHR ''0'') (digits (nat i)))"

subsection \<open>Lemmas on the byte-string operations\<close>

lemma find_index_NoneI [simp]: "c \<notin> set s \<Longrightarrow> find_index c s = None"
  by (induction s) auto

lemma find_index_append [simp]:
  "c \<notin> set a \<Longrightarrow> find_index c (a @ c # b) = Some (length a)"
  by (induction a) auto

lemma find_index_Some:
  "find_index c s = Some i \<Longrightarrow> i < length s \<and> s ! i = c \<and> c \<notin> set (take i s)"
proof (induction s arbitrary: i)
  case (Cons x xs)
  show ?case
  proof (cases "x = c")
    case False
    with Cons.prems obtain j where "find_index c xs = Some j" "i = Suc j"
      by (auto split: if_splits)
    with Cons.IH [of j] False show ?thesis by auto
  qed (use Cons.prems in auto)
qed simp

lemma index_of_bounds: "index_of c s pos = Some i \<Longrightarrow> pos \<le> i \<and> i < length s"
  by (auto simp: index_of_def dest!: find_index_Some)

lemma starts_with_append [simp]: "starts_with p (p @ s)"
  by (simp add: starts_with_def)

lemma starts_with_iff: "starts_with p s \<longleftrightarrow> (\<exists>t. s = p @ t)"
  by (auto simp: starts_with_def) (metis append_take_drop_id)

lemma mid_append [simp]: "pos = length a \<Longrightarrow> len = length b \<Longrightarrow> mid pos len (a @ b @ c) = b"
  by (simp add: mid_def)

lemma dropWhile_hd_id: "s = [] \<or> \<not> P (hd s) \<Longrightarrow> dropWhile P s = s"
  by (cases s) auto

lemma trimmed_id:
  "s = [] \<or> (\<not> is_space (hd s) \<and> \<not> is_space (last s)) \<Longrightarrow> trimmed s = s"
  by (auto simp: trimmed_def dropWhile_hd_id hd_rev)

lemma trimmed_space_Cons: "is_space c \<Longrightarrow> trimmed (c # s) = trimmed s"
  by (simp add: trimmed_def)

lemma trimmed_Nil [simp]: "trimmed [] = []"
  by (simp add: trimmed_def)

lemma to_lower_append [simp]: "to_lower (a @ b) = to_lower a @ to_lower b"
  by (simp add: to_lower_def)

lemma find_append:
  "find P (xs @ ys) = (case find P xs of None \<Rightarrow> find P ys | Some x \<Rightarrow> Some x)"
  by (induction xs) auto

lemma map2_left: "length ys = length xs \<Longrightarrow> map2 (\<lambda>x _. f x) xs ys = map f xs"
  by (induction ys xs rule: list_induct2) auto

subsection \<open>Lemmas on decimal printing\<close>

lemma digits_nonempty [simp]: "digits n \<noteq> []"
  by (subst digits.simps) simp

lemma length_digits_pos [simp]: "0 < length (digits n)"
  by (simp add: length_greater_0_conv)

definition digit_value :: "char \<Rightarrow> nat" where
  "digit_value c = of_char c - 48"

definition decimal_value :: "string \<Rightarrow> nat" where
  "decimal_value s = foldl (\<lambda>a c. 10 * a + digit_value c) 0 s"

definition is_digit :: "char \<Rightarrow> bool" where
  "is_digit c \<longleftrightarrow> 48 \<le> (of_char c :: nat) \<and> (of_char c :: nat) \<le> 57"

lemma of_char_digit_char [simp]: "d < 10 \<Longrightarrow> (of_char (digit_char d) :: nat) = 48 + d"
  by (simp add: digit_char_def)

lemma digit_value_digit_char [simp]: "d < 10 \<Longrightarrow> digit_value (digit_char d) = d"
  by (simp add: digit_value_def)

lemma decimal_value_digits [simp]: "decimal_value (digits n) = n"
proof (induction n rule: digits.induct)
  case (1 n)
  then show ?case
    by (subst digits.simps) (auto simp: decimal_value_def)
qed

lemma digits_inj: "digits m = digits n \<Longrightarrow> m = n"
  by (metis decimal_value_digits)

lemma digits_all_digit: "c \<in> set (digits n) \<Longrightarrow> is_digit c"
proof (induction n rule: digits.induct)
  case (1 n)
  then show ?case
    by (subst (asm) digits.simps) (auto simp: is_digit_def split: if_splits)
qed

lemma length_digits_le: "n < 10 ^ k \<Longrightarrow> 0 < k \<Longrightarrow> length (digits n) \<le> k"
proof (induction n arbitrary: k rule: digits.induct)
  case (1 n)
  show ?case
  proof (cases "n < 10")
    case True
    with "1.prems" show ?thesis by (subst digits.simps) simp
  next
    case False
    obtain j where k: "k = Suc j" using "1.prems" by (cases k) auto
    with "1.prems" False have j: "0 < j" by (cases j) auto
    from "1.prems" k have "n div 10 < 10 ^ j" by auto
    with "1.IH" [OF False this j] False k show ?thesis
      by (subst digits.simps) simp
  qed
qed

lemma decimal_value_zeros [simp]:
  "decimal_value (replicate k (CHR ''0'') @ s) = decimal_value s"
  by (induction k) (auto simp: decimal_value_def digit_value_def)

lemma right_justified_inj:
  "right_justified w (CHR ''0'') (digits m) = right_justified w (CHR ''0'') (digits n) \<Longrightarrow> m = n"
  by (metis decimal_value_digits decimal_value_zeros right_justified_def)

lemma length_right_justified [simp]:
  "length (right_justified w c s) = max w (length s)"
  by (simp add: right_justified_def max_def)

subsection \<open>Byte and word arithmetic\<close>

lemma u8_take_bit_id: "unat (w :: u8) < 2 ^ k \<Longrightarrow> take_bit k w = w"
  by (simp add: word_unat_eq_iff unsigned_take_bit_eq take_bit_nat_eq_self_iff)

lemma u8_and_7F: "(w :: u8) AND 0x7F = take_bit 7 w"
  by (simp add: take_bit_eq_mask mask_numeral)

lemma u8_and_0F: "(w :: u8) AND 0x0F = take_bit 4 w"
  by (simp add: take_bit_eq_mask mask_numeral)

lemma u8_low7_or:
  "unat w < 128 \<Longrightarrow> m = 0 \<or> m = 0x80 \<Longrightarrow> (m OR w) AND 0x7F = (w :: u8)"
  by (auto simp: u8_and_7F take_bit_or u8_take_bit_id)

lemma u8_low4_or:
  "unat w < 16 \<Longrightarrow> m = 0 \<or> m = 0x80 \<Longrightarrow> (m OR w) AND 0x0F = (w :: u8)"
  by (auto simp: u8_and_0F take_bit_or u8_take_bit_id)

lemma u8_no_top_bit: "unat (w :: u8) < 128 \<Longrightarrow> w AND 0x80 = 0"
proof -
  assume "unat w < 128"
  then have "w AND 0x80 = take_bit 7 w AND 0x80" by (simp add: u8_take_bit_id)
  also have "\<dots> = 0" by (simp add: u8_and_7F [symmetric] and.assoc)
  finally show ?thesis .
qed

lemma u8_top_bit_or: "unat (w :: u8) < 128 \<Longrightarrow> (0x80 OR w) AND 0x80 = 0x80"
  by (simp add: bit.conj_disj_distrib2 u8_no_top_bit)

lemma push_or_byte: "push_bit 8 (l :: u64) OR ucast (b :: u8) = l * 256 + ucast b"
proof -
  have "push_bit 8 l AND ucast b = (0 :: u64)"
    by (rule bit_word_eqI) (auto simp: bit_simps dest: bit_imp_le_length)
  then have "push_bit 8 l + ucast b = push_bit 8 l OR ucast b"
    by (rule disjunctive_add_eq_or)
  then show ?thesis by (simp add: push_bit_eq_mult ac_simps)
qed

lemma ucast_byte_of_nat: "(ucast (of_nat x :: u8) :: u64) = of_nat (x mod 256)"
  by (simp add: word_unat_eq_iff unsigned_ucast_eq unat_of_nat take_bit_eq_mod)

lemma digit_step: "x div 256 ^ Suc i * 256 + x div 256 ^ i mod 256 = x div 256 ^ i" for x :: nat
  by (metis div_mult_mod_eq div_mult2_eq mult.commute power_Suc)

end
