(* ===== verification/Json.thy ===== *)
theory Json
  imports Prelude Complex_Main
begin

text \<open>
  The part of Qt's JSON value API the camera-control sources use. A \<^verbatim>\<open>QJsonValue\<close> is a
  \<open>json\<close>; \<open>JUndefined\<close> is what \<^verbatim>\<open>QJsonObject::value\<close> returns for a missing key. Numbers are
  rationals, a superset of the doubles Qt stores. The parser itself (\<^verbatim>\<open>QJsonDocument::fromJson\<close>)
  is library code: it is the parameter \<open>parse\<close> of the definitions that use it.
\<close>

datatype json =
    JUndefined
  | JNull
  | JBool bool
  | JNum rat
  | JStr string
  | JArr "json list"
  | JObj "(string \<times> json) list"

type_synonym jobject = "(string \<times> json) list"

fun jfield :: "jobject \<Rightarrow> string \<Rightarrow> json" where
  "jfield [] k = JUndefined"
| "jfield ((k', v) # o1) k = (if k' = k then v else jfield o1 k)"

definition jcontains :: "jobject \<Rightarrow> string \<Rightarrow> bool" where
  "jcontains o1 k \<longleftrightarrow> k \<in> set (map fst o1)"

fun jtoString :: "json \<Rightarrow> string" where
  "jtoString (JStr s) = s"
| "jtoString _ = []"

text \<open>\<^verbatim>\<open>toInt(default)\<close>: only a number with an integral value in the range of \<^verbatim>\<open>int\<close> converts.\<close>

fun jtoInt :: "int \<Rightarrow> json \<Rightarrow> int" where
  "jtoInt d (JNum r) = (if of_int \<lfloor>r\<rfloor> = r \<and> - (2 ^ 31) \<le> \<lfloor>r\<rfloor> \<and> \<lfloor>r\<rfloor> < 2 ^ 31 then \<lfloor>r\<rfloor> else d)"
| "jtoInt d _ = d"

fun jtoDouble :: "rat \<Rightarrow> json \<Rightarrow> rat" where
  "jtoDouble d (JNum r) = r"
| "jtoDouble d _ = d"

fun jtoBool :: "bool \<Rightarrow> json \<Rightarrow> bool" where
  "jtoBool d (JBool b) = b"
| "jtoBool d _ = d"

fun jtoArray :: "json \<Rightarrow> json list" where
  "jtoArray (JArr xs) = xs"
| "jtoArray _ = []"

fun jtoObject :: "json \<Rightarrow> jobject" where
  "jtoObject (JObj o1) = o1"
| "jtoObject _ = []"

fun jisObject :: "json \<Rightarrow> bool" where
  "jisObject (JObj _) = True"
| "jisObject _ = False"

fun jisString :: "json \<Rightarrow> bool" where
  "jisString (JStr _) = True"
| "jisString _ = False"

fun jisArray :: "json \<Rightarrow> bool" where
  "jisArray (JArr _) = True"
| "jisArray _ = False"

fun jisDouble :: "json \<Rightarrow> bool" where
  "jisDouble (JNum _) = True"
| "jisDouble _ = False"

fun jisBool :: "json \<Rightarrow> bool" where
  "jisBool (JBool _) = True"
| "jisBool _ = False"

lemma jfield_undefined_iff:
  "jfield o1 k \<noteq> JUndefined \<Longrightarrow> jcontains o1 k"
  by (induction o1 k rule: jfield.induct) (auto simp: jcontains_def split: if_splits)

lemma jtoInt_of_int [simp]: "- (2 ^ 31) \<le> i \<Longrightarrow> i < 2 ^ 31 \<Longrightarrow> jtoInt d (JNum (of_int i)) = i"
  by simp

lemma jtoInt_range:
  "- (2 ^ 31) \<le> d \<Longrightarrow> d < 2 ^ 31 \<Longrightarrow> - (2 ^ 31) \<le> jtoInt d v \<and> jtoInt d v < 2 ^ 31"
  by (cases v) auto

end
