(* ===== verification/Ws_Client.thy ===== *)
theory Ws_Client
  imports Prelude
begin

text \<open>
  The RFC 6455 client of \<^verbatim>\<open>src/cameractrl/zc_ws_client.cpp\<close>: the upgrade handshake, the
  frame parser \<^verbatim>\<open>handleIncoming\<close> and the frame writer \<^verbatim>\<open>writeFrame\<close>.

  The state is the record \<open>ws_client\<close>, one field per member of \<^verbatim>\<open>ZcWsClient\<close>. The TCP
  socket is represented by its \<^verbatim>\<open>QAbstractSocket\<close> state only; what the client does to the
  socket and the signals it emits are the list of \<open>ws_event\<close>s each operation returns, in
  program order. \<^verbatim>\<open>QRandomGenerator\<close> is the parameter \<open>rand\<close>, its output stream, with
  \<open>ws_rng\<close> the number of draws made; \<^verbatim>\<open>hash(.., Sha1).toBase64()\<close> is the parameter
  \<open>b64sha1\<close>. The frame loop can spin for ever on a hostile length, so it is a
  \<^theory_text>\<open>partial_function (option)\<close>: \<open>None\<close> is "does not return". \<open>EvText\<close> carries the UTF-8
  bytes of the message. The sum \<^verbatim>\<open>headerLen + maskLen + (int)len\<close> is computed without
  overflow; in the source it overflows for a declared length within 14 of \<open>2\<^sup>3\<^sup>1\<close>, which the
  hypotheses on frame lengths exclude.
\<close>

datatype sock_state = Unconnected | Connecting | ConnectedState | Closing

datatype ws_event =
    EvConnected
  | EvText bytes
  | EvDisconnected
  | EvError string
  | ActWrite bytes
  | ActConnectToHost string int
  | ActAbort
  | ActDisconnectFromHost
  | ActClose
  | ActStartClientEncryption
  | ActIgnoreSslErrors

record ws_client =
  ws_socket :: "sock_state option"
  ws_handshakeDone :: bool
  ws_recvBuffer :: bytes
  ws_handshake :: bytes
  ws_handshakeKey :: string
  ws_extraHeaders :: string
  ws_isTls :: bool
  ws_rng :: nat

definition ws_init :: ws_client where
  "ws_init = \<lparr>ws_socket = None, ws_handshakeDone = False, ws_recvBuffer = [], ws_handshake = [],
     ws_handshakeKey = [], ws_extraHeaders = [], ws_isTls = False, ws_rng = 0\<rparr>"

definition text_of :: "bytes \<Rightarrow> string" where
  "text_of bs = map (\<lambda>b. char_of (unat b)) bs"

definition bytes_of :: "string \<Rightarrow> bytes" where
  "bytes_of s = map (\<lambda>c. of_char c) s"

text \<open>\<^verbatim>\<open>disconnectFromHost\<close> and \<^verbatim>\<open>close\<close> of the socket start the disconnect of an established
  connection; its end, and that of an attempt still connecting, is the \<^verbatim>\<open>disconnected\<close> signal,
  a step of its own.\<close>

fun sock_disconnect :: "sock_state \<Rightarrow> sock_state" where
  "sock_disconnect ConnectedState = Closing"
| "sock_disconnect st = st"

subsection \<open>Frame parsing\<close>

text \<open>The big-endian 64-bit length: \<^verbatim>\<open>len = (len << 8) | byte\<close>, eight times.\<close>

definition be_len :: "bytes \<Rightarrow> u64" where
  "be_len bs = foldl (\<lambda>l b. push_bit 8 l OR ucast b) 0 bs"

text \<open>The header of a frame: \<open>None\<close> where the code returns to wait for more bytes, else
  the header length and the payload length.\<close>

definition frame_header :: "bytes \<Rightarrow> (nat \<times> u64) option" where
  "frame_header buf =
     (let len = (ucast (buf ! 1 AND 0x7F) :: u64) in
      if len = 126 then
        (if length buf < 4 then None
         else Some (4, push_bit 8 (ucast (buf ! 2)) OR ucast (buf ! 3)))
      else if len = 127 then
        (if length buf < 10 then None else Some (10, be_len (take 8 (drop 2 buf))))
      else Some (2, len))"

text \<open>The cast \<^verbatim>\<open>(int)len\<close> of a 64-bit length.\<close>

definition int_of_len :: "u64 \<Rightarrow> int" where
  "int_of_len len = sint (ucast len :: u32)"

text \<open>\<^verbatim>\<open>mid(pos, n)\<close> takes everything from \<open>pos\<close> when \<open>n\<close> is negative;
  \<^verbatim>\<open>remove(0, n)\<close> does nothing unless \<open>n\<close> is positive.\<close>

definition mid_int :: "nat \<Rightarrow> int \<Rightarrow> bytes \<Rightarrow> bytes" where
  "mid_int pos n buf = (if n < 0 then drop pos buf else take (nat n) (drop pos buf))"

definition remove_front :: "int \<Rightarrow> bytes \<Rightarrow> bytes" where
  "remove_front n buf = (if n \<le> 0 then buf else drop (nat n) buf)"

fun xor_mask :: "nat \<Rightarrow> bytes \<Rightarrow> bytes \<Rightarrow> bytes" where
  "xor_mask i mk [] = []"
| "xor_mask i mk (b # bs) = (b XOR mk ! (i mod 4)) # xor_mask (Suc i) mk bs"

subsection \<open>Frame writing\<close>

text \<open>The length field of an outgoing frame; bit 7 of the second byte is the mask bit.\<close>

definition frame_len_bytes :: "nat \<Rightarrow> bytes" where
  "frame_len_bytes len =
     (if len < 126 then [0x80 OR of_nat len]
      else if len \<le> 0xFFFF then [0x80 OR 126, of_nat (len div 256), of_nat len]
      else (0x80 OR 127) # map (\<lambda>i. of_nat (len div 256 ^ i)) [7, 6, 5, 4, 3, 2, 1, 0])"

definition writeFrame :: "(nat \<Rightarrow> u8) \<Rightarrow> u8 \<Rightarrow> bytes \<Rightarrow> ws_client \<Rightarrow> ws_client \<times> ws_event list" where
  "writeFrame rand opcode payload c =
     (if ws_socket c \<noteq> Some ConnectedState then (c, [])
      else
        (let mk = map (\<lambda>i. rand (ws_rng c + i)) [0, 1, 2, 3] in
         (c\<lparr>ws_rng := ws_rng c + 4\<rparr>,
          [ActWrite ([0x80 OR (opcode AND 0x0F)] @ frame_len_bytes (length payload) @ mk
             @ xor_mask 0 mk payload)])))"

subsection \<open>The receive loop\<close>

text \<open>One iteration of the \<^verbatim>\<open>while\<close> of \<^verbatim>\<open>handleIncoming\<close>: whether the loop goes on, the
  state and the events. The loop also ends here when its guard fails.\<close>

definition frame_step :: "(nat \<Rightarrow> u8) \<Rightarrow> ws_client \<Rightarrow> bool \<times> ws_client \<times> ws_event list" where
  "frame_step rand c =
     (let buf = ws_recvBuffer c in
      if length buf < 2 then (False, c, [])
      else
        (case frame_header buf of
           None \<Rightarrow> (False, c, [])
         | Some (headerLen, len) \<Rightarrow>
             (let opcode = buf ! 0 AND 0x0F;
                  fin = (buf ! 0 AND 0x80 \<noteq> 0);
                  masked = (buf ! 1 AND 0x80 \<noteq> 0);
                  maskLen = (if masked then 4 else 0);
                  total = int headerLen + int maskLen + int_of_len len in
              if int (length buf) < total then (False, c, [])
              else
                (let raw = mid_int (headerLen + maskLen) (int_of_len len) buf;
                     payload = (if masked then xor_mask 0 (mid headerLen 4 buf) raw else raw);
                     c1 = c\<lparr>ws_recvBuffer := remove_front total buf\<rparr> in
                 if opcode = 1 then
                   (True, c1,
                    [if fin then EvText payload
                     else EvError ''Fragmented text frames unsupported''])
                 else if opcode = 8 then
                   (False, c1\<lparr>ws_socket := map_option sock_disconnect (ws_socket c1)\<rparr>,
                    [ActDisconnectFromHost])
                 else if opcode = 9 then
                   (case writeFrame rand 0xA payload c1 of (c2, es) \<Rightarrow> (True, c2, es))
                 else (True, c1, [])))))"

partial_function (option) handle_loop ::
  "(nat \<Rightarrow> u8) \<Rightarrow> ws_client \<Rightarrow> ws_event list \<Rightarrow> (ws_client \<times> ws_event list) option" where
  "handle_loop rand c evs =
     (case frame_step rand c of
        (again, c', es) \<Rightarrow>
          if again then handle_loop rand c' (evs @ es) else Some (c', evs @ es))"

definition handleIncoming ::
  "(nat \<Rightarrow> u8) \<Rightarrow> bytes \<Rightarrow> ws_client \<Rightarrow> (ws_client \<times> ws_event list) option" where
  "handleIncoming rand data c = handle_loop rand (c\<lparr>ws_recvBuffer := ws_recvBuffer c @ data\<rparr>) []"

subsection \<open>Handshake and socket slots\<close>

text \<open>Case-insensitive lookup of a header value inside a raw header block.\<close>

fun header_scan :: "string \<Rightarrow> string list \<Rightarrow> string" where
  "header_scan name [] = []"
| "header_scan name (line # lines) =
     (case find_index (CHR '':'') line of
        None \<Rightarrow> header_scan name lines
      | Some colon \<Rightarrow>
          if colon = 0 then header_scan name lines
          else if equal_ci (trimmed (take colon line)) name then trimmed (drop (colon + 1) line)
          else header_scan name lines)"

definition headerValue :: "string \<Rightarrow> string \<Rightarrow> string" where
  "headerValue header name = header_scan name (split_on (CHR 0x0A) header)"

definition crlf :: string where
  "crlf = [CHR 0x0D, CHR 0x0A]"

definition ws_guid :: string where
  "ws_guid = ''258EAFA5-E914-47DA-95CA-C5AB0DC85B11''"

text \<open>\<^verbatim>\<open>open\<close>: the url is its scheme, host and port.\<close>

definition ws_open :: "string \<Rightarrow> string \<Rightarrow> int \<Rightarrow> string \<Rightarrow> ws_client \<Rightarrow> ws_client \<times> ws_event list" where
  "ws_open scheme host port extra c =
     (c\<lparr>ws_extraHeaders := extra, ws_handshakeDone := False, ws_recvBuffer := [], ws_handshake := [],
        ws_isTls := (scheme = ''wss''), ws_socket := Some Connecting\<rparr>,
      (if ws_socket c \<noteq> None then [ActAbort] else []) @ [ActConnectToHost host port])"

definition ws_close :: "(nat \<Rightarrow> u8) \<Rightarrow> ws_client \<Rightarrow> ws_client \<times> ws_event list" where
  "ws_close rand c =
     (if ws_socket c \<noteq> None \<and> ws_socket c \<noteq> Some Unconnected then
        (case writeFrame rand 8 [] c of
           (c1, es) \<Rightarrow> (c1\<lparr>ws_socket := map_option sock_disconnect (ws_socket c1)\<rparr>,
             es @ [ActDisconnectFromHost]))
      else (c, []))"

definition isOpen :: "ws_client \<Rightarrow> bool" where
  "isOpen c \<longleftrightarrow> ws_handshakeDone c \<and> ws_socket c = Some ConnectedState"

text \<open>Dropping the trailing line breaks of the extra header block.\<close>

definition chop_newlines :: "string \<Rightarrow> string" where
  "chop_newlines s = rev (dropWhile (\<lambda>ch. ch = CHR 0x0A \<or> ch = CHR 0x0D) (rev s))"

definition upgrade_request :: "string \<Rightarrow> string \<Rightarrow> string \<Rightarrow> string" where
  "upgrade_request peer key extra =
     ''GET / HTTP/1.1'' @ crlf @
     ''Host: '' @ peer @ crlf @
     ''Upgrade: websocket'' @ crlf @
     ''Connection: Upgrade'' @ crlf @
     ''Sec-WebSocket-Key: '' @ key @ crlf @
     ''Sec-WebSocket-Version: 13'' @ crlf @
     (if chop_newlines extra \<noteq> [] then chop_newlines extra @ crlf else []) @ crlf"

definition sendHandshake ::
  "(string \<Rightarrow> string) \<Rightarrow> nat \<Rightarrow> string \<Rightarrow> ws_client \<Rightarrow> ws_client \<times> ws_event list" where
  "sendHandshake b64sha1 seed peer c =
     (let key = take 16 (b64sha1 (digits seed)) in
      (c\<lparr>ws_handshakeKey := key\<rparr>,
       [ActWrite (bytes_of (upgrade_request peer key (ws_extraHeaders c)))]))"

definition onSocketConnected ::
  "(string \<Rightarrow> string) \<Rightarrow> nat \<Rightarrow> string \<Rightarrow> ws_client \<Rightarrow> ws_client \<times> ws_event list" where
  "onSocketConnected b64sha1 seed peer c =
     (if ws_isTls c then (c, [ActStartClientEncryption]) else sendHandshake b64sha1 seed peer c)"

definition onSocketReadyRead ::
  "(string \<Rightarrow> string) \<Rightarrow> (nat \<Rightarrow> u8) \<Rightarrow> bytes \<Rightarrow> ws_client \<Rightarrow> (ws_client \<times> ws_event list) option" where
  "onSocketReadyRead b64sha1 rand chunk c =
     (if \<not> ws_handshakeDone c then
        (let hs = ws_handshake c @ chunk; c1 = c\<lparr>ws_handshake := hs\<rparr> in
         (case find_sub (bytes_of (crlf @ crlf)) hs of
            None \<Rightarrow>
              Some (c1, if length hs > 16384 then [EvError ''WebSocket handshake too large''] else [])
          | Some idx \<Rightarrow>
              (let header = text_of (take idx hs) in
               if \<not> starts_with ''HTTP/1.1 101'' header \<and> \<not> starts_with ''HTTP/1.0 101'' header then
                 Some (c1\<lparr>ws_socket := map_option sock_disconnect (ws_socket c1)\<rparr>,
                   [EvError (''WebSocket handshake failed: '' @ take 120 header), ActClose])
               else
                 (let expected = b64sha1 (ws_handshakeKey c1 @ ws_guid);
                      accept = headerValue header ''Sec-WebSocket-Accept'' in
                  if accept = [] \<or> accept \<noteq> expected then
                    Some (c1\<lparr>ws_socket := map_option sock_disconnect (ws_socket c1)\<rparr>,
                      [EvError ''WebSocket handshake failed: bad Sec-WebSocket-Accept'', ActClose])
                  else
                    (let leftover = drop (idx + 4) hs;
                         c2 = c1\<lparr>ws_handshakeDone := True, ws_handshake := []\<rparr> in
                     if leftover \<noteq> [] then
                       map_option (\<lambda>(c3, es). (c3, es @ [EvConnected]))
                         (handleIncoming rand leftover c2)
                     else Some (c2, [EvConnected]))))))
      else handleIncoming rand chunk c)"

definition onSocketDisconnected :: "ws_client \<Rightarrow> ws_client \<times> ws_event list" where
  "onSocketDisconnected c = (c\<lparr>ws_handshakeDone := False\<rparr>, [EvDisconnected])"

definition onSslErrors :: "ws_client \<Rightarrow> ws_client \<times> ws_event list" where
  "onSslErrors c = (c, if ws_isTls c \<and> ws_socket c \<noteq> None then [ActIgnoreSslErrors] else [])"


subsection \<open>The RFC 6455 frame layout\<close>

text \<open>The reference layout of a frame: FIN and opcode, the length in its shortest form with
  the mask bit, the optional masking key, the (masked) payload.\<close>

definition rfc_len :: "u8 \<Rightarrow> nat \<Rightarrow> bytes" where
  "rfc_len m len =
     (if len < 126 then [m OR of_nat len]
      else if len \<le> 0xFFFF then [m OR 126, of_nat (len div 256), of_nat len]
      else (m OR 127) # map (\<lambda>i. of_nat (len div 256 ^ i)) [7, 6, 5, 4, 3, 2, 1, 0])"

datatype ws_frame = Frame (frame_fin: bool) (frame_opcode: u8) (frame_mask: "bytes option")
  (frame_payload: bytes)

fun rfc_frame :: "ws_frame \<Rightarrow> bytes" where
  "rfc_frame (Frame fin op mk p) =
     ((if fin then 0x80 else 0) OR op) # rfc_len (if mk = None then 0 else 0x80) (length p)
       @ (case mk of None \<Rightarrow> p | Some k \<Rightarrow> k @ xor_mask 0 k p)"

text \<open>The frames a peer may send for the parser to stay in step: a 4-bit opcode, a 4-byte
  key and a payload whose length survives the cast to \<^verbatim>\<open>int\<close>.\<close>

fun wf_frame :: "ws_frame \<Rightarrow> bool" where
  "wf_frame (Frame fin op mk p) \<longleftrightarrow>
     op < 16 \<and> (\<forall>k. mk = Some k \<longrightarrow> length k = 4) \<and> length p < 2 ^ 31 - 14"

lemma frame_len_bytes_rfc: "frame_len_bytes len = rfc_len 0x80 len"
  by (simp add: frame_len_bytes_def rfc_len_def)

lemma xor_mask_length [simp]: "length (xor_mask i k p) = length p"
  by (induction p arbitrary: i) auto

lemma xor_mask_twice [simp]: "xor_mask i k (xor_mask i k p) = p"
  by (induction p arbitrary: i) (auto simp: xor.assoc)

lemma int_of_len_of_nat:
  assumes "n < 2 ^ 31"
  shows "int_of_len (of_nat n) = int n"
proof -
  have "(ucast (of_nat n :: u64) :: u32) = of_nat n"
    using assms by (simp add: word_unat_eq_iff unsigned_ucast_eq unat_of_nat take_bit_nat_eq_self)
  moreover have "sint (of_nat n :: u32) = int n"
    using assms by (simp add: signed_of_nat signed_take_bit_int_eq_self)
  ultimately show ?thesis by (simp add: int_of_len_def)
qed

lemma be_len_digits:
  assumes "n < 2 ^ 31"
  shows "be_len (map (\<lambda>i. of_nat (n div 256 ^ i)) [7, 6, 5, 4, 3, 2, 1, 0]) = of_nat n"
proof -
  have step: "(of_nat (n div 256 ^ Suc i) :: u64) * 256 + ucast (of_nat (n div 256 ^ i) :: u8)
      = of_nat (n div 256 ^ i)" for i
    unfolding ucast_byte_of_nat
    using arg_cong [OF digit_step [of n i], of "of_nat :: nat \<Rightarrow> u64"] by simp
  have fold: "foldl (\<lambda>l b. push_bit 8 l OR ucast b) (of_nat (n div 256 ^ k)) 
      (map (\<lambda>i. of_nat (n div 256 ^ i) :: u8) (rev [0..<k])) = (of_nat n :: u64)" for k
  proof (induction k)
    case (Suc k)
    then show ?case using step [of k] by (simp add: push_or_byte del: power_Suc)
  qed simp
  have "n div 256 ^ 8 = 0" using assms by simp
  moreover have "rev [0..<8] = [7, 6, 5, 4, 3, 2, 1, 0 :: nat]" by (simp add: upt_rec)
  ultimately show ?thesis using fold [of 8] unfolding be_len_def by simp
qed

text \<open>The size of the fixed header for a payload length, and the offset of the payload.\<close>

definition header_len :: "nat \<Rightarrow> nat" where
  "header_len n = (if n < 126 then 2 else if n \<le> 0xFFFF then 4 else 10)"

definition mask_len :: "bytes option \<Rightarrow> nat" where
  "mask_len mk = (if mk = None then 0 else 4)"

definition len_byte :: "nat \<Rightarrow> u8" where
  "len_byte n = (if n < 126 then of_nat n else if n \<le> 0xFFFF then 126 else 127)"

definition mask_bit :: "bytes option \<Rightarrow> u8" where
  "mask_bit mk = (if mk = None then 0 else 0x80)"

definition len_ext :: "nat \<Rightarrow> bytes" where
  "len_ext n = (if n < 126 then [] else if n \<le> 0xFFFF then [of_nat (n div 256), of_nat n]
     else map (\<lambda>i. of_nat (n div 256 ^ i)) [7, 6, 5, 4, 3, 2, 1, 0])"

lemma rfc_frame_shape:
  "rfc_frame (Frame fin op mk p) =
     ((if fin then 0x80 else 0) OR op) # (mask_bit mk OR len_byte (length p)) # len_ext (length p)
       @ (case mk of None \<Rightarrow> p | Some k \<Rightarrow> k @ xor_mask 0 k p)"
  by (simp add: rfc_len_def mask_bit_def len_byte_def len_ext_def)

lemma unat_len_byte: "unat (len_byte n) < 128"
  by (simp add: len_byte_def unat_of_nat)

lemma length_len_ext: "length (len_ext n) = header_len n - 2"
  by (simp add: len_ext_def header_len_def)

lemma len_byte_low: "(mask_bit mk OR len_byte n) AND 0x7F = len_byte n"
  by (rule u8_low7_or) (auto simp: unat_len_byte mask_bit_def)

lemma len_byte_top: "((mask_bit mk OR len_byte n) AND 0x80 \<noteq> 0) = (mk \<noteq> None)"
  by (auto simp: mask_bit_def u8_no_top_bit u8_top_bit_or unat_len_byte)

lemma fin_bit: "op < (16 :: u8) \<Longrightarrow> (((if fin then 0x80 else 0) OR op) AND 0x80 \<noteq> 0) = fin"
  by (simp add: u8_no_top_bit u8_top_bit_or word_less_nat_alt)

lemma opcode_bits: "op < (16 :: u8) \<Longrightarrow> ((if fin then 0x80 else 0) OR op) AND 0x0F = op"
  by (rule u8_low4_or) (auto simp: word_less_nat_alt)

lemma frame_header_short:
  assumes "l < 126"
  shows "frame_header (b0 # (mask_bit mk OR len_byte l) # r) = Some (2, of_nat l)"
proof -
  have "(ucast (len_byte l) :: u64) = of_nat l"
    using assms by (simp add: len_byte_def ucast_byte_of_nat)
  moreover have "(of_nat l :: u64) \<noteq> 126" "(of_nat l :: u64) \<noteq> 127"
    using assms by (auto simp: word_unat_eq_iff unat_of_nat take_bit_nat_eq_self)
  ultimately show ?thesis by (simp add: frame_header_def len_byte_low)
qed

lemma frame_header_medium:
  assumes "126 \<le> l" "l \<le> 0xFFFF"
  shows "frame_header (b0 # (mask_bit mk OR len_byte l) # r) =
    (if length r < 2 then None
     else Some (4, push_bit 8 (ucast (r ! 0)) OR ucast (r ! 1)))"
  using assms by (simp add: frame_header_def len_byte_low, simp add: len_byte_def)

lemma frame_header_long:
  assumes "0xFFFF < l"
  shows "frame_header (b0 # (mask_bit mk OR len_byte l) # r) =
    (if length r < 8 then None else Some (10, be_len (take 8 r)))"
  using assms by (simp add: frame_header_def len_byte_low, simp add: len_byte_def)

lemma medium_len:
  assumes "l \<le> 0xFFFF"
  shows "push_bit 8 (ucast (of_nat (l div 256) :: u8)) OR ucast (of_nat l :: u8) = (of_nat l :: u64)"
proof -
  have "l div 256 mod 256 * 256 + l mod 256 = l"
    using assms by (simp add: less_mult_imp_div_less div_mult_mod_eq)
  from arg_cong [OF this, of "of_nat :: nat \<Rightarrow> u64"] show ?thesis
    unfolding push_or_byte unfolding ucast_byte_of_nat by simp
qed

lemma frame_header_prefix:
  assumes "l < 2 ^ 31"
  shows "frame_header (b0 # (mask_bit mk OR len_byte l) # take n (len_ext l @ r)) =
    (if 2 + length (take n (len_ext l @ r)) < header_len l then None
     else Some (header_len l, of_nat l))"
proof -
  consider "l < 126" | "126 \<le> l" "l \<le> 0xFFFF" | "0xFFFF < l" by linarith
  then show ?thesis
  proof cases
    case 1
    then show ?thesis by (simp add: frame_header_short header_len_def)
  next
    case 2
    then have "len_ext l = [of_nat (l div 256), of_nat l]" "header_len l = 4"
      by (simp_all add: len_ext_def header_len_def)
    with 2 show ?thesis
      by (simp add: frame_header_medium medium_len take_Cons' min_def)
  next
    case 3
    have e: "header_len l = 10"
        "len_ext l = map (\<lambda>i. of_nat (l div 256 ^ i)) [7, 6, 5, 4, 3, 2, 1, 0]"
      using 3 by (simp_all add: len_ext_def header_len_def)
    then have "be_len (len_ext l) = of_nat l" using be_len_digits [OF assms] by presburger
    moreover have l8: "length (len_ext l) = 8" by (simp add: length_len_ext e)
    moreover from l8 have "take 8 (take n (len_ext l @ r)) = len_ext l"
      if "\<not> length (take n (len_ext l @ r)) < 8"
      using that by (simp split: if_splits)
    ultimately show ?thesis
      using 3 e(1) by (simp add: frame_header_long)
  qed
qed

text \<open>What the parser does with one frame that has arrived completely: the reference
  behaviour, on the abstract frame.\<close>

definition deliver :: "(nat \<Rightarrow> u8) \<Rightarrow> ws_frame \<Rightarrow> ws_client \<Rightarrow> ws_client \<times> ws_event list" where
  "deliver rand f c =
     (if frame_opcode f = 1 then
        (c, [if frame_fin f then EvText (frame_payload f)
             else EvError ''Fragmented text frames unsupported''])
      else if frame_opcode f = 9 then writeFrame rand 0xA (frame_payload f) c
      else (c, []))"

fun deliver_all :: "(nat \<Rightarrow> u8) \<Rightarrow> ws_frame list \<Rightarrow> ws_client \<Rightarrow> ws_client \<times> ws_event list" where
  "deliver_all rand [] c = (c, [])"
| "deliver_all rand (f # fs) c =
     (case deliver rand f c of (c1, es1) \<Rightarrow>
        (case deliver_all rand fs c1 of (c2, es2) \<Rightarrow> (c2, es1 @ es2)))"

abbreviation with_buffer :: "bytes \<Rightarrow> ws_client \<Rightarrow> ws_client" where
  "with_buffer b c \<equiv> c\<lparr>ws_recvBuffer := b\<rparr>"

lemma frame_step_no_header:
  "frame_header (ws_recvBuffer c) = None \<Longrightarrow> frame_step rand c = (False, c, [])"
  by (simp add: frame_step_def Let_def)

lemma frame_step_incomplete:
  assumes "ws_recvBuffer c = b0 # b1 # t" "frame_header (b0 # b1 # t) = Some (h, len)"
    and "int (length (ws_recvBuffer c)) < int h + int (if b1 AND 0x80 \<noteq> 0 then 4 else 0) + int_of_len len"
  shows "frame_step rand c = (False, c, [])"
  using assms unfolding frame_step_def Let_def by simp

lemma rfc_frame_length:
  assumes "wf_frame (Frame fin op mk p)"
  shows "length (rfc_frame (Frame fin op mk p)) = header_len (length p) + mask_len mk + length p"
  using assms unfolding rfc_frame_shape
  by (auto simp: length_len_ext mask_len_def header_len_def split: option.split)

lemma mask_len_bit: "mask_len mk = (if (mask_bit mk OR len_byte l) AND 0x80 \<noteq> 0 then 4 else 0)"
  unfolding len_byte_top by (simp add: mask_len_def)

lemma frame_step_prefix:
  assumes wf: "wf_frame (Frame fin op mk p)"
    and len: "length buf < length (rfc_frame (Frame fin op mk p))"
    and buf: "buf = take (length buf) (rfc_frame (Frame fin op mk p) @ r)"
    and c: "ws_recvBuffer c = buf"
  shows "frame_step rand c = (False, c, [])"
proof (cases "length buf < 2")
  case True
  with c show ?thesis by (simp add: frame_step_def)
next
  case False
  let ?tl = "len_ext (length p) @ (case mk of None \<Rightarrow> p | Some k \<Rightarrow> k @ xor_mask 0 k p) @ r"
  let ?b1 = "mask_bit mk OR len_byte (length p)"
  obtain n where n: "length buf = Suc (Suc n)"
    using False by (cases "length buf"; cases "length buf - 1") auto
  have b: "buf = ((if fin then 0x80 else 0) OR op) # ?b1 # take n ?tl"
    using buf unfolding n rfc_frame_shape take_Suc_Cons append_Cons append_assoc .
  have p: "length p < 2 ^ 31" using wf by simp
  show ?thesis
  proof (cases "2 + length (take n ?tl) < header_len (length p)")
    case True
    then show ?thesis
      by (intro frame_step_no_header) (simp only: c b frame_header_prefix [OF p] if_True)
  next
    case False
    show ?thesis
    proof (rule frame_step_incomplete)
      show "frame_header (((if fin then 0x80 else 0) OR op) # ?b1 # take n ?tl)
          = Some (header_len (length p), of_nat (length p))"
        using False by (simp only: frame_header_prefix [OF p] if_False)
      show "int (length (ws_recvBuffer c)) < int (header_len (length p))
          + int (if ?b1 AND 0x80 \<noteq> 0 then 4 else 0) + int_of_len (of_nat (length p))"
        using len unfolding c rfc_frame_length [OF wf] int_of_len_of_nat [OF p] mask_len_bit [symmetric]
        by simp
    qed (simp only: b c)
  qed
qed

lemma frame_step_complete:
  assumes "ws_recvBuffer c = b0 # b1 # t" "frame_header (b0 # b1 # t) = Some (h, of_nat l)"
    and "l < 2 ^ 31" and "m = (if b1 AND 0x80 \<noteq> 0 then 4 else 0)"
    and "h + m + l \<le> length (b0 # b1 # t)" and "b0 AND 0x0F = op" "op \<noteq> 8"
    and "fin = (b0 AND 0x80 \<noteq> 0)" "0 < h"
    and "p = (if b1 AND 0x80 \<noteq> 0 then xor_mask 0 (mid h 4 (b0 # b1 # t)) else (\<lambda>x. x))
      (take l (drop (h + m) (b0 # b1 # t)))"
  shows "frame_step rand c = (True,
    deliver rand (Frame fin op mk p) (with_buffer (drop (h + m + l) (ws_recvBuffer c)) c))"
proof -
  let ?buf = "b0 # b1 # t"
  have total: "int h + int m + int_of_len (of_nat l) = int (h + m + l)"
    using assms(3) by (simp add: int_of_len_of_nat)
  have "\<not> int (length ?buf) < int (h + m + l)" using assms(5) by simp
  moreover have "mid_int (h + m) (int_of_len (of_nat l)) ?buf = take l (drop (h + m) ?buf)"
    using assms(3) by (simp add: mid_int_def int_of_len_of_nat)
  moreover have "remove_front (int (h + m + l)) ?buf = drop (h + m + l) ?buf"
    using assms(9) by (simp add: remove_front_def flip: of_nat_add)
  ultimately show ?thesis
    unfolding frame_step_def Let_def assms(1) assms(2) option.case prod.case nth_Cons_0 nth_Cons_Suc
      One_nat_def assms(4) [symmetric] total deliver_def
    using assms by (auto split: prod.split)
qed

lemma frame_step_frame:
  assumes wf: "wf_frame f" and op: "frame_opcode f \<noteq> 8" and c: "ws_recvBuffer c = rfc_frame f @ r"
  shows "frame_step rand c = (True, deliver rand f (with_buffer r c))"
proof -
  obtain fin opc mk p where f: "f = Frame fin opc mk p" by (cases f)
  let ?body = "case mk of None \<Rightarrow> p | Some k \<Rightarrow> k @ xor_mask 0 k p"
  let ?b0 = "(if fin then 0x80 else 0) OR opc" and ?b1 = "mask_bit mk OR len_byte (length p)"
  let ?h = "header_len (length p)" and ?m = "mask_len mk"
  have buf: "ws_recvBuffer c = ?b0 # ?b1 # len_ext (length p) @ ?body @ r"
    unfolding c f rfc_frame_shape by simp
  have p: "length p < 2 ^ 31" and opc: "opc < 16" using wf f by auto
  have hdr: "frame_header (?b0 # ?b1 # len_ext (length p) @ ?body @ r) = Some (?h, of_nat (length p))"
    using frame_header_prefix [OF p, of ?b0 mk "length (len_ext (length p) @ ?body @ r)" "?body @ r"]
    by (simp only: take_all order.refl) (simp add: length_len_ext)
  have h: "length (len_ext (length p)) = ?h - 2" "2 \<le> ?h"
    by (simp_all add: length_len_ext header_len_def)
  have dr: "drop ?h (?b0 # ?b1 # len_ext (length p) @ ?body @ r) = ?body @ r"
    using h by (simp add: drop_Cons' numeral_2_eq_2)
  have drn: "drop (?h + k) (?b0 # ?b1 # len_ext (length p) @ ?body @ r) = drop k (?body @ r)" for k
    by (simp only: add.commute [of ?h k] drop_drop [symmetric] dr)
  have len: "length (?b0 # ?b1 # len_ext (length p) @ ?body @ r) = ?h + length ?body + length r"
    using h by simp
  have body: "length ?body = ?m + length p"
    using wf f by (auto simp: mask_len_def split: option.split)
  have pay: "p = (if ?b1 AND 0x80 \<noteq> 0 then xor_mask 0 (mid ?h 4 (?b0 # ?b1 # len_ext (length p) @ ?body @ r))
      else (\<lambda>x. x)) (take (length p) (drop (?h + ?m) (?b0 # ?b1 # len_ext (length p) @ ?body @ r)))"
    unfolding drn mid_def dr len_byte_top using wf f by (auto simp: mask_len_def)
  have "frame_step rand c = (True, deliver rand (Frame fin opc mk p)
      (with_buffer (drop (?h + ?m + length p) (ws_recvBuffer c)) c))"
    by (rule frame_step_complete [OF buf hdr p mask_len_bit _ opcode_bits [OF opc] _ fin_bit [OF opc, symmetric] _ pay])
      (use len body op f h in auto)
  moreover have "drop (?h + ?m + length p) (ws_recvBuffer c) = r"
    using body unfolding buf add.assoc drn by simp
  ultimately show ?thesis by (simp add: f)
qed

subsection \<open>The receive loop on a stream of frames\<close>

definition stream_of :: "ws_frame list \<Rightarrow> bytes" where
  "stream_of fs = concat (map rfc_frame fs)"

text \<open>Frames the parser accepts without leaving its loop: well-formed, and not a close frame.\<close>

definition data_frame :: "ws_frame \<Rightarrow> bool" where
  "data_frame f \<longleftrightarrow> wf_frame f \<and> frame_opcode f \<noteq> 8"

text \<open>Successive \<^verbatim>\<open>readyRead\<close> chunks of an established connection.\<close>

fun feed :: "(nat \<Rightarrow> u8) \<Rightarrow> bytes list \<Rightarrow> ws_client \<Rightarrow> (ws_client \<times> ws_event list) option" where
  "feed rand [] c = Some (c, [])"
| "feed rand (d # ds) c =
     (case handleIncoming rand d c of
        None \<Rightarrow> None
      | Some (c1, es1) \<Rightarrow> map_option (\<lambda>(c2, es2). (c2, es1 @ es2)) (feed rand ds c1))"

lemma stream_of_simps [simp]:
  "stream_of [] = []" "stream_of (f # fs) = rfc_frame f @ stream_of fs"
  by (simp_all add: stream_of_def)

lemma deliver_with_buffer:
  "deliver rand f (with_buffer b c) = (with_buffer b (fst (deliver rand f c)), snd (deliver rand f c))"
  by (simp add: deliver_def writeFrame_def Let_def)

lemma deliver_all_with_buffer:
  "deliver_all rand fs (with_buffer b c)
    = (with_buffer b (fst (deliver_all rand fs c)), snd (deliver_all rand fs c))"
  by (induction fs arbitrary: c) (auto simp: deliver_with_buffer split: prod.split)

lemma deliver_all_Cons:
  "deliver_all rand (f # fs) c =
     (fst (deliver_all rand fs (fst (deliver rand f c))),
      snd (deliver rand f c) @ snd (deliver_all rand fs (fst (deliver rand f c))))"
  by (simp add: split_beta)

lemma deliver_all_append:
  "deliver_all rand (fs @ gs) c =
     (fst (deliver_all rand gs (fst (deliver_all rand fs c))),
      snd (deliver_all rand fs c) @ snd (deliver_all rand gs (fst (deliver_all rand fs c))))"
  by (induction fs arbitrary: c) (simp_all add: split_beta)

lemma handle_loop_frame:
  assumes "data_frame f"
  shows "handle_loop rand (with_buffer (rfc_frame f @ r) c) evs =
    handle_loop rand (with_buffer r (fst (deliver rand f c))) (evs @ snd (deliver rand f c))"
  using assms frame_step_frame [of f "with_buffer (rfc_frame f @ r) c" r rand]
  by (subst handle_loop.simps) (simp add: data_frame_def deliver_with_buffer)

lemma handle_loop_prefix:
  assumes "data_frame f" "length buf < length (rfc_frame f)" "buf = take (length buf) (rfc_frame f @ r)"
  shows "handle_loop rand (with_buffer buf c) evs = Some (with_buffer buf c, evs)"
proof -
  have "frame_step rand (with_buffer buf c) = (False, with_buffer buf c, [])"
    using assms by (cases f) (rule frame_step_prefix, auto simp: data_frame_def)
  then show ?thesis by (subst handle_loop.simps) simp
qed

lemma handle_loop_empty: "handle_loop rand (with_buffer [] c) evs = Some (with_buffer [] c, evs)"
  by (subst handle_loop.simps) (simp add: frame_step_def)

lemma handle_loop_stream:
  assumes "buf @ rest = stream_of fs" "\<forall>f\<in>set fs. data_frame f"
  shows "\<exists>gs hs rm. fs = gs @ hs \<and> rm @ rest = stream_of hs
    \<and> (hs = [] \<or> length rm < length (rfc_frame (hd hs)))
    \<and> handle_loop rand (with_buffer buf c) evs =
        Some (with_buffer rm (fst (deliver_all rand gs c)), evs @ snd (deliver_all rand gs c))"
  using assms
proof (induction fs arbitrary: buf c evs)
  case Nil
  then show ?case by (auto simp: handle_loop_empty)
next
  case (Cons f fs)
  show ?case
  proof (cases "length buf < length (rfc_frame f)")
    case True
    have "buf = take (length buf) (rfc_frame f @ stream_of fs)"
      using Cons.prems(1) by (metis append_eq_conv_conj stream_of_simps(2))
    with True Cons.prems have "handle_loop rand (with_buffer buf c) evs = Some (with_buffer buf c, evs)"
      by (intro handle_loop_prefix) auto
    with True Cons.prems show ?thesis
      by (intro exI [of _ "[]"] exI [of _ "f # fs"] exI [of _ buf]) simp
  next
    case False
    have "take (length (rfc_frame f)) (buf @ rest) = rfc_frame f"
        "drop (length (rfc_frame f)) (buf @ rest) = stream_of fs"
      using Cons.prems(1) by simp_all
    then obtain b where b: "buf = rfc_frame f @ b" "b @ rest = stream_of fs"
      using False append_take_drop_id [of "length (rfc_frame f)" buf]
      by (intro that [of "drop (length (rfc_frame f)) buf"]) auto
    let ?c = "fst (deliver rand f c)" and ?e = "evs @ snd (deliver rand f c)"
    from Cons.IH [OF b(2), of ?c ?e] Cons.prems(2) obtain gs hs rm where
      "fs = gs @ hs" "rm @ rest = stream_of hs"
      "hs = [] \<or> length rm < length (rfc_frame (hd hs))"
      "handle_loop rand (with_buffer b ?c) ?e =
        Some (with_buffer rm (fst (deliver_all rand gs ?c)), ?e @ snd (deliver_all rand gs ?c))"
      by auto
    with Cons.prems(2) b(1) show ?thesis
      by (intro exI [of _ "f # gs"] exI [of _ hs] exI [of _ rm])
        (simp add: handle_loop_frame deliver_all_Cons del: deliver_all.simps)
  qed
qed

lemma feed_stream:
  assumes "rm @ concat chunks = stream_of fs" "\<forall>f\<in>set fs. data_frame f"
    and "fs = [] \<or> length rm < length (rfc_frame (hd fs))"
  shows "feed rand chunks (with_buffer rm c) =
    Some (with_buffer [] (fst (deliver_all rand fs c)), snd (deliver_all rand fs c))"
  using assms
proof (induction chunks arbitrary: rm fs c)
  case Nil
  then have "fs = []" by (cases fs) auto
  with Nil show ?case by simp
next
  case (Cons d ds)
  have "(rm @ d) @ concat ds = stream_of fs" using Cons.prems by simp
  from handle_loop_stream [OF this Cons.prems(2), of rand c "[]"] obtain gs hs rm' where
    *: "fs = gs @ hs" "rm' @ concat ds = stream_of hs" "hs = [] \<or> length rm' < length (rfc_frame (hd hs))"
    "handle_loop rand (with_buffer (rm @ d) c) [] =
      Some (with_buffer rm' (fst (deliver_all rand gs c)), snd (deliver_all rand gs c))"
    by auto
  from Cons.IH [OF *(2) _ *(3), of "fst (deliver_all rand gs c)"] Cons.prems(2) *(1,4)
  show ?case by (simp add: handleIncoming_def deliver_all_append)
qed

lemma deliver_all_recvBuffer [simp]:
  "ws_recvBuffer (fst (deliver_all rand fs c)) = ws_recvBuffer c"
proof (induction fs arbitrary: c)
  case (Cons f fs)
  then show ?case
    by (simp add: deliver_all_Cons deliver_def writeFrame_def Let_def del: deliver_all.simps(2))
qed simp

lemma rfc_frame_nonempty [simp]: "rfc_frame f \<noteq> []"
  by (cases f) simp

subsection \<open>Properties of the frame parser\<close>

text \<open>
  C1. However the network splits a stream of frames into \<^verbatim>\<open>readyRead\<close> chunks, the parser
  terminates on every chunk, emits exactly the events of the frames one after the other and in
  order (a text frame its payload, a ping its pong), and ends with an empty receive buffer.
\<close>

theorem ws_feed_chunks:
  assumes "ws_recvBuffer c = []" "concat chunks = stream_of fs" "\<forall>f\<in>set fs. data_frame f"
  shows "feed rand chunks c = Some (deliver_all rand fs c)"
proof -
  have c: "with_buffer [] c = c" using assms(1) by simp
  have "with_buffer [] (fst (deliver_all rand fs c)) = fst (deliver_all rand fs c)"
    using assms(1) by simp
  moreover have "feed rand chunks (with_buffer [] c) =
      Some (with_buffer [] (fst (deliver_all rand fs c)), snd (deliver_all rand fs c))"
    using assms by (intro feed_stream) auto
  ultimately show ?thesis unfolding c by simp
qed

theorem ws_feed_chunks_witness:
  "map_option snd (feed (\<lambda>_. 0) [[0x81, 2, 0x68], [0x69, 0x89, 0x81, 1, 2], [3, 4, 6]]
     (ws_init\<lparr>ws_socket := Some ConnectedState, ws_handshakeDone := True\<rparr>))
   = Some [EvText [0x68, 0x69], ActWrite [0x8A, 0x81, 0, 0, 0, 0, 7]]"
proof -
  let ?fs = "[Frame True 1 None [0x68, 0x69], Frame True 9 (Some [1, 2, 3, 4]) [7]]"
  have "feed (\<lambda>_. 0) [[0x81, 2, 0x68], [0x69, 0x89, 0x81, 1, 2], [3, 4, 6]]
      (ws_init\<lparr>ws_socket := Some ConnectedState, ws_handshakeDone := True\<rparr>) =
    Some (deliver_all (\<lambda>_. 0) ?fs (ws_init\<lparr>ws_socket := Some ConnectedState, ws_handshakeDone := True\<rparr>))"
    by (rule ws_feed_chunks) (simp_all add: ws_init_def data_frame_def rfc_len_def)
  then show ?thesis
    by (simp add: deliver_def writeFrame_def frame_len_bytes_def ws_init_def)
qed

text \<open>
  C14. A text message written by \<^verbatim>\<open>writeFrame\<close> on an open socket is one masked RFC 6455 frame,
  and the parser, started on an empty buffer, reads the very same payload back out of it.
\<close>

theorem ws_write_read:
  assumes "ws_socket c = Some ConnectedState" "length payload < 2 ^ 31 - 14" "ws_recvBuffer d = []"
  shows "\<exists>mk w. length mk = 4 \<and> w = rfc_frame (Frame True 1 (Some mk) payload)
    \<and> snd (writeFrame rand 1 payload c) = [ActWrite w]
    \<and> handleIncoming rand' w d = Some (d, [EvText payload])"
proof -
  let ?mk = "map (\<lambda>i. rand (ws_rng c + i)) [0, 1, 2, 3]"
  let ?f = "Frame True 1 (Some ?mk) payload"
  have "data_frame ?f" using assms(2) by (simp add: data_frame_def)
  then have "handle_loop rand' (with_buffer (rfc_frame ?f @ []) d) [] =
      handle_loop rand' (with_buffer [] d) [EvText payload]"
    by (subst handle_loop_frame) (simp_all add: deliver_def del: rfc_frame.simps)
  then have "handleIncoming rand' (rfc_frame ?f) d = Some (d, [EvText payload])"
    using assms(3) by (simp add: handleIncoming_def handle_loop_empty del: rfc_frame.simps)
  moreover have "snd (writeFrame rand 1 payload c) = [ActWrite (rfc_frame ?f)]"
    using assms(1) by (simp add: writeFrame_def frame_len_bytes_rfc Let_def)
  ultimately show ?thesis by (intro exI [of _ ?mk] exI [of _ "rfc_frame ?f"]) simp
qed

theorem ws_write_read_witness:
  "\<exists>mk w. length mk = 4 \<and> w = rfc_frame (Frame True 1 (Some mk) [0x7B, 0x7D])
    \<and> snd (writeFrame (\<lambda>i. of_nat (3 * i)) 1 [0x7B, 0x7D] (ws_init\<lparr>ws_socket := Some ConnectedState\<rparr>))
        = [ActWrite w]
    \<and> handleIncoming (\<lambda>_. 0) w ws_init = Some (ws_init, [EvText [0x7B, 0x7D]])"
  by (rule ws_write_read) (simp_all add: ws_init_def)

text \<open>A loop iteration that consumes nothing repeats for ever.\<close>

lemma handle_loop_stuck:
  assumes "frame_step rand c = (True, c, es)"
  shows "handle_loop rand c evs = None"
proof -
  have "rand = rand \<longrightarrow> c \<noteq> c" if "handle_loop rand c evs = Some y" for y
    by (rule handle_loop.raw_induct [where P = "\<lambda>r d _ _. r = rand \<longrightarrow> d \<noteq> c", OF _ that])
      (use assms in \<open>auto split: prod.splits if_splits\<close>)
  then show ?thesis by (cases "handle_loop rand c evs") auto
qed

text \<open>
  A peer that declares a 64-bit payload length whose low 32 bits read as the negative of
  the header size makes \<^verbatim>\<open>handleIncoming\<close> spin for ever on the same ten bytes: the receive
  loop never returns, whatever follows in the buffer.
\<close>

theorem ws_hostile_length_hangs:
  "handleIncoming rand ([0x81, 0x7F, 0xFF, 0xFF, 0xFF, 0xFF, 0xFF, 0xFF, 0xFF, 0xF6] @ junk) (with_buffer [] c) = None"
proof -
  let ?buf = "[0x81, 0x7F, 0xFF, 0xFF, 0xFF, 0xFF, 0xFF, 0xFF, 0xFF, 0xF6] @ junk :: bytes"
  have h: "frame_header ?buf = Some (10, 0xFFFFFFFFFFFFFFF6)"
    by (simp add: frame_header_def be_len_def)
  have "int_of_len 0xFFFFFFFFFFFFFFF6 = - 10" by (simp add: int_of_len_def)
  then have "frame_step rand (with_buffer ?buf c) = (True, with_buffer ?buf c, [EvText junk])"
    unfolding frame_step_def Let_def
    by (simp add: h [simplified] mid_int_def remove_front_def)
  then show ?thesis
    by (simp add: handleIncoming_def handle_loop_stuck)
qed

subsection \<open>Properties of the handshake\<close>

text \<open>An invariant of one iteration, and a property of the events it adds, hold of the loop.\<close>

lemma handle_loop_invariant:
  assumes step: "\<And>d again d' es. frame_step rand d = (again, d', es) \<Longrightarrow> I d \<Longrightarrow> I d' \<and> Ball (set es) Q"
    and run: "handle_loop rand c evs = Some (c', evs')" and "I c" "Ball (set evs) Q"
  shows "I c' \<and> Ball (set evs') Q"
proof -
  have "rand = rand \<longrightarrow> I c \<longrightarrow> Ball (set evs) Q \<longrightarrow> I (fst (c', evs')) \<and> Ball (set (snd (c', evs'))) Q"
    by (rule handle_loop.raw_induct [where P = "\<lambda>r d vs y. r = rand \<longrightarrow> I d \<longrightarrow> Ball (set vs) Q \<longrightarrow>
            I (fst y) \<and> Ball (set (snd y)) Q", OF _ run])
      (use step in \<open>fastforce split: prod.splits if_splits\<close>)
  with assms show ?thesis by simp
qed

text \<open>The loop never completes a handshake, keeps the connection's identity, and the only
  frames it writes are pongs.\<close>

definition pong_only :: "ws_event \<Rightarrow> bool" where
  "pong_only e \<longleftrightarrow> e \<noteq> EvConnected \<and> (\<forall>h p. e \<noteq> ActConnectToHost h p)
     \<and> (\<forall>w. e = ActWrite w \<longrightarrow> w \<noteq> [] \<and> hd w = 0x8A)"

lemma frame_step_keeps:
  assumes "frame_step rand d = (again, d', es)"
  shows "ws_handshakeDone d' = ws_handshakeDone d" "ws_isTls d' = ws_isTls d" "Ball (set es) pong_only"
  using assms
  by (auto simp: frame_step_def Let_def writeFrame_def pong_only_def split: if_splits option.splits)

lemma handleIncoming_keeps:
  assumes "handleIncoming rand data c = Some (c', es)"
  shows "ws_handshakeDone c' = ws_handshakeDone c" "ws_isTls c' = ws_isTls c" "Ball (set es) pong_only"
proof -
  have "(ws_handshakeDone c' = ws_handshakeDone c \<and> ws_isTls c' = ws_isTls c) \<and> Ball (set es) pong_only"
    by (rule handle_loop_invariant [where I = "\<lambda>d. ws_handshakeDone d = ws_handshakeDone c \<and> ws_isTls d = ws_isTls c",
          OF _ assms [unfolded handleIncoming_def]]) (use frame_step_keeps in auto)
  then show "ws_handshakeDone c' = ws_handshakeDone c" "ws_isTls c' = ws_isTls c" "Ball (set es) pong_only"
    by auto
qed

text \<open>
  C11. While the handshake is pending, a chunk completes it (and \<^verbatim>\<open>connected()\<close> is emitted) if and
  only if the bytes received so far hold a complete header block that starts with a 101 status
  line and whose \<^verbatim>\<open>Sec-WebSocket-Accept\<close> is the non-empty hash of the key sent and the RFC GUID.
\<close>

theorem ws_handshake_complete_iff:
  assumes "\<not> ws_handshakeDone c" "onSocketReadyRead b64sha1 rand chunk c = Some (c', es)"
  shows "(ws_handshakeDone c' \<longleftrightarrow>
      (\<exists>idx. find_sub (bytes_of (crlf @ crlf)) (ws_handshake c @ chunk) = Some idx
         \<and> (let header = text_of (take idx (ws_handshake c @ chunk)) in
            (starts_with ''HTTP/1.1 101'' header \<or> starts_with ''HTTP/1.0 101'' header)
            \<and> headerValue header ''Sec-WebSocket-Accept'' \<noteq> []
            \<and> headerValue header ''Sec-WebSocket-Accept'' = b64sha1 (ws_handshakeKey c @ ws_guid))))
    \<and> (ws_handshakeDone c' \<longleftrightarrow> EvConnected \<in> set es)"
  using assms
  by (auto simp: onSocketReadyRead_def Let_def split: option.splits if_splits prod.splits
      dest: handleIncoming_keeps)

definition hs_reply :: bytes where
  "hs_reply = bytes_of (''HTTP/1.1 101 OK'' @ crlf @ ''sec-websocket-accept: ABCD'' @ crlf @ crlf)"

theorem ws_handshake_complete_iff_witness:
  "\<exists>c' es. onSocketReadyRead (\<lambda>_. ''ABCD'') (\<lambda>_. 0) hs_reply ws_init = Some (c', es)
     \<and> ws_handshakeDone c' \<and> EvConnected \<in> set es"
proof -
  have nd: "\<not> ws_handshakeDone ws_init" by (simp add: ws_init_def)
  have idx: "find_sub (bytes_of (crlf @ crlf)) (ws_handshake ws_init @ hs_reply) = Some 43"
    by code_simp
  have st: "starts_with ''HTTP/1.1 101'' (text_of (take 43 (ws_handshake ws_init @ hs_reply)))"
    by code_simp
  have hv: "headerValue (text_of (take 43 (ws_handshake ws_init @ hs_reply))) ''Sec-WebSocket-Accept''
      = ''ABCD''"
    by code_simp
  obtain c' es where r: "onSocketReadyRead (\<lambda>_. ''ABCD'') (\<lambda>_. 0) hs_reply ws_init = Some (c', es)"
    using nd idx st hv by (auto simp: onSocketReadyRead_def Let_def hs_reply_def bytes_of_def crlf_def ws_init_def)
  from ws_handshake_complete_iff [OF nd r] idx st hv r show ?thesis by (auto simp: Let_def)
qed

subsection \<open>The TLS path\<close>

text \<open>The slots the socket invokes during a connection, in the state the socket is then in.\<close>

datatype ws_slot = SlotConnected nat string | SlotReadyRead bytes | SlotDisconnected | SlotSslErrors

fun run_slot :: "(string \<Rightarrow> string) \<Rightarrow> (nat \<Rightarrow> u8) \<Rightarrow> ws_slot \<Rightarrow> ws_client \<Rightarrow> (ws_client \<times> ws_event list) option" where
  "run_slot b64sha1 rand (SlotConnected seed peer) c =
     Some (onSocketConnected b64sha1 seed peer (c\<lparr>ws_socket := Some ConnectedState\<rparr>))"
| "run_slot b64sha1 rand (SlotReadyRead chunk) c = onSocketReadyRead b64sha1 rand chunk c"
| "run_slot b64sha1 rand SlotDisconnected c =
     Some (onSocketDisconnected (c\<lparr>ws_socket := Some Unconnected\<rparr>))"
| "run_slot b64sha1 rand SlotSslErrors c = Some (onSslErrors c)"

fun run_slots ::
  "(string \<Rightarrow> string) \<Rightarrow> (nat \<Rightarrow> u8) \<Rightarrow> ws_slot list \<Rightarrow> ws_client \<Rightarrow> (ws_client \<times> ws_event list) option" where
  "run_slots b64sha1 rand [] c = Some (c, [])"
| "run_slots b64sha1 rand (s # ss) c =
     (case run_slot b64sha1 rand s c of
        None \<Rightarrow> None
      | Some (c1, es1) \<Rightarrow>
          map_option (\<lambda>(c2, es2). (c2, es1 @ es2)) (run_slots b64sha1 rand ss c1))"

definition no_upgrade :: "ws_event \<Rightarrow> bool" where
  "no_upgrade e \<longleftrightarrow> (\<forall>w. e = ActWrite w \<longrightarrow> w \<noteq> [] \<and> hd w = 0x8A)"

lemma run_slot_tls:
  assumes "ws_isTls c" "run_slot b64sha1 rand s c = Some (c', es)"
  shows "ws_isTls c' \<and> Ball (set es) no_upgrade"
proof (cases s)
  case (SlotReadyRead chunk)
  have inc: "handleIncoming rand d b = Some (c1, es1) \<Longrightarrow> ws_isTls b \<Longrightarrow>
      ws_isTls c1 \<and> Ball (set es1) no_upgrade" for d b c1 es1
    using handleIncoming_keeps [of rand d b c1 es1] by (auto simp: pong_only_def no_upgrade_def)
  show ?thesis
    using assms inc
    by (auto simp: SlotReadyRead onSocketReadyRead_def Let_def no_upgrade_def
        split: option.splits if_splits prod.splits) (fastforce simp: no_upgrade_def)+
qed (use assms in \<open>auto simp: onSocketConnected_def onSocketDisconnected_def onSslErrors_def no_upgrade_def
        split: if_splits\<close>)

lemma run_slot_no_connect:
  assumes "run_slot b64sha1 rand s c = Some (c', es)"
  shows "ActConnectToHost h p \<notin> set es"
proof (cases s)
  case (SlotReadyRead chunk)
  have inc: "handleIncoming rand d b = Some (c1, es1) \<Longrightarrow> ActConnectToHost h p \<notin> set es1" for d b c1 es1
    using handleIncoming_keeps(3) [of rand d b c1 es1] by (auto simp: pong_only_def)
  show ?thesis
    using assms inc
    by (auto simp: SlotReadyRead onSocketReadyRead_def Let_def split: option.splits if_splits prod.splits)
qed (use assms in \<open>auto simp: onSocketConnected_def onSocketDisconnected_def onSslErrors_def sendHandshake_def
        Let_def split: if_splits\<close>)

lemma run_slots_tls:
  "ws_isTls c \<Longrightarrow> run_slots b64sha1 rand ss c = Some (c', es) \<Longrightarrow> Ball (set es) no_upgrade"
proof (induction ss arbitrary: c c' es)
  case (Cons s ss)
  then obtain c1 es1 es2 where r: "run_slot b64sha1 rand s c = Some (c1, es1)"
      "run_slots b64sha1 rand ss c1 = Some (c', es2)" "es = es1 @ es2"
    by (auto split: option.splits prod.splits)
  with run_slot_tls [OF Cons.prems(1) r(1)] Cons.IH [OF _ r(2)] show ?case by auto
qed simp

text \<open>
  On a \<^verbatim>\<open>wss\<close> connection no sequence of socket signals ever makes the client write the
  HTTP upgrade request: \<^verbatim>\<open>onSocketConnected\<close> returns after starting TLS and nothing is
  connected to the \<^verbatim>\<open>encrypted\<close> signal. The only bytes it can ever write are pong frames.
\<close>

theorem ws_tls_never_upgrades:
  assumes "run_slots b64sha1 rand slots (fst (ws_open ''wss'' host port extra c)) = Some (c', es)"
  shows "ActWrite (bytes_of (upgrade_request peer key extra)) \<notin> set es"
proof -
  have "ws_isTls (fst (ws_open ''wss'' host port extra c))" by (simp add: ws_open_def)
  from run_slots_tls [OF this assms] have "Ball (set es) no_upgrade" .
  then show ?thesis by (auto simp: no_upgrade_def bytes_of_def upgrade_request_def)
qed

theorem ws_tls_never_upgrades_witness:
  "\<exists>c' es. run_slots (\<lambda>_. ''ABCD'') (\<lambda>_. 0) [SlotConnected 7 ''10.0.0.2'', SlotSslErrors, SlotDisconnected]
       (fst (ws_open ''wss'' ''cam'' 81 [] ws_init)) = Some (c', es)
     \<and> es = [ActStartClientEncryption, ActIgnoreSslErrors, EvDisconnected]
     \<and> ActWrite (bytes_of (upgrade_request ''10.0.0.2'' ''ABCD'' [])) \<notin> set es"
proof -
  obtain c' where r: "run_slots (\<lambda>_. ''ABCD'') (\<lambda>_. 0)
      [SlotConnected 7 ''10.0.0.2'', SlotSslErrors, SlotDisconnected]
      (fst (ws_open ''wss'' ''cam'' 81 [] ws_init))
      = Some (c', [ActStartClientEncryption, ActIgnoreSslErrors, EvDisconnected])"
    by (simp add: ws_open_def onSocketConnected_def onSslErrors_def onSocketDisconnected_def)
  from ws_tls_never_upgrades [OF r] r show ?thesis by blast
qed

end
