(* ===== verification/Ws_Notifier.thy ===== *)
theory Ws_Notifier
  imports Json Ws_Client
begin

text \<open>
  The camera notification socket of \<^verbatim>\<open>src/cameractrl/zc_ws_notifier.cpp\<close>: it owns one
  \<open>ws_client\<close>, reconnects it with backoff and turns text messages into named events.

  The record \<open>notifier\<close> has one field per member; the single-shot \<^verbatim>\<open>QTimer\<close> is the armed
  delay in milliseconds, if any. An operation returns the new state and what it does in
  order: the signals it emits and what it makes the socket do. The inputs of the event loop
  (a call of \<^verbatim>\<open>start\<close> or \<^verbatim>\<open>stop\<close>, the timer, a signal of the TCP socket) are the datatype
  \<open>nt_input\<close>. The slots connected to the signals of the client change no field of it, so they
  are run after the client's operation, in the order it emitted the signals.
\<close>

datatype nt_event =
    NtStateChanged bool
  | NtEventReceived string jobject
  | NtSock ws_event

record notifier =
  nt_socket :: ws_client
  nt_timer :: "int option"
  nt_host :: string
  nt_extraHeaders :: string
  nt_httpsOrigin :: bool
  nt_live :: bool
  nt_stopped :: bool
  nt_retry :: int

definition nt_init :: notifier where
  "nt_init = \<lparr>nt_socket = ws_init, nt_timer = None, nt_host = [], nt_extraHeaders = [],
     nt_httpsOrigin = False, nt_live = False, nt_stopped = True, nt_retry = 0\<rparr>"

definition doConnect :: "notifier \<Rightarrow> notifier \<times> nt_event list" where
  "doConnect n =
     (if nt_host n = [] \<or> nt_stopped n then (n, [])
      else
        (case ws_open (if nt_httpsOrigin n then ''wss'' else ''ws'') (nt_host n) 81
                (nt_extraHeaders n) (nt_socket n) of
           (s, es) \<Rightarrow> (n\<lparr>nt_socket := s\<rparr>, map NtSock es)))"

definition nt_start :: "string \<Rightarrow> bool \<Rightarrow> string \<Rightarrow> notifier \<Rightarrow> notifier \<times> nt_event list" where
  "nt_start host https extra n =
     doConnect (n\<lparr>nt_host := host, nt_httpsOrigin := https, nt_extraHeaders := extra,
       nt_retry := 0, nt_stopped := False\<rparr>)"

definition nt_stop :: "(nat \<Rightarrow> u8) \<Rightarrow> notifier \<Rightarrow> notifier \<times> nt_event list" where
  "nt_stop rand n =
     (case ws_close rand (nt_socket n) of
        (s, es) \<Rightarrow>
          (n\<lparr>nt_stopped := True, nt_timer := None, nt_socket := s, nt_live := False\<rparr>,
           map NtSock es @ [NtStateChanged False]))"

definition reconnect_delay :: "int \<Rightarrow> int" where
  "reconnect_delay retry = (if retry < 5 then 1000 * 2 ^ nat retry else 10000)"

definition scheduleReconnect :: "notifier \<Rightarrow> notifier" where
  "scheduleReconnect n =
     (if nt_host n = [] \<or> nt_stopped n then n
      else n\<lparr>nt_retry := nt_retry n + 1, nt_timer := Some (reconnect_delay (nt_retry n))\<rparr>)"

definition nt_onConnected :: "notifier \<Rightarrow> notifier \<times> nt_event list" where
  "nt_onConnected n = (n\<lparr>nt_live := True, nt_retry := 0\<rparr>, [NtStateChanged True])"

definition nt_onDisconnected :: "notifier \<Rightarrow> notifier \<times> nt_event list" where
  "nt_onDisconnected n =
     (scheduleReconnect (n\<lparr>nt_live := False\<rparr>), if nt_live n then [NtStateChanged False] else [])"

definition onTextMessage :: "(bytes \<Rightarrow> json option) \<Rightarrow> bytes \<Rightarrow> notifier \<Rightarrow> notifier \<times> nt_event list" where
  "onTextMessage parse msg n =
     (case parse msg of
        Some (JObj obj) \<Rightarrow>
          (let what0 = jtoString (jfield obj ''what'');
               what = (if what0 = [] then jtoString (jfield obj ''type'') else what0) in
           (n, if what = [] then [] else [NtEventReceived what obj]))
      | _ \<Rightarrow> (n, []))"

definition onSocketError :: "notifier \<Rightarrow> notifier \<times> nt_event list" where
  "onSocketError n = (scheduleReconnect (n\<lparr>nt_live := False\<rparr>), [NtStateChanged False])"

text \<open>The signal connections of the constructor.\<close>

fun nt_dispatch :: "(bytes \<Rightarrow> json option) \<Rightarrow> ws_event list \<Rightarrow> notifier \<Rightarrow> notifier \<times> nt_event list" where
  "nt_dispatch parse [] n = (n, [])"
| "nt_dispatch parse (e # es) n =
     (case (case e of
              EvConnected \<Rightarrow> nt_onConnected n
            | EvDisconnected \<Rightarrow> nt_onDisconnected n
            | EvText msg \<Rightarrow> onTextMessage parse msg n
            | EvError _ \<Rightarrow> onSocketError n
            | _ \<Rightarrow> (n, [NtSock e])) of
        (n1, o1) \<Rightarrow> (case nt_dispatch parse es n1 of (n2, o2) \<Rightarrow> (n2, o1 @ o2)))"

datatype nt_input = NtStart string bool string | NtStop | NtTimeout | NtSlot ws_slot

fun nt_step ::
  "(string \<Rightarrow> string) \<Rightarrow> (nat \<Rightarrow> u8) \<Rightarrow> (bytes \<Rightarrow> json option) \<Rightarrow> nt_input \<Rightarrow> notifier
     \<Rightarrow> (notifier \<times> nt_event list) option" where
  "nt_step b64sha1 rand parse (NtStart host https extra) n = Some (nt_start host https extra n)"
| "nt_step b64sha1 rand parse NtStop n = Some (nt_stop rand n)"
| "nt_step b64sha1 rand parse NtTimeout n =
     Some (if nt_timer n = None then (n, []) else doConnect (n\<lparr>nt_timer := None\<rparr>))"
| "nt_step b64sha1 rand parse (NtSlot s) n =
     (case run_slot b64sha1 rand s (nt_socket n) of
        None \<Rightarrow> None
      | Some (c, es) \<Rightarrow> Some (nt_dispatch parse es (n\<lparr>nt_socket := c\<rparr>)))"

fun nt_run ::
  "(string \<Rightarrow> string) \<Rightarrow> (nat \<Rightarrow> u8) \<Rightarrow> (bytes \<Rightarrow> json option) \<Rightarrow> nt_input list \<Rightarrow> notifier
     \<Rightarrow> (notifier \<times> nt_event list) option" where
  "nt_run b64sha1 rand parse [] n = Some (n, [])"
| "nt_run b64sha1 rand parse (i # is) n =
     (case nt_step b64sha1 rand parse i n of
        None \<Rightarrow> None
      | Some (n1, o1) \<Rightarrow>
          map_option (\<lambda>(n2, o2). (n2, o1 @ o2)) (nt_run b64sha1 rand parse is n1))"

subsection \<open>Silence after stop\<close>

definition quiet :: "notifier \<Rightarrow> bool" where
  "quiet n \<longleftrightarrow> nt_stopped n \<and> nt_timer n = None"

definition opens_socket :: "nt_event \<Rightarrow> bool" where
  "opens_socket e \<longleftrightarrow> (\<exists>h p. e = NtSock (ActConnectToHost h p))"

fun is_start :: "nt_input \<Rightarrow> bool" where
  "is_start (NtStart _ _ _) = True"
| "is_start _ = False"

lemma scheduleReconnect_stopped [simp]: "nt_stopped n \<Longrightarrow> scheduleReconnect n = n"
  by (simp add: scheduleReconnect_def)

lemma nt_dispatch_quiet:
  assumes "quiet n" "\<forall>h p. ActConnectToHost h p \<notin> set es" "nt_dispatch parse es n = (n', out)"
  shows "quiet n' \<and> (\<forall>e\<in>set out. \<not> opens_socket e)"
  using assms
proof (induction es arbitrary: n out)
  case (Cons e es)
  define r where "r = (case e of
              EvConnected \<Rightarrow> nt_onConnected n
            | EvDisconnected \<Rightarrow> nt_onDisconnected n
            | EvText msg \<Rightarrow> onTextMessage parse msg n
            | EvError _ \<Rightarrow> onSocketError n
            | _ \<Rightarrow> (n, [NtSock e]))"
  have "quiet (fst r) \<and> (\<forall>e\<in>set (snd r). \<not> opens_socket e)"
    using Cons.prems unfolding r_def quiet_def opens_socket_def
    by (auto simp: nt_onConnected_def nt_onDisconnected_def onTextMessage_def onSocketError_def Let_def
        split: ws_event.splits option.splits json.splits)
  moreover obtain o2 where "nt_dispatch parse es (fst r) = (n', o2)" "out = snd r @ o2"
    using Cons.prems(3) unfolding nt_dispatch.simps(2) r_def [symmetric]
    by (auto split: prod.splits)
  ultimately show ?case using Cons.IH [of "fst r" o2] Cons.prems(2) by auto
qed simp

lemma nt_step_quiet:
  assumes "quiet n" "\<not> is_start i" "nt_step b64sha1 rand parse i n = Some (n', out)"
  shows "quiet n' \<and> (\<forall>e\<in>set out. \<not> opens_socket e)"
proof (cases i)
  case (NtSlot s)
  with assms(3) obtain c es where
    r: "run_slot b64sha1 rand s (nt_socket n) = Some (c, es)"
       "nt_dispatch parse es (n\<lparr>nt_socket := c\<rparr>) = (n', out)"
    by (auto split: option.splits)
  have "quiet (n\<lparr>nt_socket := c\<rparr>)" using assms(1) by (simp add: quiet_def)
  from nt_dispatch_quiet [OF this _ r(2)] run_slot_no_connect [OF r(1)] show ?thesis by auto
next
  case NtStop
  with assms show ?thesis
    by (auto simp: nt_stop_def ws_close_def writeFrame_def quiet_def opens_socket_def Let_def
        split: if_splits prod.splits)
qed (use assms in \<open>auto simp: quiet_def\<close>)

lemma nt_run_quiet:
  assumes "quiet n" "\<forall>i\<in>set is. \<not> is_start i" "nt_run b64sha1 rand parse is n = Some (n', out)"
  shows "quiet n' \<and> (\<forall>e\<in>set out. \<not> opens_socket e)"
  using assms
proof (induction "is" arbitrary: n out)
  case (Cons i "is")
  from Cons.prems(3) obtain n1 o1 o2 where
    r: "nt_step b64sha1 rand parse i n = Some (n1, o1)" "nt_run b64sha1 rand parse is n1 = Some (n', o2)"
      "out = o1 @ o2"
    by (auto split: option.splits)
  from nt_step_quiet [OF Cons.prems(1) _ r(1)] Cons.IH [OF _ _ r(2)] Cons.prems(2) r(3)
  show ?case by auto
qed simp

lemma nt_stop_quiet: "quiet (fst (nt_stop rand n))"
  by (simp add: nt_stop_def quiet_def split: prod.split)

text \<open>
  C18. After \<^verbatim>\<open>stop()\<close>, no sequence of timer expiries, socket signals and further \<^verbatim>\<open>stop()\<close>
  calls opens a socket or arms the reconnect timer; only a new \<^verbatim>\<open>start()\<close> does.
\<close>

theorem nt_no_reconnect_after_stop:
  assumes "\<forall>i\<in>set is. \<not> is_start i"
    and "nt_run b64sha1 rand parse is (fst (nt_stop rand n)) = Some (n', out)"
  shows "nt_timer n' = None \<and> (\<forall>h p. NtSock (ActConnectToHost h p) \<notin> set out)"
  using nt_run_quiet [OF nt_stop_quiet assms] by (auto simp: quiet_def opens_socket_def)

definition nt_connecting :: notifier where
  "nt_connecting = fst (nt_start ''10.0.0.2'' False [] nt_init)"

theorem nt_no_reconnect_after_stop_witness:
  "\<exists>n' out. nt_run (\<lambda>_. []) (\<lambda>_. 0) (\<lambda>_. None) [NtSlot SlotDisconnected, NtTimeout]
       (fst (nt_stop (\<lambda>_. 0) nt_connecting)) = Some (n', out)
     \<and> nt_timer n' = None \<and> (\<forall>h p. NtSock (ActConnectToHost h p) \<notin> set out)"
proof -
  have "nt_run (\<lambda>_. []) (\<lambda>_. 0) (\<lambda>_. None) [NtSlot SlotDisconnected, NtTimeout]
       (fst (nt_stop (\<lambda>_. 0) nt_connecting)) \<noteq> None"
    by (simp add: onSocketDisconnected_def nt_onDisconnected_def split: prod.split)
  then obtain n' out where r: "nt_run (\<lambda>_. []) (\<lambda>_. 0) (\<lambda>_. None) [NtSlot SlotDisconnected, NtTimeout]
       (fst (nt_stop (\<lambda>_. 0) nt_connecting)) = Some (n', out)"
    by fast
  from nt_no_reconnect_after_stop [OF _ r] r show ?thesis by auto
qed

subsection \<open>Backoff\<close>

text \<open>The delays armed by \<open>k\<close> consecutive failed connection attempts.\<close>

fun failures :: "nat \<Rightarrow> notifier \<Rightarrow> notifier \<times> int option list" where
  "failures 0 n = (n, [])"
| "failures (Suc k) n =
     (let n1 = fst (onSocketError n) in
      case failures k n1 of (n2, ds) \<Rightarrow> (n2, nt_timer n1 # ds))"

lemma failures_delays:
  "nt_host n \<noteq> [] \<Longrightarrow> \<not> nt_stopped n \<Longrightarrow>
   snd (failures k n) = map (\<lambda>i. Some (reconnect_delay (nt_retry n + int i))) [0..<k]"
proof (induction k arbitrary: n)
  case (Suc k)
  let ?n1 = "fst (onSocketError n)"
  have n1: "nt_host ?n1 \<noteq> []" "\<not> nt_stopped ?n1" "nt_retry ?n1 = nt_retry n + 1"
      "nt_timer ?n1 = Some (reconnect_delay (nt_retry n))"
    using Suc.prems by (simp_all add: onSocketError_def scheduleReconnect_def)
  have "snd (failures (Suc k) n) = nt_timer ?n1 # snd (failures k ?n1)"
    by (simp add: Let_def split: prod.split)
  also have "\<dots> = map (\<lambda>i. Some (reconnect_delay (nt_retry n + int i))) (0 # map Suc [0..<k])"
    using n1 Suc.IH [OF n1(1,2)] by (simp add: ac_simps)
  also have "0 # map Suc [0..<k] = [0..<Suc k]" by (metis map_Suc_upt upt_conv_Cons zero_less_Suc)
  finally show ?case .
qed simp

text \<open>
  From a fresh \<^verbatim>\<open>start()\<close> or a successful connection, the delays of consecutive failures
  are 1, 2, 4, 8 and 16 seconds and then 10 seconds for ever: every delay is at most 16
  seconds, and the fifth one exceeds the 10 seconds the comment names as the cap.
\<close>

theorem nt_backoff_delays:
  assumes "nt_host n \<noteq> []" "\<not> nt_stopped n" "nt_retry n = 0"
  shows "snd (failures (5 + k) n) =
      map Some [1000, 2000, 4000, 8000, 16000] @ replicate k (Some 10000)"
proof -
  have "[0..<5] = [0, 1, 2, 3, 4 :: nat]" by (simp add: upt_rec)
  then have "[0..<5 + k] = [0, 1, 2, 3, 4] @ [5..<5 + k]"
    using upt_add_eq_append [of 0 5 k] by simp
  moreover have "map (\<lambda>i. Some (reconnect_delay (int i))) [5..<5 + k] = replicate k (Some 10000)"
    by (auto simp: reconnect_delay_def intro!: nth_equalityI)
  ultimately show ?thesis
    using failures_delays [OF assms(1,2), of "5 + k"] assms(3)
    by (simp add: reconnect_delay_def)
qed

theorem nt_backoff_delays_witness:
  "snd (failures (5 + 2) nt_connecting) =
     map Some [1000, 2000, 4000, 8000, 16000] @ replicate 2 (Some 10000)"
  by (rule nt_backoff_delays) (simp_all add: nt_connecting_def nt_start_def doConnect_def nt_init_def
      split: prod.split)

end
