(* ===== verification/Settings_Schema.thy ===== *)
theory Settings_Schema
  imports Json
begin

text \<open>
  The settings catalogue and the endpoint contract of \<^verbatim>\<open>src/cameractrl/zc_settings_schema.cpp\<close>
  and \<^verbatim>\<open>.h\<close>: the catalog and dependency tables, the request shapes of \<^verbatim>\<open>/ctrl/preset\<close>,
  \<^verbatim>\<open>/ctrl/ptrace\<close> and \<^verbatim>\<open>/ctrl/stream_setting\<close>, the trace transport states and the naming of
  the OBS source of a camera. A \<^verbatim>\<open>QUrlQuery\<close> is the list of its items in order.
\<close>

type_synonym url_query_items = "(string \<times> string) list"

datatype setting_type = Choice | Range | TextSetting

record catalog_def =
  cat_id :: string
  cat_parent :: string
  cat_keys :: "string list"

record dependency_rule =
  dep_srcKeys :: "string list"
  dep_targets :: "string list"

definition makeCatalogs :: "catalog_def list" where
  "makeCatalogs =
    [\<lparr>cat_id = ''exposure'', cat_parent = [], cat_keys =
       [''ev_choice'', ''flicker'', ''meter_mode'', ''iris'', ''iso'', ''min_iso'', ''max_iso'', ''iso_ctrl'',
        ''shutter_angle_ctrl'', ''sht_operation'', ''eND'', ''lock_ae_in_rec'', ''ae_speed'', ''bl_comp'']\<rparr>,
     \<lparr>cat_id = ''wb'', cat_parent = [], cat_keys =
       [''wb'', ''wb_priority'', ''lock_awb_in_rec'', ''mwb'', ''tint'', ''mwb_r'', ''mwb_g'', ''mwb_b'']\<rparr>,
     \<lparr>cat_id = ''lens'', cat_parent = [], cat_keys =
       [''focus'', ''af_mode'', ''caf'', ''caf_sens'', ''af_area'', ''live_caf'', ''mf_mag'', ''mf_recording'',
        ''af_speed'', ''af_adjust_with_ptz'', ''zoom_mode'', ''lens_focus_pos'', ''lens_zoom_pos'', ''fz_speed'']\<rparr>,
     \<lparr>cat_id = ''image'', cat_parent = [], cat_keys =
       [''lut'', ''sharpness'', ''noise_reduction'', ''luma_level'', ''brightness'', ''contrast'', ''saturation'', ''hue'']\<rparr>,
     \<lparr>cat_id = ''record'', cat_parent = [], cat_keys =
       [''resolution'', ''project_fps'', ''vfr_ctrl'', ''movvfr'', ''record_file_format'', ''rotation'',
        ''split_duration'', ''rec_fps'', ''preroll'', ''video_tl_interval'', ''record_meta'', ''camera_id'', ''reelname'']\<rparr>,
     \<lparr>cat_id = ''video'', cat_parent = [], cat_keys =
       [''video_encoder'', ''bitrate_level'', ''record_mode'', ''compose_mode'', ''rec_proxy_file'', ''crop_sensor'',
        ''low_jello'', ''photo_q'', ''eis_on_off'', ''vid_rot'']\<rparr>,
     \<lparr>cat_id = ''audio'', cat_parent = [], cat_keys =
       [''primary_audio'', ''audio_channel'', ''audio_phantom_power'', ''audio_level_display'', ''ain_gain_type'',
        ''audio_input_level'', ''audio_input_gain'', ''audio_noise_reduction'', ''audio_in_l_gain'',
        ''audio_in_r_gain'', ''audio_output_gain'']\<rparr>,
     \<lparr>cat_id = ''system'', cat_parent = [], cat_keys =
       [''hdmi_fmt'', ''hdmi_osd'', ''use_edid'', ''osd_layout'', ''led'', ''desqueeze'', ''usb_device_role'',
        ''tally_on'', ''ir'', ''ir_id'', ''color_bar_enable'', ''genlock'', ''sdi'', ''3g_sdi_mode'', ''visca_enable'',
        ''visca_id'', ''visca_baud_rate'', ''lcd_backlight'', ''gl_shf_coarse'', ''gl_shf_fine'']\<rparr>,
     \<lparr>cat_id = ''network'', cat_parent = ''system'', cat_keys = [''wifi'', ''wifi_channel'']\<rparr>,
     \<lparr>cat_id = ''security'', cat_parent = ''system'', cat_keys = [''http_auth'', ''https_on'', ''https_cert_source'']\<rparr>,
     \<lparr>cat_id = ''multicam'', cat_parent = ''system'', cat_keys =
       [''union_ae'', ''union_awb'', ''ezlink_mode'', ''ezlink_trigger'']\<rparr>,
     \<lparr>cat_id = ''ptz'', cat_parent = [], cat_keys =
       [''pt_speedmode'', ''ptz_flip'', ''ptz_limit'', ''ptz_preset_mode'', ''ptz_speed_mode'',
        ''freeze_during_preset'', ''pt_pwr_pos'', ''pt_priv_mode'', ''preset_adjust_speed_with_zoom'',
        ''pt_speed_with_zoom_pos'', ''ptz_common_speed_unit'', ''ptz_common_speed'', ''ptz_common_time'']\<rparr>]"

definition makeDeps :: "dependency_rule list" where
  "makeDeps =
    [\<lparr>dep_srcKeys = [''focus''], dep_targets = [''lens'']\<rparr>,
     \<lparr>dep_srcKeys = [''caf'', ''caf_sens'', ''live_caf'', ''af_mode'', ''af_area'', ''af_speed'',
        ''af_adjust_with_ptz'', ''mf_mag'', ''mf_recording''], dep_targets = [''lens'']\<rparr>,
     \<lparr>dep_srcKeys = [''iso'', ''iso_ctrl'', ''min_iso'', ''max_iso'', ''sht_operation'', ''shutter_angle_ctrl''],
      dep_targets = [''exposure'']\<rparr>,
     \<lparr>dep_srcKeys = [''lut''], dep_targets = [''exposure'']\<rparr>,
     \<lparr>dep_srcKeys = [''compose_mode'', ''movvfr'', ''video_encoder'', ''record_mode''],
      dep_targets = [''record'', ''video'']\<rparr>,
     \<lparr>dep_srcKeys = [''bitrate_level''], dep_targets = [''video'']\<rparr>,
     \<lparr>dep_srcKeys = [''resolution'', ''project_fps''], dep_targets = [''record'']\<rparr>,
     \<lparr>dep_srcKeys = [''vfr_ctrl''], dep_targets = [''record'']\<rparr>,
     \<lparr>dep_srcKeys = [''audio_channel''], dep_targets = [''audio'']\<rparr>,
     \<lparr>dep_srcKeys = [''wb'', ''mwb'', ''tint''], dep_targets = [''wb'']\<rparr>,
     \<lparr>dep_srcKeys = [''wifi''], dep_targets = [''network'']\<rparr>,
     \<lparr>dep_srcKeys = [''https_on''], dep_targets = [''security'']\<rparr>]"

definition catalogs :: "catalog_def list" where
  "catalogs = makeCatalogs"

definition dependencyRules :: "dependency_rule list" where
  "dependencyRules = makeDeps"

definition kPerKeys :: "string list" where
  "kPerKeys = [''mwb'', ''tint'', ''mwb_r'', ''mwb_g'', ''mwb_b'', ''brightness'', ''contrast'', ''saturation'', ''hue'',
     ''lens_focus_pos'', ''lens_zoom_pos'', ''fz_speed'', ''audio_in_l_gain'', ''audio_in_r_gain'',
     ''audio_output_gain'', ''lcd_backlight'', ''gl_shf_coarse'', ''gl_shf_fine'', ''video_tl_interval'',
     ''record_meta'', ''camera_id'', ''reelname'', ''ptz_common_speed'', ''ptz_common_time'',
     ''assitool_zera_th1'', ''assitool_zera_th2'']"

definition kBooleanKeys :: "string list" where
  "kBooleanKeys = [''lock_ae_in_rec'', ''lock_awb_in_rec'', ''mf_mag'', ''mf_recording'', ''af_adjust_with_ptz'',
     ''low_jello'', ''eis_on_off'', ''rec_proxy_file'', ''hdmi_osd'', ''use_edid'', ''tally_on'',
     ''color_bar_enable'', ''genlock'', ''visca_enable'', ''auto_off'', ''auto_standby'', ''wifi'', ''https_on'',
     ''union_ae'', ''union_awb'', ''ezlink_mode'', ''ezlink_trigger'', ''tc_count_up'', ''tc_drop_frame'']"

definition isPerKey :: "string \<Rightarrow> bool" where
  "isPerKey key \<longleftrightarrow> key \<in> set kPerKeys"

definition isBooleanSetting :: "string \<Rightarrow> bool" where
  "isBooleanSetting key \<longleftrightarrow> key \<in> set kBooleanKeys"

definition hudKeys :: "string list" where
  "hudKeys = [''sht_operation'', ''live_ae_shutter'', ''live_ae_shutter_angle'', ''live_ae_iso'', ''ev'', ''mwb'',
     ''live_ae_fno'', ''project_fps'', ''resolution'', ''temp'']"

definition catalogRequiresPtz :: "string \<Rightarrow> bool" where
  "catalogRequiresPtz catalogId \<longleftrightarrow> catalogId = ''ptz''"

definition cameraSupportsPtz :: "jobject \<Rightarrow> bool" where
  "cameraSupportsPtz info =
     (let feature = jtoObject (jfield info ''feature'') in
      if jtoBool False (jfield feature ''lens_ctrl_ptz'') then True
      else
        (let model0 = jtoString (jfield info ''model'');
             model = (if model0 = [] then jtoString (jfield info ''cameraName'') else model0) in
         contains_sub ''ptz'' (to_lower model)))"

definition presetQuery :: "string \<Rightarrow> int \<Rightarrow> url_query_items \<Rightarrow> url_query_items" where
  "presetQuery action index extra = [(''action'', action), (''index'', number index)] @ extra"

definition presetThumbnailPath :: "int \<Rightarrow> string" where
  "presetThumbnailPath index = ''/app_data/preset/thm_'' @ arg_pad0 3 index @ ''.jpg?act=thm''"

definition ptraceQuery :: "string \<Rightarrow> int \<Rightarrow> url_query_items \<Rightarrow> url_query_items" where
  "ptraceQuery action index extra =
     [(''action'', action)] @ (if index \<ge> 0 then [(''index'', number index)] else []) @ extra"

definition ptraceThumbnailPath :: "int \<Rightarrow> string" where
  "ptraceThumbnailPath index = ''/app_data/trace/thm_'' @ arg_pad0 3 index @ ''.jpg?act=thm''"

datatype trace_state =
  TraceNone | TraceRecording | TracePreparing | TraceReadyForPlay | TracePlaying | TraceDeleting | TraceReadyForRecord

definition traceStateFromInt :: "int \<Rightarrow> trace_state" where
  "traceStateFromInt v =
     (if v = 1 then TraceRecording else if v = 2 then TracePreparing else if v = 3 then TraceReadyForPlay
      else if v = 4 then TracePlaying else if v = 5 then TraceDeleting else if v = 6 then TraceReadyForRecord
      else TraceNone)"

record trace_actions =
  ta_record :: bool
  ta_prepare :: bool
  ta_remove :: bool
  ta_navigate :: bool

fun traceActions :: "trace_state \<Rightarrow> trace_actions" where
  "traceActions TraceRecording = \<lparr>ta_record = True, ta_prepare = False, ta_remove = False, ta_navigate = False\<rparr>"
| "traceActions TracePlaying = \<lparr>ta_record = False, ta_prepare = True, ta_remove = False, ta_navigate = False\<rparr>"
| "traceActions TracePreparing = \<lparr>ta_record = False, ta_prepare = False, ta_remove = False, ta_navigate = True\<rparr>"
| "traceActions TraceDeleting = \<lparr>ta_record = True, ta_prepare = True, ta_remove = False, ta_navigate = True\<rparr>"
| "traceActions _ = \<lparr>ta_record = True, ta_prepare = True, ta_remove = True, ta_navigate = True\<rparr>"

definition kAppStreamIndex :: string where "kAppStreamIndex = ''app_stream1''"
definition kLegacyStreamIndex :: string where "kLegacyStreamIndex = ''stream1''"
definition kBitrateWriteScale :: int where "kBitrateWriteScale = 1000"

definition streamSettingQuery :: "string \<Rightarrow> url_query_items \<Rightarrow> url_query_items" where
  "streamSettingQuery index params = [(''action'', ''query''), (''index'', index)] @ params"

definition isStreamDocument :: "jobject \<Rightarrow> bool" where
  "isStreamDocument doc \<longleftrightarrow> jtoString (jfield doc ''streamIndex'') \<noteq> []"

text \<open>\<^verbatim>\<open>QString::toInt\<close>: optional surrounding space and sign, decimal digits, range of \<^verbatim>\<open>int\<close>.\<close>

definition to_int :: "string \<Rightarrow> int option" where
  "to_int s0 =
     (let s = trimmed s0;
          neg = (s \<noteq> [] \<and> hd s = CHR ''-'');
          body = (if s \<noteq> [] \<and> (hd s = CHR ''-'' \<or> hd s = CHR ''+'') then tl s else s);
          v = (if neg then - int (decimal_value body) else int (decimal_value body)) in
      if body \<noteq> [] \<and> list_all is_digit body \<and> - (2 ^ 31) \<le> v \<and> v < 2 ^ 31 then Some v else None)"

definition resolutionParams :: "string \<Rightarrow> url_query_items" where
  "resolutionParams resolution =
     (case find_index (CHR ''x'') resolution of
        None \<Rightarrow> []
      | Some x \<Rightarrow>
          if x = 0 \<or> x + 1 \<ge> length resolution then []
          else
            (case (to_int (take x resolution), to_int (drop (x + 1) resolution)) of
               (Some w, Some h) \<Rightarrow>
                 if w \<le> 0 \<or> h \<le> 0 then [] else [(''width'', number w), (''height'', number h)]
             | _ \<Rightarrow> []))"

definition cameraSourceName :: "string \<Rightarrow> string" where
  "cameraSourceName host = ''ZCamera '' @ host"

definition hostFromSourceName :: "string \<Rightarrow> string" where
  "hostFromSourceName sourceName =
     (if \<not> starts_with ''ZCamera '' sourceName then [] else drop (length ''ZCamera '') sourceName)"

subsection \<open>Properties\<close>

lemma to_int_number:
  assumes "0 \<le> i" "i < 2 ^ 31"
  shows "to_int (number i) = Some i"
proof -
  have n: "number i = digits (nat i)" using assms by (simp add: number_def)
  have d: "\<And>c. c \<in> set (digits (nat i)) \<Longrightarrow> is_digit c" by (rule digits_all_digit)
  have "is_digit (hd (digits (nat i)))" "is_digit (last (digits (nat i)))" using d by auto
  then have "trimmed (digits (nat i)) = digits (nat i)"
      "hd (digits (nat i)) \<noteq> CHR ''-''" "hd (digits (nat i)) \<noteq> CHR ''+''"
    by (auto intro!: trimmed_id simp: is_digit_def is_space_def)
  then show ?thesis
    using assms d by (simp add: to_int_def n list_all_iff)
qed

text \<open>
  A \<^verbatim>\<open>resolutionList\<close> entry printed as \<^verbatim>\<open>WxH\<close> selects exactly that width and height.
\<close>

theorem resolution_params_roundtrip:
  assumes "0 < w" "w < 2 ^ 31" "0 < h" "h < 2 ^ 31"
  shows "resolutionParams (number w @ ''x'' @ number h) = [(''width'', number w), (''height'', number h)]"
proof -
  have "CHR ''x'' \<notin> set (number w)"
    using assms(1) digits_all_digit [of "CHR ''x''" "nat w"] by (auto simp: number_def is_digit_def)
  then have "find_index (CHR ''x'') (number w @ CHR ''x'' # number h) = Some (length (number w))" by simp
  moreover have "number w \<noteq> []" "number h \<noteq> []" using assms by (simp_all add: number_def)
  ultimately show ?thesis
    using to_int_number [of w] to_int_number [of h] assms by (simp add: resolutionParams_def)
qed

theorem resolution_params_roundtrip_witness:
  "resolutionParams (number 1280 @ ''x'' @ number 720) = [(''width'', number 1280), (''height'', number 720)]"
  by (rule resolution_params_roundtrip) simp_all

text \<open>
  The host survives the source name, and a name yields a non-empty host exactly when it
  is the source name of that host, so no other OBS source is mistaken for a camera.
\<close>

theorem source_name_roundtrip:
  "hostFromSourceName (cameraSourceName host) = host
   \<and> (hostFromSourceName name = host \<and> host \<noteq> [] \<longleftrightarrow> name = cameraSourceName host \<and> host \<noteq> [])"
  by (auto simp: hostFromSourceName_def cameraSourceName_def starts_with_iff)

lemma catalog_keys_distinct: "distinct (concat (map cat_keys catalogs))"
  unfolding catalogs_def makeCatalogs_def
  by (simp only: list.map catalog_def.simps concat.simps append_Cons append_Nil distinct.simps list.set
      insert_iff empty_iff list.inject char.inject list.distinct simp_thms not_False_eq_True)

lemma catalog_ids_closed:
  "distinct (map cat_id catalogs)"
  "list_all (\<lambda>c. cat_parent c = [] \<or> List.member (map cat_id catalogs) (cat_parent c)) catalogs"
  "list_all (\<lambda>r. list_all (\<lambda>t. List.member (map cat_id catalogs) t) (dep_targets r)) dependencyRules"
  by code_simp+

lemma rule_keys_listed: "list_all (\<lambda>r. list_all (\<lambda>k. List.member (concat (map cat_keys catalogs)) k) (dep_srcKeys r)) dependencyRules"
  by code_simp

text \<open>
  The tables are closed: catalog ids are distinct, no key is listed in two catalogs, a
  parent is a catalog, and every rule re-reads existing catalogs and is triggered by keys the
  catalogs list.
\<close>

theorem schema_tables_closed:
  "distinct (map cat_id catalogs) \<and> distinct (concat (map cat_keys catalogs))
   \<and> list_all (\<lambda>c. cat_parent c = [] \<or> List.member (map cat_id catalogs) (cat_parent c)) catalogs
   \<and> list_all (\<lambda>r. list_all (\<lambda>t. List.member (map cat_id catalogs) t) (dep_targets r)
        \<and> list_all (\<lambda>k. List.member (concat (map cat_keys catalogs)) k) (dep_srcKeys r)) dependencyRules"
  using catalog_keys_distinct catalog_ids_closed rule_keys_listed by (simp add: list_all_iff)

end
