(* ===== verification/Trace_System.thy ===== *)
theory Trace_System
  imports Prelude
begin

text \<open>
  Event-driven components seen as state machines: an input changes the state and yields the
  list of observable events. \<open>run_trace\<close> composes the steps of an input sequence.

  The locale \<open>trace_system\<close> is the contract "the invariant is kept by every step"; the locale
  \<open>fifo_service\<close> extends it with the contract of a request queue: what a step accepts is
  appended to the pending requests, what it completes is taken from their front. The client
  lemmas (completion in order, exactly once, nothing lost) are proved once from the laws.
\<close>

fun run_trace :: "('i \<Rightarrow> 's \<Rightarrow> 's \<times> 'e list) \<Rightarrow> 'i list \<Rightarrow> 's \<Rightarrow> 's \<times> 'e list" where
  "run_trace step [] s = (s, [])"
| "run_trace step (i # is) s =
     (case step i s of (s1, e1) \<Rightarrow> (case run_trace step is s1 of (s2, e2) \<Rightarrow> (s2, e1 @ e2)))"

lemma run_trace_Cons_eq:
  "run_trace step (i # is) s =
    (fst (run_trace step is (fst (step i s))),
     snd (step i s) @ snd (run_trace step is (fst (step i s))))"
  by (simp add: split_beta)

lemma run_trace_append:
  "run_trace step (is @ js) s =
    (fst (run_trace step js (fst (run_trace step is s))),
     snd (run_trace step is s) @ snd (run_trace step js (fst (run_trace step is s))))"
  by (induction "is" arbitrary: s) (simp_all add: split_beta)

text \<open>A step that ignores the inputs outside a set, for runs whose inputs are known to be in it.\<close>

definition guarded :: "('i \<Rightarrow> bool) \<Rightarrow> ('i \<Rightarrow> 's \<Rightarrow> 's \<times> 'e list) \<Rightarrow> 'i \<Rightarrow> 's \<Rightarrow> 's \<times> 'e list" where
  "guarded ok step i s = (if ok i then step i s else (s, []))"

lemma run_trace_guarded: "list_all ok is \<Longrightarrow> run_trace (guarded ok step) is s = run_trace step is s"
  by (induction "is" arbitrary: s) (simp_all add: guarded_def split: prod.splits)

locale trace_system =
  fixes step :: "'i \<Rightarrow> 's \<Rightarrow> 's \<times> 'e list" and inv :: "'s \<Rightarrow> bool"
  assumes step_inv: "inv s \<Longrightarrow> inv (fst (step i s))"
begin

lemma run_inv: "inv s \<Longrightarrow> inv (fst (run_trace step is s))"
proof (induction "is" arbitrary: s)
  case (Cons i "is")
  then show ?case
    by (simp add: run_trace_Cons_eq step_inv del: run_trace.simps)
qed simp

lemma run_events:
  assumes "inv s" "\<And>s i e. inv s \<Longrightarrow> e \<in> set (snd (step i s)) \<Longrightarrow> P e"
    and "e \<in> set (snd (run_trace step is s))"
  shows "P e"
  using assms(1,3)
proof (induction "is" arbitrary: s)
  case (Cons i "is")
  from Cons.prems(2) consider "e \<in> set (snd (step i s))"
      | "e \<in> set (snd (run_trace step is (fst (step i s))))"
    by (auto simp: run_trace_Cons_eq simp del: run_trace.simps)
  then show ?case
    using assms(2) Cons.IH [OF step_inv] Cons.prems(1) by cases auto
qed simp

text \<open>A potential that every step balances is balanced by every run.\<close>

lemma run_potential:
  fixes cost gain :: "'e list \<Rightarrow> nat" and pot :: "'s \<Rightarrow> nat"
  assumes "\<And>i s. inv s \<Longrightarrow> cost (snd (step i s)) + pot s \<le> gain (snd (step i s)) + pot (fst (step i s))"
    and "\<And>xs ys. cost (xs @ ys) = cost xs + cost ys" "\<And>xs ys. gain (xs @ ys) = gain xs + gain ys"
    and "cost [] = 0" "inv s"
  shows "cost (snd (run_trace step is s)) + pot s
    \<le> gain (snd (run_trace step is s)) + pot (fst (run_trace step is s))"
  using assms(5)
proof (induction "is" arbitrary: s)
  case (Cons i "is")
  from assms(1) [OF Cons.prems, of i] Cons.IH [OF step_inv [OF Cons.prems], of i] show ?case
    by (simp add: run_trace_Cons_eq assms(2,3) del: run_trace.simps)
qed (simp add: assms(4))

end

definition occurrences :: "('e \<Rightarrow> 'c option) \<Rightarrow> 'e list \<Rightarrow> 'c list" where
  "occurrences f es = List.map_filter f es"

lemma occurrences_simps [simp]:
  "occurrences f [] = []"
  "occurrences f (e # es) = (case f e of None \<Rightarrow> occurrences f es | Some c \<Rightarrow> c # occurrences f es)"
  "occurrences f (xs @ ys) = occurrences f xs @ occurrences f ys"
  by (simp_all add: occurrences_def List.map_filter_def split: option.split)

locale fifo_service = trace_system step inv
  for step :: "'i \<Rightarrow> 's \<Rightarrow> 's \<times> 'e list" and inv :: "'s \<Rightarrow> bool" +
  fixes pending :: "'s \<Rightarrow> 'c list" and accepted completed :: "'e \<Rightarrow> 'c option"
  assumes step_fifo: "inv s \<Longrightarrow>
    pending s @ occurrences accepted (snd (step i s)) = occurrences completed (snd (step i s)) @ pending (fst (step i s))"
begin

lemma run_fifo:
  "inv s \<Longrightarrow> pending s @ occurrences accepted (snd (run_trace step is s))
     = occurrences completed (snd (run_trace step is s)) @ pending (fst (run_trace step is s))"
proof (induction "is" arbitrary: s)
  case (Cons i "is")
  from step_fifo [OF Cons.prems, of i] Cons.IH [OF step_inv [OF Cons.prems], of i] show ?case
    by (simp add: run_trace_Cons_eq del: run_trace.simps) (metis append.assoc)
qed simp

text \<open>Everything completed was accepted, in the same order, and once nothing is pending
  everything accepted has been completed exactly once.\<close>

lemma run_completed_prefix:
  assumes "inv s" "pending s = []"
  shows "occurrences completed (snd (run_trace step is s))
    = take (length (occurrences completed (snd (run_trace step is s))))
        (occurrences accepted (snd (run_trace step is s)))"
  using run_fifo [OF assms(1), of "is"] assms(2) by simp

lemma run_drained:
  assumes "inv s" "pending s = []" "pending (fst (run_trace step is s)) = []"
  shows "occurrences completed (snd (run_trace step is s)) = occurrences accepted (snd (run_trace step is s))"
  using run_fifo [OF assms(1), of "is"] assms(2,3) by simp

end

end
