(* ===== verification/Http_Transport.thy ===== *)
theory Http_Transport
  imports Trace_System
begin

text \<open>
  The HTTP transport of \<^verbatim>\<open>src/cameractrl/zc_http_transport.cpp\<close>: origin negotiation, Digest
  authentication and the one-request-at-a-time queue.

  The record \<open>http\<close> has one field per member of \<^verbatim>\<open>ZcHttpTransport\<close>, plus \<open>ht_inflight\<close>, the
  request whose \<^verbatim>\<open>finished\<close> signal is connected. A queued closure is the data it captures
  (\<open>request\<close>); the type variable \<open>'cb\<close> names the callbacks. Library code is a parameter:
  \<open>md5hex\<close>, the random generator \<open>rand\<close>, the URL encoder \<open>enc\<close>
  (\<^verbatim>\<open>QUrl::FullyEncoded\<close>), the answer of the camera (\<open>net_reply\<close>), whether
  \<^verbatim>\<open>QNetworkAccessManager\<close> returns a reply object (\<open>ok\<close>), and \<open>run_cb\<close>, the calls a callback
  makes on the transport. Each operation returns the new state and its observable effects in
  program order (\<open>ht_event\<close>).
\<close>

datatype net_error = NoError | TimeoutError | OtherError

record net_reply =
  nr_status :: int
  nr_body :: string
  nr_error :: net_error
  nr_errorString :: string
  nr_url :: string
  nr_headers :: "(string \<times> string) list"

record http_response =
  statusCode :: int
  rsp_body :: string
  errorText :: string
  finalUrl :: string
  timedOut :: bool

record url =
  url_base :: string
  url_path :: string
  url_query :: string

record wire_request =
  wr_method :: string
  wr_url :: url
  wr_authorization :: string
  wr_cookie :: string
  wr_token :: string
  wr_body :: string
  wr_timeout :: int

record 'cb request =
  rq_path :: string
  rq_query :: "string option"
  rq_body :: string
  rq_cb :: 'cb
  rq_timeout :: int

record 'cb inflight =
  if_url :: url
  if_body :: string
  if_cb :: 'cb
  if_timeout :: int
  if_retries :: nat

record 'cb http =
  ht_host :: string
  ht_base_url :: string
  ht_auth_required :: bool
  ht_username :: string
  ht_password :: string
  ht_busy :: bool
  ht_queue :: "'cb request list"
  ht_inflight :: "'cb inflight option"
  ht_realm :: string
  ht_nonce :: string
  ht_opaque :: string
  ht_qop :: string
  ht_auth_qop :: string
  ht_auth_header :: string
  ht_cnonce :: string
  ht_nc :: int
  ht_md5_sess :: bool
  ht_cookie :: string
  ht_x_auth_token :: string
  ht_rng :: nat

datatype 'cb ht_event =
    HLog string
  | HEnqueue 'cb
  | HSend wire_request
  | HCallback 'cb http_response

definition ht_init :: "'cb http" where
  "ht_init = \<lparr>ht_host = [], ht_base_url = [], ht_auth_required = False, ht_username = [],
     ht_password = [], ht_busy = False, ht_queue = [], ht_inflight = None, ht_realm = [],
     ht_nonce = [], ht_opaque = [], ht_qop = [], ht_auth_qop = [], ht_auth_header = [],
     ht_cnonce = [], ht_nc = 0, ht_md5_sess = False, ht_cookie = [], ht_x_auth_token = [],
     ht_rng = 0\<rparr>"

subsection \<open>Digest helpers\<close>

definition alphabet :: string where
  "alphabet = ''abcdefghijklmnopqrstuvwxyz0123456789''"

definition makeCnonce :: "(nat \<Rightarrow> nat) \<Rightarrow> nat \<Rightarrow> string" where
  "makeCnonce rand k = map (\<lambda>i. alphabet ! (rand (k + i) mod 36)) [0..<11]"

definition quote_char :: char where
  "quote_char = CHR 0x22"

definition qval :: "string \<Rightarrow> string" where
  "qval s = quote_char # s @ [quote_char]"

definition ha1 ::
  "(string \<Rightarrow> string) \<Rightarrow> string \<Rightarrow> string \<Rightarrow> string \<Rightarrow> string \<Rightarrow> string \<Rightarrow> bool \<Rightarrow> string" where
  "ha1 md5hex user realm pass nonce cnonce md5sess =
     (let h = md5hex (to_utf8 user @ '':'' @ to_utf8 realm @ '':'' @ to_utf8 pass) in
      if md5sess then md5hex (h @ '':'' @ nonce @ '':'' @ cnonce) else h)"

definition ha2 :: "(string \<Rightarrow> string) \<Rightarrow> string \<Rightarrow> string \<Rightarrow> string" where
  "ha2 md5hex verb uri = md5hex (verb @ '':'' @ uri)"

text \<open>One parameter of a challenge, the scan starting at offset \<open>pos\<close>.\<close>

definition strip_comma :: "string \<Rightarrow> string" where
  "strip_comma k = (if starts_with '','' k then trimmed (drop 1 k) else k)"

function digest_scan :: "string \<Rightarrow> string \<Rightarrow> nat \<Rightarrow> string" where
  "digest_scan src key pos =
     (if \<not> pos < length src then []
      else
        (case index_of (CHR ''='') src pos of
           None \<Rightarrow> []
         | Some eq \<Rightarrow>
             (let k = strip_comma (trimmed (mid pos (eq - pos) src)); p = eq + 1 in
              if p < length src \<and> src ! p = quote_char then
                (case index_of quote_char src (p + 1) of
                   None \<Rightarrow> []
                 | Some en \<Rightarrow>
                     if to_lower k = key then mid (p + 1) (en - p - 1) src
                     else digest_scan src key (en + 1))
              else
                (let en = (case index_of (CHR '','') src p of None \<Rightarrow> length src | Some e \<Rightarrow> e) in
                 if to_lower k = key then trimmed (mid p (en - p) src)
                 else digest_scan src key en))))"
  by pat_completeness auto

termination
  by (relation "measure (\<lambda>(src, key, pos). length src - pos)")
    (auto dest!: index_of_bounds split: option.splits)

declare digest_scan.simps [simp del]

definition digestParam :: "string \<Rightarrow> string \<Rightarrow> string" where
  "digestParam src key = digest_scan src key 0"

fun raw_header :: "(string \<times> string) list \<Rightarrow> string \<Rightarrow> string" where
  "raw_header [] name = []"
| "raw_header ((n, v) # hs) name = (if equal_ci n name then v else raw_header hs name)"

subsection \<open>Challenge, authorization and session\<close>

definition parseChallenge :: "(nat \<Rightarrow> nat) \<Rightarrow> net_reply \<Rightarrow> 'cb http \<Rightarrow> bool \<times> 'cb http" where
  "parseChallenge rand reply h =
     (let x = raw_header (nr_headers reply) ''WWW-Authenticate-X'';
          raw = trimmed (if x = [] then raw_header (nr_headers reply) ''WWW-Authenticate'' else x) in
      if length raw < 6 \<or> to_lower (take 6 raw) \<noteq> ''digest'' then (False, h)
      else
        (let challenge = trimmed (drop 6 raw);
             realm = digestParam challenge ''realm'';
             nonce = digestParam challenge ''nonce'' in
         if nonce = [] then (False, h)
         else
           (let h1 = h\<lparr>ht_realm := realm, ht_opaque := digestParam challenge ''opaque'',
                  ht_qop := digestParam challenge ''qop'',
                  ht_md5_sess := equal_ci (digestParam challenge ''algorithm'') ''MD5-sess''\<rparr> in
            (True,
             if nonce \<noteq> ht_nonce h1 then
               h1\<lparr>ht_nonce := nonce, ht_nc := 0, ht_cnonce := makeCnonce rand (ht_rng h1),
                  ht_rng := ht_rng h1 + 11, ht_auth_header := []\<rparr>
             else h1))))"

definition select_qop :: "string \<Rightarrow> string" where
  "select_qop offered =
     (if offered = [] then []
      else if \<exists>q\<in>set (split_on (CHR '','') offered). equal_ci (trimmed q) ''auth'' then ''auth''
      else trimmed (hd (split_on (CHR '','') offered)))"

definition digest_response ::
  "(string \<Rightarrow> string) \<Rightarrow> string \<Rightarrow> string \<Rightarrow> string \<Rightarrow> string \<Rightarrow> string \<Rightarrow> string \<Rightarrow> string" where
  "digest_response md5hex a1 nonce nc cnonce qop a2 =
     (if qop \<noteq> [] then
        md5hex (a1 @ '':'' @ nonce @ '':'' @ nc @ '':'' @ cnonce @ '':'' @ qop @ '':'' @ a2)
      else md5hex (a1 @ '':'' @ nonce @ '':'' @ a2))"

definition nc_text :: "int \<Rightarrow> string" where
  "nc_text nc = right_justified 8 (CHR ''0'') (number nc)"

definition auth_params :: "(string \<Rightarrow> string) \<Rightarrow> string \<Rightarrow> string \<Rightarrow> 'cb http \<Rightarrow> string" where
  "auth_params md5hex verb uri h =
     (let qop = select_qop (ht_qop h);
          nc = nc_text (ht_nc h);
          a1 = ha1 md5hex (ht_username h) (ht_realm h) (ht_password h) (ht_nonce h) (ht_cnonce h)
                 (ht_md5_sess h);
          response = digest_response md5hex a1 (ht_nonce h) nc (ht_cnonce h) qop (ha2 md5hex verb uri) in
      ''username='' @ qval (to_utf8 (ht_username h)) @ '', realm='' @ qval (ht_realm h)
        @ '', nonce='' @ qval (ht_nonce h) @ '', uri='' @ qval uri @ '', response='' @ qval response
        @ (if qop \<noteq> [] then '', qop='' @ qop @ '', nc='' @ nc @ '', cnonce='' @ qval (ht_cnonce h) else [])
        @ (if ht_opaque h \<noteq> [] then '', opaque='' @ qval (ht_opaque h) else [])
        @ (if ht_md5_sess h then '', algorithm=MD5-sess'' else []))"

definition buildAuthorization ::
  "(string \<Rightarrow> string) \<Rightarrow> string \<Rightarrow> string \<Rightarrow> 'cb http \<Rightarrow> 'cb http" where
  "buildAuthorization md5hex verb uri h =
     (if ht_nonce h = [] \<or> ht_username h = [] then h
      else
        (let h1 = h\<lparr>ht_auth_qop := select_qop (ht_qop h), ht_nc := ht_nc h + 1\<rparr> in
         h1\<lparr>ht_auth_header := ''Digest '' @ auth_params md5hex verb uri h1\<rparr>))"

definition captureSession :: "net_reply \<Rightarrow> 'cb http \<Rightarrow> 'cb http" where
  "captureSession reply h =
     (let setCookie = raw_header (nr_headers reply) ''Set-Cookie'';
          first = trimmed (case find_index (CHR '';'') setCookie of
                             None \<Rightarrow> setCookie | Some semi \<Rightarrow> take semi setCookie);
          h1 = (if setCookie \<noteq> [] \<and> first \<noteq> [] then h\<lparr>ht_cookie := first\<rparr> else h);
          token = raw_header (nr_headers reply) ''x-auth-token'' in
      if token \<noteq> [] then h1\<lparr>ht_x_auth_token := token\<rparr> else h1)"

definition upgradeHeaderBlock :: "'cb http \<Rightarrow> string" where
  "upgradeHeaderBlock h =
     (let nl = [CHR 0x0D, CHR 0x0A] in
      (if ht_auth_header h \<noteq> [] then ''Authorization: '' @ ht_auth_header h @ nl else [])
        @ (if ht_cookie h \<noteq> [] then ''Cookie: '' @ ht_cookie h @ nl else [])
        @ (if ht_x_auth_token h \<noteq> [] then ''x-auth-token: '' @ ht_x_auth_token h @ nl else []))"

definition setCredentials :: "string \<Rightarrow> string \<Rightarrow> 'cb http \<Rightarrow> 'cb http" where
  "setCredentials user pass h =
     h\<lparr>ht_username := user, ht_password := pass, ht_auth_header := [], ht_nonce := [], ht_nc := 0\<rparr>"

subsection \<open>Origin negotiation\<close>

definition candidates :: "int \<Rightarrow> (string \<times> int) list" where
  "candidates port = [(''http'', if port > 0 then port else 80), (''https'', 443), (''https'', 80)]"

definition origin_url :: "string \<Rightarrow> string \<Rightarrow> int \<Rightarrow> string" where
  "origin_url scheme host port = scheme @ ''://'' @ host @ '':'' @ number port"

text \<open>\<^verbatim>\<open>QString("%1 %2  %3").arg(url, number(code), errorString)\<close>.\<close>

definition log_line :: "string \<Rightarrow> net_reply \<Rightarrow> string" where
  "log_line u r = u @ '' '' @ number (nr_status r) @ ''  '' @ nr_errorString r"

text \<open>The loop over the candidates; \<open>probe\<close> is the reply to the GET of \<^verbatim>\<open>/info\<close> there.\<close>

fun try_origins ::
  "(nat \<Rightarrow> nat) \<Rightarrow> (string \<Rightarrow> int \<Rightarrow> net_reply) \<Rightarrow> string \<Rightarrow> (string \<times> int) list \<Rightarrow> 'cb http
     \<Rightarrow> bool \<times> 'cb http \<times> 'cb ht_event list" where
  "try_origins rand probe host [] h = (False, h, [])"
| "try_origins rand probe host ((scheme, port) # cs) h =
     (let reply = probe scheme port;
          code = nr_status reply;
          h1 = (if code = 401 \<or> code = 403
                then snd (parseChallenge rand reply (h\<lparr>ht_auth_required := True\<rparr>)) else h);
          h2 = captureSession reply h1;
          lg = HLog (log_line (origin_url scheme host port @ ''/info'') reply) in
      if 200 \<le> code \<and> code < 500
      then (True, h2\<lparr>ht_base_url := origin_url scheme host port\<rparr>, [lg])
      else (case try_origins rand probe host cs h2 of (r, h3, es) \<Rightarrow> (r, h3, lg # es)))"

definition negotiateOrigin ::
  "(nat \<Rightarrow> nat) \<Rightarrow> (string \<Rightarrow> int \<Rightarrow> net_reply) \<Rightarrow> string \<Rightarrow> int \<Rightarrow> 'cb http
     \<Rightarrow> bool \<times> 'cb http \<times> 'cb ht_event list" where
  "negotiateOrigin rand probe host port h =
     try_origins rand probe host (candidates port) (h\<lparr>ht_host := host\<rparr>)"

subsection \<open>Sending\<close>

text \<open>\<^verbatim>\<open>QUrl(base_url_ + path)\<close>, then \<^verbatim>\<open>setQuery\<close> for a query request. The closures read
  \<^verbatim>\<open>base_url_\<close> when they run, not when they are queued.\<close>

definition request_url :: "'cb http \<Rightarrow> 'cb request \<Rightarrow> url" where
  "request_url h r =
     (let (p, q) = (case find_index (CHR ''?'') (rq_path r) of
                      None \<Rightarrow> (rq_path r, [])
                    | Some i \<Rightarrow> (take i (rq_path r), drop (i + 1) (rq_path r))) in
      \<lparr>url_base = ht_base_url h, url_path = p,
       url_query = (case rq_query r of None \<Rightarrow> q | Some q' \<Rightarrow> q')\<rparr>)"

definition uri_of :: "(string \<Rightarrow> string) \<Rightarrow> url \<Rightarrow> string" where
  "uri_of enc u =
     to_utf8 (enc (url_path u))
       @ (if enc (url_query u) \<noteq> [] then ''?'' @ to_utf8 (enc (url_query u)) else [])"

definition send ::
  "(string \<Rightarrow> string) \<Rightarrow> (string \<Rightarrow> string) \<Rightarrow> url \<Rightarrow> string \<Rightarrow> int \<Rightarrow> 'cb http \<Rightarrow> 'cb http \<times> wire_request" where
  "send md5hex enc u body timeout h =
     (let verb = (if body \<noteq> [] then ''POST'' else ''GET'');
          h1 = (if ht_nonce h \<noteq> [] \<and> ht_username h \<noteq> []
                then buildAuthorization md5hex verb (uri_of enc u) h else h) in
      (h1, \<lparr>wr_method = verb, wr_url = u, wr_authorization = ht_auth_header h1,
            wr_cookie = ht_cookie h1, wr_token = ht_x_auth_token h1, wr_body = body,
            wr_timeout = timeout\<rparr>))"

lemma send_queue [simp]: "ht_queue (fst (send md5hex enc u body t h)) = ht_queue h"
  by (simp add: send_def buildAuthorization_def Let_def)

text \<open>\<^verbatim>\<open>doRequest\<close>. Where no reply object is returned, the transport is freed and the next
  queued request runs (the call of \<^verbatim>\<open>pump\<close>, which starts it with one retry).\<close>

function doRequest ::
  "(string \<Rightarrow> string) \<Rightarrow> (string \<Rightarrow> string) \<Rightarrow> (wire_request \<Rightarrow> bool) \<Rightarrow> url \<Rightarrow> string \<Rightarrow> 'cb \<Rightarrow> int \<Rightarrow> nat
     \<Rightarrow> 'cb http \<Rightarrow> 'cb http \<times> 'cb ht_event list" where
  "doRequest md5hex enc ok u body cb timeout retries h =
     (let (h1, w) = send md5hex enc u body timeout h in
      if ok w then
        (h1\<lparr>ht_inflight := Some \<lparr>if_url = u, if_body = body, if_cb = cb, if_timeout = timeout,
            if_retries = retries\<rparr>\<rparr>, [HSend w])
      else
        (let h2 = h1\<lparr>ht_busy := False, ht_inflight := None\<rparr> in
         case ht_queue h2 of
           [] \<Rightarrow> (h2, [])
         | r # rs \<Rightarrow>
             doRequest md5hex enc ok (request_url h2 r) (rq_body r) (rq_cb r) (rq_timeout r) 1
               (h2\<lparr>ht_busy := True, ht_queue := rs\<rparr>)))"
  by pat_completeness auto

termination
  by (relation "measure (\<lambda>(md5hex, enc, ok, u, body, cb, t, r, h). length (ht_queue h))")
    (auto simp: send_def buildAuthorization_def Let_def split: if_splits)

declare doRequest.simps [simp del]

definition pump ::
  "(string \<Rightarrow> string) \<Rightarrow> (string \<Rightarrow> string) \<Rightarrow> (wire_request \<Rightarrow> bool) \<Rightarrow> 'cb http \<Rightarrow> 'cb http \<times> 'cb ht_event list" where
  "pump md5hex enc ok h =
     (if ht_busy h then (h, [])
      else
        (case ht_queue h of
           [] \<Rightarrow> (h, [])
         | r # rs \<Rightarrow>
             doRequest md5hex enc ok (request_url h r) (rq_body r) (rq_cb r) (rq_timeout r) 1
               (h\<lparr>ht_busy := True, ht_queue := rs\<rparr>)))"

definition enqueue ::
  "(string \<Rightarrow> string) \<Rightarrow> (string \<Rightarrow> string) \<Rightarrow> (wire_request \<Rightarrow> bool) \<Rightarrow> 'cb request \<Rightarrow> 'cb http
     \<Rightarrow> 'cb http \<times> 'cb ht_event list" where
  "enqueue md5hex enc ok r h =
     (case pump md5hex enc ok (h\<lparr>ht_queue := ht_queue h @ [r]\<rparr>) of
        (h1, es) \<Rightarrow> (h1, HEnqueue (rq_cb r) # es))"

text \<open>The calls a client of the transport makes: \<^verbatim>\<open>get\<close>, \<^verbatim>\<open>getQuery\<close>, \<^verbatim>\<open>post\<close> and
  \<^verbatim>\<open>setCredentials\<close>.\<close>

datatype 'cb api_call =
    Get string 'cb int
  | GetQuery string string 'cb int
  | Post string string 'cb int
  | SetCredentials string string

fun ht_call ::
  "(string \<Rightarrow> string) \<Rightarrow> (string \<Rightarrow> string) \<Rightarrow> (wire_request \<Rightarrow> bool) \<Rightarrow> 'cb api_call \<Rightarrow> 'cb http
     \<Rightarrow> 'cb http \<times> 'cb ht_event list" where
  "ht_call md5hex enc ok (Get path cb t) h =
     enqueue md5hex enc ok \<lparr>rq_path = path, rq_query = None, rq_body = [], rq_cb = cb, rq_timeout = t\<rparr> h"
| "ht_call md5hex enc ok (GetQuery path query cb t) h =
     enqueue md5hex enc ok \<lparr>rq_path = path, rq_query = Some query, rq_body = [], rq_cb = cb, rq_timeout = t\<rparr> h"
| "ht_call md5hex enc ok (Post path body cb t) h =
     enqueue md5hex enc ok \<lparr>rq_path = path, rq_query = None, rq_body = body, rq_cb = cb, rq_timeout = t\<rparr> h"
| "ht_call md5hex enc ok (SetCredentials user pass) h = (setCredentials user pass h, [])"

fun ht_calls ::
  "(string \<Rightarrow> string) \<Rightarrow> (string \<Rightarrow> string) \<Rightarrow> (wire_request \<Rightarrow> bool) \<Rightarrow> 'cb api_call list \<Rightarrow> 'cb http
     \<Rightarrow> 'cb http \<times> 'cb ht_event list" where
  "ht_calls md5hex enc ok [] h = (h, [])"
| "ht_calls md5hex enc ok (c # cs) h =
     (case ht_call md5hex enc ok c h of (h1, e1) \<Rightarrow>
        (case ht_calls md5hex enc ok cs h1 of (h2, e2) \<Rightarrow> (h2, e1 @ e2)))"

definition response_of :: "net_reply \<Rightarrow> http_response" where
  "response_of reply =
     \<lparr>statusCode = nr_status reply, rsp_body = nr_body reply,
      errorText = (if nr_error reply \<noteq> NoError \<and> nr_status reply = 0 then nr_errorString reply else []),
      finalUrl = nr_url reply, timedOut = (nr_error reply = TimeoutError)\<rparr>"

definition onFinished ::
  "(string \<Rightarrow> string) \<Rightarrow> (string \<Rightarrow> string) \<Rightarrow> (wire_request \<Rightarrow> bool) \<Rightarrow> (nat \<Rightarrow> nat)
     \<Rightarrow> ('cb \<Rightarrow> http_response \<Rightarrow> 'cb api_call list) \<Rightarrow> net_reply \<Rightarrow> 'cb http \<Rightarrow> 'cb http \<times> 'cb ht_event list" where
  "onFinished md5hex enc ok rand run_cb reply h =
     (case ht_inflight h of
        None \<Rightarrow> (h, [])
      | Some f \<Rightarrow>
          (let lg = HLog (log_line (url_base (if_url f) @ uri_of enc (if_url f)) reply);
               h1 = captureSession reply h;
               (usable, hc) = parseChallenge rand reply h1 in
           if nr_status reply = 401 \<and> if_retries f > 0 \<and> ht_username h1 \<noteq> [] \<and> usable then
             (case doRequest md5hex enc ok (if_url f) (if_body f) (if_cb f) (if_timeout f)
                     (if_retries f - 1) hc of
                (h2, es) \<Rightarrow> (h2, lg # es))
           else
             (case ht_calls md5hex enc ok (run_cb (if_cb f) (response_of reply))
                     (h1\<lparr>ht_busy := False, ht_inflight := None\<rparr>) of
                (h2, es) \<Rightarrow>
                  (case pump md5hex enc ok h2 of
                     (h3, es') \<Rightarrow> (h3, lg # HCallback (if_cb f) (response_of reply) # es @ es')))))"

text \<open>The inputs of a transport that has its origin: calls of its owner and finished replies.\<close>

datatype 'cb ht_input = InCall "'cb api_call" | InReply net_reply

fun ht_step ::
  "(string \<Rightarrow> string) \<Rightarrow> (string \<Rightarrow> string) \<Rightarrow> (wire_request \<Rightarrow> bool) \<Rightarrow> (nat \<Rightarrow> nat)
     \<Rightarrow> ('cb \<Rightarrow> http_response \<Rightarrow> 'cb api_call list) \<Rightarrow> 'cb ht_input \<Rightarrow> 'cb http \<Rightarrow> 'cb http \<times> 'cb ht_event list" where
  "ht_step md5hex enc ok rand run_cb (InCall c) h = ht_call md5hex enc ok c h"
| "ht_step md5hex enc ok rand run_cb (InReply r) h = onFinished md5hex enc ok rand run_cb r h"

subsection \<open>The queue contract\<close>

text \<open>\<^verbatim>\<open>QNetworkAccessManager::get\<close> and \<^verbatim>\<open>post\<close> always return a reply object; the queue
  contract is stated for that case.\<close>

abbreviation always :: "wire_request \<Rightarrow> bool" where
  "always \<equiv> \<lambda>_. True"

definition ht_coupled :: "'cb http \<Rightarrow> bool" where
  "ht_coupled h \<longleftrightarrow> (ht_busy h \<longleftrightarrow> ht_inflight h \<noteq> None)
     \<and> (\<forall>f. ht_inflight h = Some f \<longrightarrow> if_retries f \<le> 1)"

definition ht_wf :: "'cb http \<Rightarrow> bool" where
  "ht_wf h \<longleftrightarrow> ht_coupled h \<and> (\<not> ht_busy h \<longrightarrow> ht_queue h = [])"

definition ht_pending :: "'cb http \<Rightarrow> 'cb list" where
  "ht_pending h = (case ht_inflight h of None \<Rightarrow> [] | Some f \<Rightarrow> [if_cb f]) @ map rq_cb (ht_queue h)"

fun ht_accepted :: "'cb ht_event \<Rightarrow> 'cb option" where
  "ht_accepted (HEnqueue cb) = Some cb"
| "ht_accepted _ = None"

fun ht_completed :: "'cb ht_event \<Rightarrow> 'cb option" where
  "ht_completed (HCallback cb r) = Some cb"
| "ht_completed _ = None"

fun ht_sent :: "'cb ht_event \<Rightarrow> wire_request option" where
  "ht_sent (HSend w) = Some w"
| "ht_sent _ = None"

definition ht_used :: "'cb http \<Rightarrow> nat" where
  "ht_used h = (case ht_inflight h of None \<Rightarrow> 0 | Some f \<Rightarrow> 2 - if_retries f)"

lemma send_fields [simp]:
  "ht_busy (fst (send md5hex enc u body t h)) = ht_busy h"
  "ht_inflight (fst (send md5hex enc u body t h)) = ht_inflight h"
  "ht_nonce (fst (send md5hex enc u body t h)) = ht_nonce h"
  "ht_username (fst (send md5hex enc u body t h)) = ht_username h"
  by (simp_all add: send_def buildAuthorization_def Let_def)

lemma doRequest_always:
  "doRequest md5hex enc always u body cb t r h =
     ((fst (send md5hex enc u body t h))\<lparr>ht_inflight := Some \<lparr>if_url = u, if_body = body, if_cb = cb,
         if_timeout = t, if_retries = r\<rparr>\<rparr>,
      [HSend (snd (send md5hex enc u body t h))])"
  by (subst doRequest.simps) (simp add: split_beta Let_def)

lemma pump_always:
  assumes "ht_coupled h" "pump md5hex enc always h = (h', es)"
  shows "ht_wf h'" "ht_pending h' = ht_pending h"
    "occurrences ht_accepted es = []" "occurrences ht_completed es = []"
    "length (occurrences ht_sent es) + ht_used h = ht_used h'"
    "ht_busy h \<Longrightarrow> h' = h \<and> es = []" "ht_used h \<le> 1 \<Longrightarrow> ht_used h' \<le> 1"
  using assms
  by (auto simp: pump_def doRequest_always ht_wf_def ht_coupled_def ht_pending_def ht_used_def
      split: list.splits option.splits)

lemma enqueue_always:
  assumes "ht_coupled h" "enqueue md5hex enc always r h = (h', es)"
  shows "ht_wf h'" "ht_pending h' = ht_pending h @ [rq_cb r]"
    "occurrences ht_accepted es = [rq_cb r]" "occurrences ht_completed es = []"
    "length (occurrences ht_sent es) + ht_used h = ht_used h'"
    "ht_busy h \<Longrightarrow> occurrences ht_sent es = [] \<and> ht_busy h'" "ht_used h \<le> 1 \<Longrightarrow> ht_used h' \<le> 1"
proof -
  let ?q = "h\<lparr>ht_queue := ht_queue h @ [r]\<rparr>"
  have q: "ht_coupled ?q" "ht_pending ?q = ht_pending h @ [rq_cb r]" "ht_used ?q = ht_used h"
    "ht_busy ?q = ht_busy h"
    using assms(1) by (simp_all add: ht_coupled_def ht_pending_def ht_used_def)
  obtain e where e: "pump md5hex enc always ?q = (h', e)" "es = HEnqueue (rq_cb r) # e"
    using assms(2) by (auto simp: enqueue_def split: prod.splits)
  note P = pump_always [OF q(1) e(1)]
  show "ht_wf h'" "ht_pending h' = ht_pending h @ [rq_cb r]"
    "occurrences ht_accepted es = [rq_cb r]" "occurrences ht_completed es = []"
    "length (occurrences ht_sent es) + ht_used h = ht_used h'"
    using P(1-5) e(2) q by simp_all
  show "ht_busy h \<Longrightarrow> occurrences ht_sent es = [] \<and> ht_busy h'"
    using P(6) e(2) q(4) by simp
  show "ht_used h \<le> 1 \<Longrightarrow> ht_used h' \<le> 1"
    using P(7) q(3) by simp
qed

lemma setCredentials_fields [simp]:
  "ht_busy (setCredentials u p h) = ht_busy h" "ht_inflight (setCredentials u p h) = ht_inflight h"
  "ht_queue (setCredentials u p h) = ht_queue h"
  by (simp_all add: setCredentials_def)

lemma setCredentials_queue [simp]:
  "ht_coupled (setCredentials u p h) = ht_coupled h" "ht_wf (setCredentials u p h) = ht_wf h"
  "ht_pending (setCredentials u p h) = ht_pending h" "ht_used (setCredentials u p h) = ht_used h"
  by (simp_all add: ht_coupled_def ht_wf_def ht_pending_def ht_used_def)

lemma ht_call_always:
  assumes "ht_coupled h" "ht_call md5hex enc always c h = (h', es)"
  shows "ht_coupled h' \<and> ht_pending h @ occurrences ht_accepted es = ht_pending h'
    \<and> occurrences ht_completed es = [] \<and> length (occurrences ht_sent es) + ht_used h = ht_used h'
    \<and> (ht_wf h \<longrightarrow> ht_wf h') \<and> (ht_busy h \<longrightarrow> occurrences ht_sent es = [] \<and> ht_busy h')
    \<and> (ht_used h \<le> 1 \<longrightarrow> ht_used h' \<le> 1)"
  using assms enqueue_always [OF assms(1), of md5hex enc _ h' es]
  by (cases c) (auto simp: ht_wf_def)

lemma ht_calls_always:
  assumes "ht_coupled h" "ht_calls md5hex enc always cs h = (h', es)"
  shows "ht_coupled h' \<and> ht_pending h @ occurrences ht_accepted es = ht_pending h'
    \<and> occurrences ht_completed es = [] \<and> length (occurrences ht_sent es) + ht_used h = ht_used h'
    \<and> (ht_used h \<le> 1 \<longrightarrow> ht_used h' \<le> 1)"
  using assms
proof (induction cs arbitrary: h es)
  case (Cons c cs)
  obtain h1 e1 e2 where r: "ht_call md5hex enc always c h = (h1, e1)"
      "ht_calls md5hex enc always cs h1 = (h', e2)" "es = e1 @ e2"
    using Cons.prems(2) by (auto split: prod.splits)
  from ht_call_always [OF Cons.prems(1) r(1)] Cons.IH [OF _ r(2)] r(3) show ?case
    by (auto simp flip: append_assoc)
qed simp

lemma ht_calls_wf: "ht_wf h \<Longrightarrow> ht_wf (fst (ht_calls md5hex enc always cs h))"
proof (induction cs arbitrary: h)
  case (Cons c cs)
  have "ht_coupled h" using Cons.prems by (simp add: ht_wf_def)
  from ht_call_always [OF this prod.collapse [symmetric]] Cons show ?case by (simp add: split_beta)
qed simp

lemma captureSession_fields [simp]:
  "ht_busy (captureSession r h) = ht_busy h" "ht_inflight (captureSession r h) = ht_inflight h"
  "ht_queue (captureSession r h) = ht_queue h" "ht_nonce (captureSession r h) = ht_nonce h"
  "ht_nc (captureSession r h) = ht_nc h" "ht_username (captureSession r h) = ht_username h"
  "ht_auth_header (captureSession r h) = ht_auth_header h" "ht_cnonce (captureSession r h) = ht_cnonce h"
  by (simp_all add: captureSession_def Let_def)

lemma parseChallenge_fields [simp]:
  "ht_busy (snd (parseChallenge rand r h)) = ht_busy h"
  "ht_inflight (snd (parseChallenge rand r h)) = ht_inflight h"
  "ht_queue (snd (parseChallenge rand r h)) = ht_queue h"
  "ht_username (snd (parseChallenge rand r h)) = ht_username h"
  by (simp_all add: parseChallenge_def Let_def)

text \<open>What happens when a reply finishes: either the same request goes out once more, or
  the callback is run, then the next request starts.\<close>

lemma onFinished_cases:
  assumes "ht_wf h" "ht_inflight h = Some f" "onFinished md5hex enc always rand run_cb reply h = (h', es)"
  obtains
    (retry) hc w where "nr_status reply = 401" "if_retries f = 1" "ht_username h \<noteq> []"
      "parseChallenge rand reply (captureSession reply h) = (True, hc)"
      "send md5hex enc (if_url f) (if_body f) (if_timeout f) hc = (h'\<lparr>ht_inflight := ht_inflight h\<rparr>, w)"
      "ht_inflight h' = Some (f\<lparr>if_retries := 0\<rparr>)" "ht_queue h' = ht_queue h" "ht_busy h'"
      "\<exists>lg. es = [HLog lg, HSend w]"
  | (finish) h2 e1 e2 where
      "ht_calls md5hex enc always (run_cb (if_cb f) (response_of reply))
        ((captureSession reply h)\<lparr>ht_busy := False, ht_inflight := None\<rparr>) = (h2, e1)"
      "pump md5hex enc always h2 = (h', e2)"
      "\<exists>lg. es = HLog lg # HCallback (if_cb f) (response_of reply) # e1 @ e2"
proof -
  let ?h1 = "captureSession reply h"
  obtain u hc where pc: "parseChallenge rand reply ?h1 = (u, hc)" by (cases "parseChallenge rand reply ?h1")
  have hcf: "ht_busy hc = ht_busy h" "ht_inflight hc = ht_inflight h" "ht_queue hc = ht_queue h"
    using parseChallenge_fields [of rand reply ?h1] pc by simp_all
  have busy: "ht_busy h" and r1: "if_retries f \<le> 1" using assms(1,2) by (auto simp: ht_wf_def ht_coupled_def)
  show thesis
  proof (cases "nr_status reply = 401 \<and> if_retries f > 0 \<and> ht_username ?h1 \<noteq> [] \<and> u")
    case True
    obtain hs w where s: "send md5hex enc (if_url f) (if_body f) (if_timeout f) hc = (hs, w)"
      by (cases "send md5hex enc (if_url f) (if_body f) (if_timeout f) hc")
    have hsf: "ht_busy hs = ht_busy h" "ht_inflight hs = ht_inflight h" "ht_queue hs = ht_queue h"
      using send_fields [of md5hex enc "if_url f" "if_body f" "if_timeout f" hc] s hcf
        send_queue [of md5hex enc "if_url f" "if_body f" "if_timeout f" hc] by simp_all
    have f1: "if_retries f = 1" using True r1 by simp
    have "h' = hs\<lparr>ht_inflight := Some (f\<lparr>if_retries := 0\<rparr>)\<rparr>" and "\<exists>lg. es = [HLog lg, HSend w]"
      using assms(2,3) True f1 unfolding onFinished_def
      by (auto simp: pc doRequest_always s Let_def)
    with True f1 pc s hsf busy show thesis by (intro retry [of hc w]) auto
  next
    case False
    obtain h2 e1 where c: "ht_calls md5hex enc always (run_cb (if_cb f) (response_of reply))
        (?h1\<lparr>ht_busy := False, ht_inflight := None\<rparr>) = (h2, e1)" by fastforce
    obtain h3 e2 where p: "pump md5hex enc always h2 = (h3, e2)" by fastforce
    have "h' = h3 \<and> (\<exists>lg. es = HLog lg # HCallback (if_cb f) (response_of reply) # e1 @ e2)"
      using False assms(2,3) unfolding onFinished_def by (auto simp: pc c p Let_def)
    with c p show thesis by (intro finish [of h2 e1 e2]) auto
  qed
qed

lemma onFinished_always:
  assumes "ht_wf h" "onFinished md5hex enc always rand run_cb reply h = (h', es)"
  shows "ht_wf h' \<and> ht_pending h @ occurrences ht_accepted es = occurrences ht_completed es @ ht_pending h'
    \<and> length (occurrences ht_sent es) + ht_used h \<le> 2 * length (occurrences ht_completed es) + ht_used h'
    \<and> length (occurrences ht_sent es) \<le> 1"
proof (cases "ht_inflight h")
  case None
  with assms show ?thesis by (simp add: onFinished_def)
next
  case (Some f)
  show ?thesis
    using assms(1) Some assms(2)
  proof (cases rule: onFinished_cases)
    case (retry hc w)
    with assms(1) Some show ?thesis
      by (auto simp: ht_wf_def ht_coupled_def ht_pending_def ht_used_def)
  next
    case (finish h2 e1 e2)
    let ?f = "(captureSession reply h)\<lparr>ht_busy := False, ht_inflight := None\<rparr>"
    have c: "ht_coupled ?f" by (simp add: ht_coupled_def)
    have pend: "ht_pending h = if_cb f # ht_pending ?f" and used: "ht_used ?f = 0" "ht_used h \<le> 2"
      using Some by (simp_all add: ht_pending_def ht_used_def)
    note C = ht_calls_always [OF c finish(1)]
    then have "ht_coupled h2" by simp
    note P = pump_always [OF this finish(2)]
    show ?thesis using C P(1-5,7) pend used finish(3) by auto
  qed
qed

lemma ht_step_always:
  assumes "ht_wf h" "ht_step md5hex enc always rand run_cb i h = (h', es)"
  shows "ht_wf h'" "ht_pending h @ occurrences ht_accepted es = occurrences ht_completed es @ ht_pending h'"
    "length (occurrences ht_sent es) + ht_used h \<le> 2 * length (occurrences ht_completed es) + ht_used h'"
proof -
  have "ht_coupled h" using assms(1) by (simp add: ht_wf_def)
  from ht_call_always [OF this, of md5hex enc _ h' es] onFinished_always [OF assms(1), of md5hex enc rand run_cb _ h' es] assms
  have "ht_wf h' \<and> ht_pending h @ occurrences ht_accepted es = occurrences ht_completed es @ ht_pending h'
    \<and> length (occurrences ht_sent es) + ht_used h \<le> 2 * length (occurrences ht_completed es) + ht_used h'"
    by (cases i) auto
  then show "ht_wf h'" "ht_pending h @ occurrences ht_accepted es = occurrences ht_completed es @ ht_pending h'"
    "length (occurrences ht_sent es) + ht_used h \<le> 2 * length (occurrences ht_completed es) + ht_used h'"
    by auto
qed

interpretation ht: fifo_service "ht_step md5hex enc always rand run_cb" ht_wf ht_pending ht_accepted ht_completed
  for md5hex enc rand and run_cb :: "'cb \<Rightarrow> http_response \<Rightarrow> 'cb api_call list"
proof
  fix s :: "'cb http" and i
  assume w: "ht_wf s"
  note S = ht_step_always [OF w prod.collapse [symmetric]]
  show "ht_wf (fst (ht_step md5hex enc always rand run_cb i s))" by (rule S(1))
  show "ht_pending s @ occurrences ht_accepted (snd (ht_step md5hex enc always rand run_cb i s)) =
      occurrences ht_completed (snd (ht_step md5hex enc always rand run_cb i s))
        @ ht_pending (fst (ht_step md5hex enc always rand run_cb i s))"
    by (rule S(2))
qed

lemma ht_init_wf [simp]: "ht_wf ht_init" "ht_pending ht_init = []" "ht_used ht_init = 0"
  by (simp_all add: ht_wf_def ht_coupled_def ht_pending_def ht_used_def ht_init_def)

subsection \<open>Properties of the queue\<close>

text \<open>
  C3. Whatever the owner calls, whatever the callbacks request and however the camera
  answers, callbacks run in the order the requests were made and at most once each: at any
  moment the callbacks that ran, followed by the request in flight and the queued ones, are
  exactly the requests made so far in order. When nothing is pending every one has run.
\<close>

theorem http_callbacks_fifo_exactly_once:
  "let r = run_trace (ht_step md5hex enc always rand run_cb) inputs ht_init in
     occurrences ht_accepted (snd r) = occurrences ht_completed (snd r) @ ht_pending (fst r)"
  unfolding Let_def using ht.run_fifo [OF ht_init_wf(1), of md5hex enc rand run_cb inputs] by simp

text \<open>
  Each request goes out at most twice (the original and one retry after a 401), so the
  number of HTTP requests sent never exceeds twice the number of requests completed, plus two
  for one still in flight.
\<close>

theorem http_at_most_one_retry:
  fixes inputs :: "'cb ht_input list"
  shows "let r = run_trace (ht_step md5hex enc always rand run_cb) inputs ht_init in
     length (occurrences ht_sent (snd r))
       \<le> 2 * length (occurrences ht_completed (snd r)) + (if ht_inflight (fst r) = None then 0 else 2)"
proof -
  let ?r = "run_trace (ht_step md5hex enc always rand run_cb) inputs ht_init"
  have "length (occurrences ht_sent (snd ?r)) + ht_used (ht_init :: 'cb http)
      \<le> 2 * length (occurrences ht_completed (snd ?r)) + ht_used (fst ?r)"
    by (rule ht.run_potential) (simp_all add: ht_step_always(3) [OF _ prod.collapse [symmetric]])
  moreover have "ht_used (fst ?r) \<le> (if ht_inflight (fst ?r) = None then 0 else 2)"
    by (simp add: ht_used_def split: option.split)
  ultimately show ?thesis by (simp add: Let_def)
qed

text \<open>
  The camera sees one request at a time: while a request is in flight a call of the
  owner sends nothing, and a finished reply sends at most one request.
\<close>

theorem http_one_in_flight:
  assumes "ht_wf h"
  shows "(ht_busy h \<longrightarrow> occurrences ht_sent (snd (ht_step md5hex enc always rand run_cb (InCall c) h)) = [])
    \<and> length (occurrences ht_sent (snd (ht_step md5hex enc always rand run_cb (InReply reply) h))) \<le> 1"
proof -
  have "ht_coupled h" using assms by (simp add: ht_wf_def)
  from ht_call_always [OF this prod.collapse [symmetric]] onFinished_always [OF assms prod.collapse [symmetric]]
  show ?thesis by auto
qed

definition http_busy_example :: "nat http" where
  "http_busy_example = fst (ht_step (\<lambda>s. s) (\<lambda>s. s) always (\<lambda>_. 0) (\<lambda>_ _. []) (InCall (Get ''/info'' 1 20000)) ht_init)"

theorem http_one_in_flight_witness:
  "ht_wf http_busy_example \<and> ht_busy http_busy_example
   \<and> occurrences ht_sent (snd (ht_step (\<lambda>s. s) (\<lambda>s. s) always (\<lambda>_. 0) (\<lambda>_ _. [])
        (InCall (Get ''/ctrl/mode'' 2 20000)) http_busy_example)) = []"
proof -
  have w: "ht_wf http_busy_example" unfolding http_busy_example_def by (rule ht.step_inv) simp
  have b: "ht_busy http_busy_example"
    by (simp add: http_busy_example_def enqueue_def pump_def doRequest_always ht_init_def send_def)
  show ?thesis using http_one_in_flight [OF w] b w by blast
qed

subsection \<open>Parsing a Digest parameter list\<close>

lemma index_of_append_left [simp]:
  "index_of c (p @ s) (length p + q) = map_option (\<lambda>i. length p + i) (index_of c s q)"
  by (simp add: index_of_def option.map_comp comp_def add.assoc)

lemma mid_append_left [simp]: "mid (length p + q) n (p @ s) = mid q n s"
  by (simp add: mid_def)

lemma digest_scan_shift: "digest_scan (p @ s) key (length p + q) = digest_scan s key q"
proof (induction s key q rule: digest_scan.induct)
  case (1 s key q)
  let ?n = "length p"
  show ?case
  proof (cases "q < length s \<and> index_of (CHR ''='') s q \<noteq> None")
    case False
    then show ?thesis
      by (subst (1 2) digest_scan.simps) auto
  next
    case True
    then obtain eq where eq: "q < length s" "index_of (CHR ''='') s q = Some eq" by auto
    have le: "q \<le> eq" "eq < length s" using index_of_bounds [OF eq(2)] by auto
    have A: "index_of c (p @ s) (Suc (?n + k)) = map_option (\<lambda>i. ?n + i) (index_of c s (Suc k))" for c k
      using index_of_append_left [of c p s "Suc k"] by simp
    have M: "mid (Suc (?n + k)) m (p @ s) = mid (Suc k) m s" for k m
      using mid_append_left [of p "Suc k" m s] by simp
    have A2: "index_of c (p @ s) (Suc (Suc (?n + k))) = map_option (\<lambda>i. ?n + i) (index_of c s (Suc (Suc k)))" for c k
      using index_of_append_left [of c p s "Suc (Suc k)"] by simp
    have M2: "mid (Suc (Suc (?n + k))) m (p @ s) = mid (Suc (Suc k)) m s" for k m
      using mid_append_left [of p "Suc (Suc k)" m s] by simp
    have N: "(p @ s) ! Suc (?n + k) = s ! Suc k" for k
      using nth_append_length_plus [of p s "Suc k"] by simp
    show ?thesis
    proof (cases "eq + 1 < length s \<and> s ! (eq + 1) = quote_char")
      case q: True
      then show ?thesis
        using eq le "1.IH"(1) [OF _ eq(2) refl refl q]
        by (subst (1 2) digest_scan.simps) (auto simp: A A2 M M2 N Let_def split: option.split)
    next
      case nq: False
      then show ?thesis
        using eq le "1.IH"(2) [OF _ eq(2) refl refl nq refl]
        by (subst (1 2) digest_scan.simps) (auto simp: A A2 M M2 N Let_def split: option.split)
    qed
  qed
qed

lemma digestParam_Nil [simp]: "digestParam [] key = []"
  by (simp add: digestParam_def digest_scan.simps)

lemma index_of_0: "index_of c s 0 = find_index c s"
  by (simp add: index_of_def option.map_ident)

lemma digestParam_quoted:
  assumes "CHR ''='' \<notin> set k" "quote_char \<notin> set v"
  shows "digestParam (k @ ''='' @ qval v @ rest) key =
    (if to_lower (strip_comma (trimmed k)) = key then v else digestParam rest key)"
proof -
  let ?src = "k @ CHR ''='' # quote_char # v @ quote_char # rest"
  have eq: "index_of (CHR ''='') ?src 0 = Some (length k)"
    using assms(1) by (simp add: index_of_0)
  have en: "index_of quote_char ?src (length k + 1 + 1) = Some (length k + 2 + length v)"
    using assms(2) by (simp add: index_of_def)
  have m: "mid (length k + 1 + 1) (length k + 2 + length v - (length k + 1) - 1) ?src = v"
    by (simp add: mid_def)
  have r: "digest_scan ?src key (length k + 2 + length v + 1) = digest_scan rest key 0"
    using digest_scan_shift [of "k @ CHR ''='' # quote_char # v @ [quote_char]" rest key 0] by simp
  have q: "length k + 1 < length ?src \<and> ?src ! (length k + 1) = quote_char"
    by (simp add: nth_append)
  have k: "mid 0 (length k - 0) ?src = k" by (simp add: mid_def)
  have "digestParam ?src key =
      (if to_lower (strip_comma (trimmed k)) = key then v else digest_scan rest key 0)"
    unfolding digestParam_def
    by (subst digest_scan.simps) (use q in \<open>simp only: eq en m r k Let_def option.case if_True, simp\<close>)
  then show ?thesis by (simp add: qval_def digestParam_def)
qed

lemma digestParam_bare:
  assumes "CHR ''='' \<notin> set k" "CHR '','' \<notin> set v" "v = [] \<or> hd v \<noteq> quote_char"
    and "rest = [] \<or> hd rest = CHR '',''"
  shows "digestParam (k @ ''='' @ v @ rest) key =
    (if to_lower (strip_comma (trimmed k)) = key then trimmed v else digestParam rest key)"
proof -
  let ?src = "k @ CHR ''='' # v @ rest"
  have eq: "index_of (CHR ''='') ?src 0 = Some (length k)"
    using assms(1) by (simp add: index_of_0)
  have en: "(case index_of (CHR '','') ?src (length k + 1) of None \<Rightarrow> length ?src | Some e \<Rightarrow> e)
      = length k + 1 + length v"
    using assms(2,4) by (cases rest) (auto simp: index_of_def)
  have m: "mid (length k + 1) (length k + 1 + length v - (length k + 1)) ?src = v"
    by (simp add: mid_def)
  have r: "digest_scan ?src key (length k + 1 + length v) = digest_scan rest key 0"
    using digest_scan_shift [of "k @ CHR ''='' # v" rest key 0] by simp
  have nq: "\<not> (length k + 1 < length ?src \<and> ?src ! (length k + 1) = quote_char)"
    using assms(2-4) by (cases v; cases rest) (auto simp: nth_append quote_char_def)
  have k: "mid 0 (length k - 0) ?src = k" by (simp add: mid_def)
  have pos: "0 < length ?src" by simp
  have "digestParam ?src key =
      (if to_lower (strip_comma (trimmed k)) = key then trimmed v else digest_scan rest key 0)"
    unfolding digestParam_def
    by (subst digest_scan.simps)
      (simp only: eq en m r k nq pos Let_def option.case if_False not_True_eq_False)
  then show ?thesis by (simp add: digestParam_def)
qed

lemma is_digit_not_space: "is_digit c \<Longrightarrow> \<not> is_space c"
  by (auto simp: is_digit_def is_space_def)

lemma nc_text_digits: "0 \<le> n \<Longrightarrow> c \<in> set (nc_text n) \<Longrightarrow> is_digit c"
  by (auto simp: nc_text_def right_justified_def number_def is_digit_def dest: digits_all_digit [unfolded is_digit_def])

lemma nc_text_nonempty: "nc_text n \<noteq> []"
  by (simp add: nc_text_def right_justified_def number_def)

lemma nc_text_bare:
  assumes "0 \<le> n"
  shows "CHR '','' \<notin> set (nc_text n)" "hd (nc_text n) \<noteq> quote_char" "trimmed (nc_text n) = nc_text n"
proof -
  have d: "\<And>c. c \<in> set (nc_text n) \<Longrightarrow> is_digit c" using nc_text_digits assms by blast
  have h: "is_digit (hd (nc_text n))" "is_digit (last (nc_text n))" using d nc_text_nonempty by auto
  show "CHR '','' \<notin> set (nc_text n)" using d by (force simp: is_digit_def)
  show "hd (nc_text n) \<noteq> quote_char" using h(1) by (auto simp: is_digit_def quote_char_def)
  show "trimmed (nc_text n) = nc_text n" using h by (intro trimmed_id) (auto dest: is_digit_not_space)
qed

lemma nc_text_inj: "0 \<le> a \<Longrightarrow> 0 \<le> b \<Longrightarrow> nc_text a = nc_text b \<Longrightarrow> a = b"
  by (auto simp: nc_text_def number_def dest!: right_justified_inj)

text \<open>The fields of the Authorization header as a server that parses it like \<^verbatim>\<open>digestParam\<close>
  reads them.\<close>

lemma digest_key_eval:
  "to_lower (strip_comma (trimmed ''username'')) = ''username''"
  "to_lower (strip_comma (trimmed '', realm'')) = ''realm''"
  "to_lower (strip_comma (trimmed '', nonce'')) = ''nonce''"
  "to_lower (strip_comma (trimmed '', uri'')) = ''uri''"
  "to_lower (strip_comma (trimmed '', response'')) = ''response''"
  "to_lower (strip_comma (trimmed '', qop'')) = ''qop''"
  "to_lower (strip_comma (trimmed '', nc'')) = ''nc''"
  "to_lower (strip_comma (trimmed '', cnonce'')) = ''cnonce''"
  by code_simp+

lemma auth_params_split:
  assumes "select_qop (ht_qop h) = ''auth''"
  shows "\<exists>tl. auth_params md5hex verb uri h =
    ''username'' @ ''='' @ qval (to_utf8 (ht_username h)) @ '', realm'' @ ''='' @ qval (ht_realm h)
    @ '', nonce'' @ ''='' @ qval (ht_nonce h) @ '', uri'' @ ''='' @ qval uri
    @ '', response'' @ ''='' @ qval (digest_response md5hex
        (ha1 md5hex (ht_username h) (ht_realm h) (ht_password h) (ht_nonce h) (ht_cnonce h) (ht_md5_sess h))
        (ht_nonce h) (nc_text (ht_nc h)) (ht_cnonce h) ''auth'' (ha2 md5hex verb uri))
    @ '', qop'' @ ''='' @ ''auth'' @ '', nc'' @ ''='' @ nc_text (ht_nc h)
    @ '', cnonce'' @ ''='' @ qval (ht_cnonce h) @ tl"
  by (rule exI [of _ "(if ht_opaque h \<noteq> [] then '', opaque='' @ qval (ht_opaque h) else [])
        @ (if ht_md5_sess h then '', algorithm=MD5-sess'' else [])"])
    (simp add: auth_params_def assms Let_def)

lemma auth_params_read:
  fixes verb :: string
  assumes "select_qop (ht_qop h) = ''auth''" "0 \<le> ht_nc h"
    and "quote_char \<notin> set (to_utf8 (ht_username h))" "quote_char \<notin> set (ht_realm h)"
      "quote_char \<notin> set (ht_nonce h)" "quote_char \<notin> set uri" "quote_char \<notin> set (ht_cnonce h)"
      "\<And>x. quote_char \<notin> set (md5hex x)"
  defines "ps \<equiv> auth_params md5hex verb uri h"
  shows "digestParam ps ''username'' = to_utf8 (ht_username h)" "digestParam ps ''realm'' = ht_realm h"
    "digestParam ps ''nonce'' = ht_nonce h" "digestParam ps ''uri'' = uri"
    "digestParam ps ''response'' = digest_response md5hex
        (ha1 md5hex (ht_username h) (ht_realm h) (ht_password h) (ht_nonce h) (ht_cnonce h) (ht_md5_sess h))
        (ht_nonce h) (nc_text (ht_nc h)) (ht_cnonce h) ''auth'' (ha2 md5hex verb uri)"
    "digestParam ps ''qop'' = ''auth''" "digestParam ps ''nc'' = nc_text (ht_nc h)"
    "digestParam ps ''cnonce'' = ht_cnonce h"
proof -
  let ?resp = "digest_response md5hex
      (ha1 md5hex (ht_username h) (ht_realm h) (ht_password h) (ht_nonce h) (ht_cnonce h) (ht_md5_sess h))
      (ht_nonce h) (nc_text (ht_nc h)) (ht_cnonce h) ''auth'' (ha2 md5hex verb uri)"
  have q: "quote_char \<notin> set ?resp" using assms(8) by (simp add: digest_response_def)
  obtain tl where ps: "ps = ''username'' @ ''='' @ qval (to_utf8 (ht_username h))
      @ '', realm'' @ ''='' @ qval (ht_realm h)
      @ '', nonce'' @ ''='' @ qval (ht_nonce h) @ '', uri'' @ ''='' @ qval uri
      @ '', response'' @ ''='' @ qval ?resp
      @ '', qop'' @ ''='' @ ''auth'' @ '', nc'' @ ''='' @ nc_text (ht_nc h)
      @ '', cnonce'' @ ''='' @ qval (ht_cnonce h) @ tl"
    using auth_params_split [OF assms(1)] unfolding ps_def by blast
  have k: "CHR ''='' \<notin> set ''username''" "CHR ''='' \<notin> set '', realm''" "CHR ''='' \<notin> set '', nonce''"
      "CHR ''='' \<notin> set '', uri''" "CHR ''='' \<notin> set '', response''"
    by simp_all
  have bare: "digestParam ('', qop'' @ ''='' @ ''auth'' @ '', nc'' @ ''='' @ nc_text (ht_nc h)
        @ '', cnonce'' @ ''='' @ qval (ht_cnonce h) @ tl) key =
      (if ''qop'' = key then ''auth'' else if ''nc'' = key then nc_text (ht_nc h)
       else if ''cnonce'' = key then ht_cnonce h else digestParam tl key)" for key
    using nc_text_bare [OF assms(2)] assms(7)
    by (subst digestParam_bare, simp, simp, simp add: quote_char_def, simp,
        subst digestParam_bare, simp, simp, simp, simp,
        subst digestParam_quoted) (simp_all add: digest_key_eval, auto simp: trimmed_id is_space_def)
  have all: "digestParam ps key =
      (if ''username'' = key then to_utf8 (ht_username h) else if ''realm'' = key then ht_realm h
       else if ''nonce'' = key then ht_nonce h else if ''uri'' = key then uri
       else if ''response'' = key then ?resp else if ''qop'' = key then ''auth''
       else if ''nc'' = key then nc_text (ht_nc h)
       else if ''cnonce'' = key then ht_cnonce h else digestParam tl key)" for key
    unfolding ps digestParam_quoted [OF k(1) assms(3)] digestParam_quoted [OF k(2) assms(4)]
      digestParam_quoted [OF k(3) assms(5)] digestParam_quoted [OF k(4) assms(6)]
      digestParam_quoted [OF k(5) q] bare digest_key_eval ..
  show "digestParam ps ''username'' = to_utf8 (ht_username h)" "digestParam ps ''realm'' = ht_realm h"
    "digestParam ps ''nonce'' = ht_nonce h" "digestParam ps ''uri'' = uri"
    "digestParam ps ''response'' = ?resp" "digestParam ps ''qop'' = ''auth''"
    "digestParam ps ''nc'' = nc_text (ht_nc h)" "digestParam ps ''cnonce'' = ht_cnonce h"
    unfolding all by simp_all
qed

subsection \<open>Properties of the Digest authentication\<close>

text \<open>
  C10. The Authorization header built for a request states, to a parser like the transport's
  own, the user, realm, nonce, request URI, the incremented nonce count, the client nonce and
  the RFC 2617 response for exactly these values.
\<close>

theorem http_authorization_fields:
  assumes "ht_nonce h \<noteq> []" "ht_username h \<noteq> []" "0 \<le> ht_nc h" "select_qop (ht_qop h) = ''auth''"
    and "quote_char \<notin> set (to_utf8 (ht_username h)) \<union> set (ht_realm h) \<union> set (ht_nonce h) \<union> set uri
      \<union> set (ht_cnonce h)"
    and "\<And>x. quote_char \<notin> set (md5hex x)"
  shows "\<exists>ps. ht_auth_header (buildAuthorization md5hex verb uri h) = ''Digest '' @ ps
    \<and> digestParam ps ''username'' = to_utf8 (ht_username h) \<and> digestParam ps ''realm'' = ht_realm h
    \<and> digestParam ps ''nonce'' = ht_nonce h \<and> digestParam ps ''uri'' = uri
    \<and> digestParam ps ''nc'' = nc_text (ht_nc h + 1) \<and> digestParam ps ''cnonce'' = ht_cnonce h
    \<and> digestParam ps ''response'' = digest_response md5hex
        (ha1 md5hex (ht_username h) (ht_realm h) (ht_password h) (ht_nonce h) (ht_cnonce h) (ht_md5_sess h))
        (ht_nonce h) (nc_text (ht_nc h + 1)) (ht_cnonce h) ''auth'' (ha2 md5hex verb uri)"
proof -
  let ?h = "h\<lparr>ht_auth_qop := select_qop (ht_qop h), ht_nc := ht_nc h + 1\<rparr>"
  have "select_qop (ht_qop ?h) = ''auth''" "0 \<le> ht_nc ?h" using assms(3,4) by simp_all
  note R = auth_params_read [OF this, of uri md5hex verb]
  have "ht_auth_header (buildAuthorization md5hex verb uri h) = ''Digest '' @ auth_params md5hex verb uri ?h"
    using assms(1,2) by (simp add: buildAuthorization_def Let_def)
  with R assms(5,6) show ?thesis by (intro exI [of _ "auth_params md5hex verb uri ?h"]) simp
qed

definition auth_example :: "nat http" where
  "auth_example = ht_init\<lparr>ht_username := ''admin'', ht_password := ''pw'', ht_realm := ''CAM'',
     ht_nonce := ''abc'', ht_qop := ''auth-int, auth'', ht_cnonce := ''k1'', ht_nc := 6\<rparr>"

theorem http_authorization_fields_witness:
  "\<exists>ps. ht_auth_header (buildAuthorization (\<lambda>_. ''00ff'') ''GET'' ''/info'' auth_example) = ''Digest '' @ ps
    \<and> digestParam ps ''nonce'' = ''abc'' \<and> digestParam ps ''uri'' = ''/info''
    \<and> digestParam ps ''nc'' = ''00000007'' \<and> digestParam ps ''response'' = ''00ff''"
proof -
  have q: "select_qop (ht_qop auth_example) = ''auth''" by code_simp
  have n: "nc_text 7 = ''00000007''" by code_simp
  have "\<exists>ps. ht_auth_header (buildAuthorization (\<lambda>_. ''00ff'') ''GET'' ''/info'' auth_example) = ''Digest '' @ ps
    \<and> digestParam ps ''username'' = to_utf8 (ht_username auth_example) \<and> digestParam ps ''realm'' = ht_realm auth_example
    \<and> digestParam ps ''nonce'' = ht_nonce auth_example \<and> digestParam ps ''uri'' = ''/info''
    \<and> digestParam ps ''nc'' = nc_text (ht_nc auth_example + 1) \<and> digestParam ps ''cnonce'' = ht_cnonce auth_example
    \<and> digestParam ps ''response'' = digest_response (\<lambda>_. ''00ff'')
        (ha1 (\<lambda>_. ''00ff'') (ht_username auth_example) (ht_realm auth_example) (ht_password auth_example)
          (ht_nonce auth_example) (ht_cnonce auth_example) (ht_md5_sess auth_example))
        (ht_nonce auth_example) (nc_text (ht_nc auth_example + 1)) (ht_cnonce auth_example) ''auth''
        (ha2 (\<lambda>_. ''00ff'') ''GET'' ''/info'')"
    by (rule http_authorization_fields)
      (use q in \<open>simp_all add: auth_example_def quote_char_def to_utf8_def utf8_char_def\<close>)
  then show ?thesis by (auto simp: auth_example_def n digest_response_def)
qed

text \<open>Whether the next request carries a fresh Digest response.\<close>

definition authenticated :: "'cb http \<Rightarrow> bool" where
  "authenticated h \<longleftrightarrow> ht_nonce h \<noteq> [] \<and> ht_username h \<noteq> []"

definition nc_advanced :: "'cb http \<Rightarrow> 'cb ht_event list \<Rightarrow> 'cb http \<Rightarrow> bool" where
  "nc_advanced h es h' \<longleftrightarrow> ht_nonce h' = ht_nonce h \<and> ht_cnonce h' = ht_cnonce h \<and> ht_username h' = ht_username h
     \<and> ht_nc h' = ht_nc h + (if authenticated h then int (length (occurrences ht_sent es)) else 0)"

fun is_credentials :: "'cb api_call \<Rightarrow> bool" where
  "is_credentials (SetCredentials _ _) = True"
| "is_credentials _ = False"

lemma send_nc:
  "ht_nc (fst (send md5hex enc u body t h)) = ht_nc h + (if authenticated h then 1 else 0)"
  "ht_cnonce (fst (send md5hex enc u body t h)) = ht_cnonce h"
  by (simp_all add: send_def buildAuthorization_def Let_def authenticated_def)

lemma pump_nc: "nc_advanced h (snd (pump md5hex enc always h)) (fst (pump md5hex enc always h))"
  by (simp add: pump_def nc_advanced_def doRequest_always send_nc authenticated_def split: list.split)

lemma nc_advanced_trans:
  "nc_advanced h e1 h1 \<Longrightarrow> nc_advanced h1 e2 h2 \<Longrightarrow> nc_advanced h (e1 @ e2) h2"
  by (auto simp: nc_advanced_def authenticated_def)

lemma enqueue_nc: "nc_advanced h (snd (enqueue md5hex enc always r h)) (fst (enqueue md5hex enc always r h))"
  using pump_nc [of "h\<lparr>ht_queue := ht_queue h @ [r]\<rparr>" md5hex enc]
  by (simp add: enqueue_def nc_advanced_def authenticated_def split_beta)

lemma ht_call_nc:
  "\<not> is_credentials c \<Longrightarrow> nc_advanced h (snd (ht_call md5hex enc always c h)) (fst (ht_call md5hex enc always c h))"
  using enqueue_nc by (cases c) auto

lemma ht_calls_nc:
  "\<forall>c\<in>set cs. \<not> is_credentials c \<Longrightarrow>
   nc_advanced h (snd (ht_calls md5hex enc always cs h)) (fst (ht_calls md5hex enc always cs h))"
proof (induction cs arbitrary: h)
  case Nil
  then show ?case by (simp add: nc_advanced_def)
next
  case (Cons c cs)
  then show ?case
    using nc_advanced_trans [OF ht_call_nc [of c h md5hex enc] Cons.IH] by (simp add: split_beta)
qed

lemma parseChallenge_nonce:
  assumes "parseChallenge rand reply h = (True, hc)"
  shows "ht_nonce hc \<noteq> []"
    "ht_nonce hc = ht_nonce h \<Longrightarrow> ht_nc hc = ht_nc h \<and> ht_cnonce hc = ht_cnonce h \<and> ht_auth_header hc = ht_auth_header h"
    "ht_nonce hc \<noteq> ht_nonce h \<Longrightarrow> ht_nc hc = 0 \<and> ht_auth_header hc = []"
  using assms by (auto simp: parseChallenge_def Let_def split: if_splits)

text \<open>
  When a reply is processed, the nonce count goes up by exactly one for every
  authenticated request sent, and a challenge that repeats the current nonce changes neither
  the count nor the client nonce; only a new nonce restarts the count, at one for the retried
  request. So a (nonce, count) pair is never reused while the nonce stays.
\<close>

theorem http_nonce_count_increases:
  assumes "ht_wf h" "\<forall>cb rsp. \<forall>c\<in>set (run_cb cb rsp). \<not> is_credentials c"
    and "onFinished md5hex enc always rand run_cb reply h = (h', es)"
  shows "(ht_nonce h' = ht_nonce h \<longrightarrow> ht_cnonce h' = ht_cnonce h
      \<and> ht_nc h' = ht_nc h + (if authenticated h then int (length (occurrences ht_sent es)) else 0))
    \<and> (ht_nonce h' \<noteq> ht_nonce h \<longrightarrow> ht_nc h' = 1 \<and> length (occurrences ht_sent es) = 1)"
proof (cases "ht_inflight h")
  case None
  with assms(3) show ?thesis by (simp add: onFinished_def)
next
  case (Some f)
  show ?thesis
    using assms(1) Some assms(3)
  proof (cases rule: onFinished_cases)
    case (retry hc w)
    note pc = parseChallenge_nonce [OF retry(4)]
    have u: "ht_username hc = ht_username h"
      using retry(4) parseChallenge_fields(4) [of rand reply "captureSession reply h"] by simp
    have "ht_nonce h' = ht_nonce hc" "ht_nc h' = ht_nc hc + 1" "ht_cnonce h' = ht_cnonce hc"
      using retry(5) send_fields(3) [of md5hex enc "if_url f" "if_body f" "if_timeout f" hc]
        send_nc [of md5hex enc "if_url f" "if_body f" "if_timeout f" hc] pc(1) u retry(3)
      by (simp_all add: authenticated_def)
    then show ?thesis using pc retry(3,9) by (auto simp: authenticated_def)
  next
    case (finish h2 e1 e2)
    let ?h1 = "captureSession reply h\<lparr>ht_busy := False, ht_inflight := None\<rparr>"
    have "nc_advanced ?h1 e1 h2"
      using ht_calls_nc [of "run_cb (if_cb f) (response_of reply)" ?h1 md5hex enc] finish(1) assms(2) by auto
    moreover have "nc_advanced h2 e2 h'" using pump_nc [of h2 md5hex enc] finish(2) by simp
    ultimately have "nc_advanced ?h1 (e1 @ e2) h'" by (rule nc_advanced_trans)
    then show ?thesis using finish(3) by (auto simp: nc_advanced_def authenticated_def)
  qed
qed

definition challenge_reply :: net_reply where
  "challenge_reply = \<lparr>nr_status = 401, nr_body = [], nr_error = OtherError, nr_errorString = [], nr_url = [],
     nr_headers = [(''www-authenticate-x'', ''Digest realm=CAM, nonce=n2, qop=auth'')]\<rparr>"

definition busy_auth_example :: "nat http" where
  "busy_auth_example = auth_example\<lparr>ht_busy := True,
     ht_inflight := Some \<lparr>if_url = \<lparr>url_base = ''http://c:80'', url_path = ''/info'', url_query = []\<rparr>,
       if_body = [], if_cb = 5, if_timeout = 20000, if_retries = 1\<rparr>\<rparr>"

theorem http_nonce_count_increases_witness:
  "\<exists>h' es. onFinished (\<lambda>_. ''00ff'') (\<lambda>s. s) always (\<lambda>_. 0) (\<lambda>_ _. []) challenge_reply busy_auth_example = (h', es)
     \<and> ht_nonce h' = ''n2'' \<and> ht_nc h' = 1"
proof -
  have w: "ht_wf busy_auth_example"
    by (simp add: busy_auth_example_def ht_wf_def ht_coupled_def auth_example_def)
  obtain h' es where r: "onFinished (\<lambda>_. ''00ff'') (\<lambda>s. s) always (\<lambda>_. 0) (\<lambda>_ _. []) challenge_reply
      busy_auth_example = (h', es)" by fastforce
  have pc: "fst (parseChallenge (\<lambda>_. 0) challenge_reply (captureSession challenge_reply busy_auth_example))"
      "ht_nonce (snd (parseChallenge (\<lambda>_. 0) challenge_reply (captureSession challenge_reply busy_auth_example))) = ''n2''"
    by code_simp+
  have "ht_nonce h' = ''n2''"
    using r pc unfolding onFinished_def
    by (auto simp: busy_auth_example_def auth_example_def challenge_reply_def doRequest_always Let_def
        split: prod.splits)
  moreover have "ht_nonce busy_auth_example \<noteq> ''n2''" by (simp add: busy_auth_example_def auth_example_def)
  ultimately show ?thesis using http_nonce_count_increases [OF w _ r] r by auto
qed

subsection \<open>Origin negotiation picks the first answer\<close>

definition answers :: "(string \<Rightarrow> int \<Rightarrow> net_reply) \<Rightarrow> string \<times> int \<Rightarrow> bool" where
  "answers probe c = (200 \<le> nr_status (probe (fst c) (snd c)) \<and> nr_status (probe (fst c) (snd c)) < 500)"

lemma base_url_kept [simp]:
  "ht_base_url (captureSession r h) = ht_base_url h"
  "ht_base_url (snd (parseChallenge rand r h)) = ht_base_url h"
  by (simp_all add: captureSession_def parseChallenge_def Let_def)

lemma try_origins_spec:
  "case try_origins rand probe host cs h of (ok, h', es) \<Rightarrow>
     (case find (answers probe) cs of
        None \<Rightarrow> \<not> ok \<and> ht_base_url h' = ht_base_url h \<and> length es = length cs
      | Some (scheme, port) \<Rightarrow> ok \<and> ht_base_url h' = origin_url scheme host port)"
proof (induction cs arbitrary: h)
  case (Cons c cs)
  obtain scheme port where c: "c = (scheme, port)" by (cases c)
  show ?case
  proof (cases "answers probe c")
    case True
    then show ?thesis by (simp add: c answers_def Let_def)
  next
    case False
    let ?reply = "probe scheme port"
    let ?h2 = "captureSession ?reply (if nr_status ?reply = 401 \<or> nr_status ?reply = 403
        then snd (parseChallenge rand ?reply (h\<lparr>ht_auth_required := True\<rparr>)) else h)"
    have "ht_base_url ?h2 = ht_base_url h" by simp
    with False Cons.IH [of ?h2] show ?thesis
      by (auto simp: c answers_def Let_def split: option.splits prod.splits)
  qed
qed simp

text \<open>
  Origin negotiation probes http on the given port, https on 443 and https on 80 in that
  order and locks the first whose status is between 200 and 499 (a 401 included); it returns
  true exactly if there is one. The locked base URL is always the probed origin, never the
  final URL of a redirect, and without an answer the old base URL stays.
\<close>

theorem http_negotiate_locks_first:
  "case negotiateOrigin rand probe host port h of (ok, h', es) \<Rightarrow>
     (case find (answers probe) (candidates port) of
        None \<Rightarrow> \<not> ok \<and> ht_base_url h' = ht_base_url h
      | Some (scheme, p) \<Rightarrow> ok \<and> ht_base_url h' = origin_url scheme host p)"
  using try_origins_spec [where rand = rand and probe = probe and host = host and cs = "candidates port"
      and h = "h\<lparr>ht_host := host\<rparr>"]
  unfolding negotiateOrigin_def by (auto split: prod.splits option.splits)

end
