(* ===== verification/Settings_Engine.thy ===== *)
theory Settings_Engine
  imports Settings_Schema Http_Transport
begin

text \<open>
  The settings engine of \<^verbatim>\<open>src/cameractrl/zc_settings_engine.cpp\<close>: group reads
  (\<^verbatim>\<open>/ctrl/getbatch\<close>), their per-key fallback, single reads, writes and the re-reads after a
  write.

  The record \<open>engine\<close> holds the caches of \<^verbatim>\<open>ZcSettingsEngine\<close>. A closure passed to the
  transport is a value of \<open>eng_cb\<close>; the counter and key list shared by the closures of one
  fallback read live in \<open>en_groups\<close> under a fresh number. A request is an event \<open>EnRequest\<close>;
  \<open>en_pending\<close> lists the closures of the requests not answered yet. Replies arrive in request
  order, which is the contract the transport proves (\<open>fifo_service\<close>), so a reply is handled by
  the first of them. The JSON parser (\<open>parse\<close>) and \<^verbatim>\<open>QString::number(double)\<close> (\<open>num\<close>) are
  parameters; a user callback is named by a number.
\<close>

record setting_value =
  sv_key :: string
  sv_value :: string
  sv_type :: int
  sv_readOnly :: bool
  sv_supported :: bool
  sv_choices :: "string list"
  sv_min :: rat
  sv_max :: rat
  sv_step :: rat

definition sv_default :: "string \<Rightarrow> setting_value" where
  "sv_default key = \<lparr>sv_key = key, sv_value = [], sv_type = 0, sv_readOnly = False, sv_supported = True,
     sv_choices = [], sv_min = 0, sv_max = 0, sv_step = 0\<rparr>"

datatype key_cb = KNone | KUser nat | KGroup nat

datatype eng_cb =
    CbGroup string "nat option"
  | CbKey string key_cb
  | CbWrite string string

record group_read =
  gr_catalog :: string
  gr_pending :: int
  gr_okKeys :: "string list"
  gr_cb :: "nat option"

record engine =
  en_values :: "string \<rightharpoonup> string"
  en_defs :: "string \<rightharpoonup> setting_value"
  en_groupKeys :: "string \<rightharpoonup> string list"
  en_transport :: bool
  en_groups :: "nat \<rightharpoonup> group_read"
  en_next :: nat
  en_pending :: "eng_cb list"

datatype eng_event =
    EnValueChanged string string
  | EnGroupRefreshed string
  | EnWriteFinished string bool
  | EnGroupDone nat bool
  | EnKeyDone nat setting_value
  | EnRequest string url_query_items eng_cb

type_synonym eng_result = "engine \<times> eng_event list"

definition en_init :: engine where
  "en_init = \<lparr>en_values = Map.empty, en_defs = Map.empty, en_groupKeys = Map.empty, en_transport = False,
     en_groups = Map.empty, en_next = 0, en_pending = []\<rparr>"

definition setTransport :: "bool \<Rightarrow> engine \<Rightarrow> engine" where
  "setTransport present e = e\<lparr>en_transport := present\<rparr>"

fun jsonScalar :: "(rat \<Rightarrow> string) \<Rightarrow> json \<Rightarrow> string" where
  "jsonScalar num (JStr s) = s"
| "jsonScalar num (JNum r) = num r"
| "jsonScalar num (JBool b) = (if b then ''1'' else ''0'')"
| "jsonScalar num _ = []"

definition group_done :: "nat option \<Rightarrow> bool \<Rightarrow> eng_event list" where
  "group_done cb ok = (case cb of None \<Rightarrow> [] | Some c \<Rightarrow> [EnGroupDone c ok])"

definition request_query :: "string \<Rightarrow> url_query_items \<Rightarrow> eng_cb \<Rightarrow> engine \<Rightarrow> eng_result" where
  "request_query path query cb e = (e\<lparr>en_pending := en_pending e @ [cb]\<rparr>, [EnRequest path query cb])"

subsection \<open>Single reads\<close>

text \<open>The callback of \<^verbatim>\<open>readKey\<close>: none, the caller's, or the closure of a fallback group read.\<close>

fun key_done :: "key_cb \<Rightarrow> setting_value \<Rightarrow> engine \<Rightarrow> eng_result" where
  "key_done KNone v e = (e, [])"
| "key_done (KUser c) v e = (e, [EnKeyDone c v])"
| "key_done (KGroup g) v e =
     (case en_groups e g of
        None \<Rightarrow> (e, [])
      | Some gr \<Rightarrow>
          (let ok = (if sv_supported v then gr_okKeys gr @ [sv_key v] else gr_okKeys gr);
               n = gr_pending gr - 1;
               e1 = e\<lparr>en_groups := (en_groups e)(g \<mapsto> gr\<lparr>gr_okKeys := ok, gr_pending := n\<rparr>)\<rparr> in
           if n = 0 then
             (e1\<lparr>en_groupKeys := (en_groupKeys e1)(gr_catalog gr \<mapsto> ok)\<rparr>,
              EnGroupRefreshed (gr_catalog gr) # group_done (gr_cb gr) True)
           else (e1, [])))"

definition readKey :: "string \<Rightarrow> key_cb \<Rightarrow> engine \<Rightarrow> eng_result" where
  "readKey key cb e =
     (if \<not> en_transport e then key_done cb (sv_default key) e
      else request_query ''/ctrl/get'' [(''k'', key)] (CbKey key cb) e)"

definition setting_of :: "(rat \<Rightarrow> string) \<Rightarrow> string \<Rightarrow> jobject \<Rightarrow> setting_value" where
  "setting_of num key o1 =
     \<lparr>sv_key = key, sv_value = jsonScalar num (jfield o1 ''value''), sv_type = jtoInt 0 (jfield o1 ''type''),
      sv_readOnly = (jtoInt 0 (jfield o1 ''ro'') = 1), sv_supported = (jtoInt 0 (jfield o1 ''code'') = 0),
      sv_choices = map jtoString (jtoArray (jfield o1 ''opts'')),
      sv_min = jtoDouble 0 (jfield o1 ''min''), sv_max = jtoDouble 0 (jfield o1 ''max''),
      sv_step = jtoDouble 0 (jfield o1 ''step'')\<rparr>"

text \<open>The value a \<^verbatim>\<open>/ctrl/get\<close> reply yields; any body that is not a JSON object leaves the
  defaults, \<^verbatim>\<open>supported\<close> among them.\<close>

definition reply_value :: "(string \<Rightarrow> json option) \<Rightarrow> (rat \<Rightarrow> string) \<Rightarrow> string \<Rightarrow> http_response \<Rightarrow> setting_value" where
  "reply_value parse num key rsp =
     (case parse (rsp_body rsp) of Some (JObj o1) \<Rightarrow> setting_of num key o1 | _ \<Rightarrow> sv_default key)"

definition readKey_reply ::
  "(string \<Rightarrow> json option) \<Rightarrow> (rat \<Rightarrow> string) \<Rightarrow> string \<Rightarrow> key_cb \<Rightarrow> http_response \<Rightarrow> engine \<Rightarrow> eng_result" where
  "readKey_reply parse num key cb rsp e =
     (let v = reply_value parse num key rsp;
          e1 = e\<lparr>en_values := (en_values e)(key \<mapsto> sv_value v), en_defs := (en_defs e)(key \<mapsto> v)\<rparr> in
      case key_done cb v e1 of (e2, es) \<Rightarrow> (e2, EnValueChanged key (sv_value v) # es))"

subsection \<open>Group reads\<close>

fun read_keys :: "string list \<Rightarrow> key_cb \<Rightarrow> engine \<Rightarrow> eng_result" where
  "read_keys [] cb e = (e, [])"
| "read_keys (k # ks) cb e =
     (case readKey k cb e of (e1, es1) \<Rightarrow> (case read_keys ks cb e1 of (e2, es2) \<Rightarrow> (e2, es1 @ es2)))"

definition catalog_keys :: "string \<Rightarrow> string list" where
  "catalog_keys catalog = (case find (\<lambda>c. cat_id c = catalog) catalogs of None \<Rightarrow> [] | Some c \<Rightarrow> cat_keys c)"

definition readGroupByKeys :: "string \<Rightarrow> nat option \<Rightarrow> engine \<Rightarrow> eng_result" where
  "readGroupByKeys catalog cb e =
     (let keys = catalog_keys catalog in
      if keys = [] then
        (e\<lparr>en_groupKeys := (en_groupKeys e)(catalog \<mapsto> [])\<rparr>, EnGroupRefreshed catalog # group_done cb False)
      else
        (let g = en_next e;
             e1 = e\<lparr>en_next := g + 1,
                    en_groups := (en_groups e)(g \<mapsto> \<lparr>gr_catalog = catalog, gr_pending = int (length keys),
                      gr_okKeys = [], gr_cb = cb\<rparr>)\<rparr> in
         read_keys keys (KGroup g) e1))"

definition readGroup :: "string \<Rightarrow> nat option \<Rightarrow> engine \<Rightarrow> eng_result" where
  "readGroup catalog cb e =
     (if \<not> en_transport e then (e, group_done cb False)
      else request_query ''/ctrl/getbatch'' [(''catalog'', catalog)] (CbGroup catalog cb) e)"

text \<open>One entry of \<^verbatim>\<open>cfgs\<close>: the key (empty if it is to be skipped) and its definition.\<close>

definition apply_cfg :: "(rat \<Rightarrow> string) \<Rightarrow> json \<Rightarrow> engine \<Rightarrow> engine \<times> string list \<times> eng_event list" where
  "apply_cfg num cv e =
     (let o1 = jtoObject cv; key = jtoString (jfield o1 ''key'') in
      if key = [] then (e, [], [])
      else
        (let d = setting_of num key o1;
             prev = (case en_values e key of None \<Rightarrow> [] | Some s \<Rightarrow> s) in
         (e\<lparr>en_defs := (en_defs e)(key \<mapsto> d), en_values := (en_values e)(key \<mapsto> sv_value d)\<rparr>, [key],
          if prev \<noteq> sv_value d then [EnValueChanged key (sv_value d)] else [])))"

fun apply_cfgs :: "(rat \<Rightarrow> string) \<Rightarrow> json list \<Rightarrow> engine \<Rightarrow> engine \<times> string list \<times> eng_event list" where
  "apply_cfgs num [] e = (e, [], [])"
| "apply_cfgs num (cv # cvs) e =
     (case apply_cfg num cv e of (e1, ks1, es1) \<Rightarrow>
        (case apply_cfgs num cvs e1 of (e2, ks2, es2) \<Rightarrow> (e2, ks1 @ ks2, es1 @ es2)))"

definition applyBatch :: "(rat \<Rightarrow> string) \<Rightarrow> string \<Rightarrow> jobject \<Rightarrow> engine \<Rightarrow> eng_result" where
  "applyBatch num catalog doc e =
     (case apply_cfgs num (jtoArray (jfield doc ''cfgs'')) e of
        (e1, keys, es) \<Rightarrow>
          (e1\<lparr>en_groupKeys := (en_groupKeys e1)(catalog \<mapsto> keys)\<rparr>, es @ [EnGroupRefreshed catalog]))"

definition readGroup_reply ::
  "(string \<Rightarrow> json option) \<Rightarrow> (rat \<Rightarrow> string) \<Rightarrow> string \<Rightarrow> nat option \<Rightarrow> http_response \<Rightarrow> engine \<Rightarrow> eng_result" where
  "readGroup_reply parse num catalog cb rsp e =
     (case parse (rsp_body rsp) of
        Some (JObj doc) \<Rightarrow>
          if jtoArray (jfield doc ''cfgs'') = [] then readGroupByKeys catalog cb e
          else (case applyBatch num catalog doc e of (e1, es) \<Rightarrow> (e1, es @ group_done cb True))
      | _ \<Rightarrow> readGroupByKeys catalog cb e)"

subsection \<open>Writes\<close>

fun read_groups :: "string list \<Rightarrow> engine \<Rightarrow> eng_result" where
  "read_groups [] e = (e, [])"
| "read_groups (c # cs) e =
     (case readGroup c None e of (e1, es1) \<Rightarrow> (case read_groups cs e1 of (e2, es2) \<Rightarrow> (e2, es1 @ es2)))"

definition dependent_groups :: "string \<Rightarrow> string list" where
  "dependent_groups key =
     concat (map (\<lambda>r. if List.member (dep_srcKeys r) key then dep_targets r else []) dependencyRules)"

definition applyDependencies :: "string \<Rightarrow> engine \<Rightarrow> eng_result" where
  "applyDependencies key e = read_groups (dependent_groups key) e"

definition writeKey :: "string \<Rightarrow> string \<Rightarrow> engine \<Rightarrow> eng_result" where
  "writeKey key v e =
     (if \<not> en_transport e then (e, [EnWriteFinished key False])
      else request_query ''/ctrl/set'' [(key, v)] (CbWrite key v) e)"

definition writeKey_reply :: "string \<Rightarrow> string \<Rightarrow> http_response \<Rightarrow> engine \<Rightarrow> eng_result" where
  "writeKey_reply key v rsp e =
     (if statusCode rsp = 200 then
        (case applyDependencies key (e\<lparr>en_values := (en_values e)(key \<mapsto> v)\<rparr>) of
           (e1, es) \<Rightarrow> (e1, EnValueChanged key v # es @ [EnWriteFinished key True]))
      else (e, [EnWriteFinished key False]))"

subsection \<open>Queries\<close>

definition en_value :: "string \<Rightarrow> engine \<Rightarrow> string" where
  "en_value key e = (case en_values e key of None \<Rightarrow> [] | Some s \<Rightarrow> s)"

definition en_snapshot :: "engine \<Rightarrow> string \<rightharpoonup> string" where
  "en_snapshot e = en_values e"

definition en_definition :: "string \<Rightarrow> engine \<Rightarrow> setting_value option" where
  "en_definition key e = en_defs e key"

definition groupKeys :: "string \<Rightarrow> engine \<Rightarrow> string list" where
  "groupKeys catalog e = (case en_groupKeys e catalog of None \<Rightarrow> [] | Some ks \<Rightarrow> ks)"

subsection \<open>The engine behind its transport\<close>

fun eng_reply ::
  "(string \<Rightarrow> json option) \<Rightarrow> (rat \<Rightarrow> string) \<Rightarrow> eng_cb \<Rightarrow> http_response \<Rightarrow> engine \<Rightarrow> eng_result" where
  "eng_reply parse num (CbGroup catalog cb) rsp e = readGroup_reply parse num catalog cb rsp e"
| "eng_reply parse num (CbKey key cb) rsp e = readKey_reply parse num key cb rsp e"
| "eng_reply parse num (CbWrite key v) rsp e = writeKey_reply key v rsp e"

datatype eng_input =
    EnReadGroup string "nat option"
  | EnReadKey string nat
  | EnWriteKey string string
  | EnReply http_response

fun eng_step :: "(string \<Rightarrow> json option) \<Rightarrow> (rat \<Rightarrow> string) \<Rightarrow> eng_input \<Rightarrow> engine \<Rightarrow> eng_result" where
  "eng_step parse num (EnReadGroup c cb) e = readGroup c cb e"
| "eng_step parse num (EnReadKey k cb) e = readKey k (KUser cb) e"
| "eng_step parse num (EnWriteKey k v) e = writeKey k v e"
| "eng_step parse num (EnReply rsp) e =
     (case en_pending e of
        [] \<Rightarrow> (e, [])
      | cb # cbs \<Rightarrow> eng_reply parse num cb rsp (e\<lparr>en_pending := cbs\<rparr>))"

subsection \<open>Group batches\<close>

definition cfg_key :: "json \<Rightarrow> string" where
  "cfg_key cv = jtoString (jfield (jtoObject cv) ''key'')"

text \<open>Only the two caches differ.\<close>

definition caches_only :: "engine \<Rightarrow> engine \<Rightarrow> bool" where
  "caches_only e e' \<longleftrightarrow> e' = e\<lparr>en_values := en_values e', en_defs := en_defs e'\<rparr>"

lemma caches_only_fields:
  assumes "caches_only e e'"
  shows "en_groupKeys e' = en_groupKeys e" "en_groups e' = en_groups e" "en_pending e' = en_pending e"
    "en_transport e' = en_transport e" "en_next e' = en_next e"
  using assms unfolding caches_only_def by (metis (no_types, lifting) engine.select_convs engine.surjective
      engine.update_convs(1,2))+

lemma apply_cfg_spec:
  assumes "apply_cfg num cv e = (e', ks, es)"
  shows "ks = (if cfg_key cv = [] then [] else [cfg_key cv])"
    "en_defs e' = (if cfg_key cv = [] then en_defs e
       else (en_defs e)(cfg_key cv \<mapsto> setting_of num (cfg_key cv) (jtoObject cv)))"
    "en_values e' = (if cfg_key cv = [] then en_values e
       else (en_values e)(cfg_key cv \<mapsto> jsonScalar num (jfield (jtoObject cv) ''value'')))"
    "caches_only e e'"
  using assms by (auto simp: apply_cfg_def cfg_key_def setting_of_def caches_only_def Let_def split: if_splits)

lemma caches_only_trans: "caches_only e e1 \<Longrightarrow> caches_only e1 e2 \<Longrightarrow> caches_only e e2"
  by (simp add: caches_only_def) (metis (no_types, lifting) engine.surjective engine.update_convs(1,2))

lemma apply_cfgs_spec:
  assumes "apply_cfgs num cvs e = (e', ks, es)"
  shows "ks = filter (\<lambda>k. k \<noteq> []) (map cfg_key cvs)
    \<and> (\<forall>k. k \<noteq> [] \<longrightarrow> en_defs e' k = (case find (\<lambda>cv. cfg_key cv = k) (rev cvs) of
           None \<Rightarrow> en_defs e k | Some cv \<Rightarrow> Some (setting_of num k (jtoObject cv)))
        \<and> en_values e' k = (case find (\<lambda>cv. cfg_key cv = k) (rev cvs) of
           None \<Rightarrow> en_values e k | Some cv \<Rightarrow> Some (jsonScalar num (jfield (jtoObject cv) ''value''))))
    \<and> dom (en_defs e') = dom (en_defs e) \<union> set ks \<and> dom (en_values e') = dom (en_values e) \<union> set ks
    \<and> en_defs e' [] = en_defs e [] \<and> caches_only e e'"
  using assms
proof (induction cvs arbitrary: e ks es)
  case Nil
  then show ?case by (simp add: caches_only_def)
next
  case (Cons cv cvs)
  obtain e1 ks1 es1 where a: "apply_cfg num cv e = (e1, ks1, es1)" by (cases "apply_cfg num cv e")
  obtain ks2 es2 where b: "apply_cfgs num cvs e1 = (e', ks2, es2)" "ks = ks1 @ ks2"
    using Cons.prems a by (auto split: prod.splits)
  note IH = Cons.IH [OF b(1)] and one = apply_cfg_spec [OF a]
  have "caches_only e e'" using IH one(4) caches_only_trans by blast
  moreover have "dom (en_defs e1) = dom (en_defs e) \<union> set ks1" "dom (en_values e1) = dom (en_values e) \<union> set ks1"
    using one(1-3) by simp_all
  then have "dom (en_defs e') = dom (en_defs e) \<union> set ks" "dom (en_values e') = dom (en_values e) \<union> set ks"
    using IH b(2) by (simp_all add: Un_assoc)
  moreover have "en_defs e' [] = en_defs e []" using IH one(2) by simp
  moreover have "ks = filter (\<lambda>k. k \<noteq> []) (map cfg_key (cv # cvs))" using IH one(1) b(2) by simp
  moreover have "en_defs e' k = (case find (\<lambda>cv. cfg_key cv = k) (rev (cv # cvs)) of
           None \<Rightarrow> en_defs e k | Some cv \<Rightarrow> Some (setting_of num k (jtoObject cv)))
        \<and> en_values e' k = (case find (\<lambda>cv. cfg_key cv = k) (rev (cv # cvs)) of
           None \<Rightarrow> en_values e k | Some cv \<Rightarrow> Some (jsonScalar num (jfield (jtoObject cv) ''value'')))"
    if "k \<noteq> []" for k
    using IH one(2,3) that by (auto simp: find_append split: option.splits)
  ultimately show ?case by blast
qed

text \<open>
  After a batch reply, the group lists the non-empty keys of its entries in the camera's
  order; every key of it has the definition and the value of its last entry, and every other
  key keeps what it had.
\<close>

theorem settings_batch_applied:
  assumes "applyBatch num catalog doc e = (e', es)"
  shows "groupKeys catalog e' = filter (\<lambda>k. k \<noteq> []) (map cfg_key (jtoArray (jfield doc ''cfgs'')))
    \<and> (\<forall>k. k \<noteq> [] \<longrightarrow>
        (case find (\<lambda>cv. cfg_key cv = k) (rev (jtoArray (jfield doc ''cfgs''))) of
           None \<Rightarrow> en_definition k e' = en_definition k e \<and> en_value k e' = en_value k e
         | Some cv \<Rightarrow> en_definition k e' = Some (setting_of num k (jtoObject cv))
             \<and> en_value k e' = jsonScalar num (jfield (jtoObject cv) ''value'')))"
proof -
  obtain e1 ks es1 where a: "apply_cfgs num (jtoArray (jfield doc ''cfgs'')) e = (e1, ks, es1)"
    by (cases "apply_cfgs num (jtoArray (jfield doc ''cfgs'')) e")
  with assms have e': "e' = e1\<lparr>en_groupKeys := (en_groupKeys e1)(catalog \<mapsto> ks)\<rparr>"
    by (simp add: applyBatch_def)
  from apply_cfgs_spec [OF a] show ?thesis
    by (auto simp: e' groupKeys_def en_definition_def en_value_def split: option.splits)
qed

definition batch_example :: jobject where
  "batch_example = [(''cfgs'', JArr
     [JObj [(''key'', JStr ''iso''), (''value'', JStr ''800''), (''type'', JNum 1)],
      JObj [(''key'', JStr ''tint''), (''value'', JNum 5), (''type'', JNum 2)], JObj [(''code'', JNum 0)]])]"

theorem settings_batch_applied_witness:
  "\<exists>e' es. applyBatch (\<lambda>_. ''5'') ''exposure'' batch_example en_init = (e', es)
     \<and> groupKeys ''exposure'' e' = [''iso'', ''tint''] \<and> en_value ''tint'' e' = ''5''"
proof -
  obtain e' es where r: "applyBatch (\<lambda>_. ''5'') ''exposure'' batch_example en_init = (e', es)" by fastforce
  from settings_batch_applied [OF r] r show ?thesis
    by (auto simp: batch_example_def cfg_key_def dest!: spec [of _ "''tint''"])
qed

subsection \<open>Definitions of listed keys\<close>

definition outstanding :: "nat \<Rightarrow> eng_cb list \<Rightarrow> nat" where
  "outstanding g cbs = length (filter (\<lambda>c. \<exists>k. c = CbKey k (KGroup g)) cbs)"

lemma outstanding_simps [simp]:
  "outstanding g [] = 0" "outstanding g (xs @ ys) = outstanding g xs + outstanding g ys"
  "outstanding g (CbKey k cb # cbs) = (if cb = KGroup g then 1 else 0) + outstanding g cbs"
  "outstanding g (CbGroup c u # cbs) = outstanding g cbs" "outstanding g (CbWrite k v # cbs) = outstanding g cbs"
  by (auto simp: outstanding_def)

lemma outstanding_map [simp]:
  "outstanding g (map (\<lambda>k. CbKey k cb) ks) = (if cb = KGroup g then length ks else 0)"
  by (induction ks) auto

text \<open>What the settings panel relies on: a listed key has a definition under its own name and
  a value; and the shared counter of a fallback read is the number of its replies to come.\<close>

definition eng_inv :: "engine \<Rightarrow> bool" where
  "eng_inv e \<longleftrightarrow>
     (\<forall>c ks. en_groupKeys e c = Some ks \<longrightarrow> set ks \<subseteq> dom (en_defs e))
     \<and> (\<forall>g gr. en_groups e g = Some gr \<longrightarrow> set (gr_okKeys gr) \<subseteq> dom (en_defs e)
          \<and> gr_pending gr = int (outstanding g (en_pending e)))
     \<and> (\<forall>g. en_groups e g = None \<longrightarrow> outstanding g (en_pending e) = 0)
     \<and> (\<forall>g. en_next e \<le> g \<longrightarrow> en_groups e g = None)
     \<and> (\<forall>k d. en_defs e k = Some d \<longrightarrow> sv_key d = k)
     \<and> dom (en_defs e) \<subseteq> dom (en_values e)
     \<and> (en_pending e \<noteq> [] \<longrightarrow> en_transport e)"

lemma read_keys_transport:
  "en_transport e \<Longrightarrow>
   read_keys ks cb e = (e\<lparr>en_pending := en_pending e @ map (\<lambda>k. CbKey k cb) ks\<rparr>,
     map (\<lambda>k. EnRequest ''/ctrl/get'' [(''k'', k)] (CbKey k cb)) ks)"
  by (induction ks arbitrary: e) (simp_all add: readKey_def request_query_def)

lemma read_groups_transport:
  "en_transport e \<Longrightarrow>
   read_groups cs e = (e\<lparr>en_pending := en_pending e @ map (\<lambda>c. CbGroup c None) cs\<rparr>,
     map (\<lambda>c. EnRequest ''/ctrl/getbatch'' [(''catalog'', c)] (CbGroup c None)) cs)"
  by (induction cs arbitrary: e) (simp_all add: readGroup_def request_query_def)

lemma outstanding_groups [simp]: "outstanding g (map (\<lambda>c. CbGroup c u) cs) = 0"
  by (induction cs) auto

lemma readGroupByKeys_inv:
  assumes "eng_inv e" "en_transport e"
  shows "eng_inv (fst (readGroupByKeys c cb e))"
proof (cases "catalog_keys c = []")
  case True
  then show ?thesis using assms by (auto simp: readGroupByKeys_def eng_inv_def)
next
  case False
  have "en_groups e (en_next e) = None" using assms(1) by (simp add: eng_inv_def)
  with False assms show ?thesis
    by (auto simp: readGroupByKeys_def eng_inv_def read_keys_transport Let_def)
qed

lemma applyBatch_inv:
  assumes "eng_inv e"
  shows "eng_inv (fst (applyBatch num c doc e))"
proof -
  obtain e1 ks es1 where a: "apply_cfgs num (jtoArray (jfield doc ''cfgs'')) e = (e1, ks, es1)"
    by (cases "apply_cfgs num (jtoArray (jfield doc ''cfgs'')) e")
  note S = apply_cfgs_spec [OF a]
  note F = caches_only_fields [of e e1]
  have key: "sv_key d = k" if "en_defs e1 k = Some d" for k d
  proof (cases "k = []")
    case True
    then show ?thesis using that S assms by (auto simp: eng_inv_def)
  next
    case False
    then show ?thesis using S that assms by (auto simp: eng_inv_def setting_of_def split: option.splits)
  qed
  have co: "caches_only e e1" and dd: "dom (en_defs e1) = dom (en_defs e) \<union> set ks"
      "dom (en_values e1) = dom (en_values e) \<union> set ks"
    using S by blast+
  show ?thesis
    using assms key unfolding applyBatch_def a eng_inv_def by (simp add: F [OF co] dd) blast
qed

lemma eng_inv_pop:
  assumes "eng_inv e" "en_pending e = cb # cbs" "\<And>k g. cb \<noteq> CbKey k (KGroup g)"
  shows "eng_inv (e\<lparr>en_pending := cbs\<rparr>)" "en_transport (e\<lparr>en_pending := cbs\<rparr>)"
proof -
  have "outstanding g (cb # cbs) = outstanding g cbs" for g using assms(3) by (cases cb) auto
  with assms(1,2) show "eng_inv (e\<lparr>en_pending := cbs\<rparr>)" by (auto simp: eng_inv_def)
  show "en_transport (e\<lparr>en_pending := cbs\<rparr>)" using assms(1,2) by (auto simp: eng_inv_def)
qed

lemma readGroup_reply_inv:
  "eng_inv e \<Longrightarrow> en_transport e \<Longrightarrow> eng_inv (fst (readGroup_reply parse num c cb rsp e))"
  using readGroupByKeys_inv [of e c cb] applyBatch_inv [of e num c]
  by (auto simp: readGroup_reply_def split_beta split: option.split json.split)

lemma writeKey_reply_inv:
  assumes "eng_inv e" "en_transport e"
  shows "eng_inv (fst (writeKey_reply k v rsp e))"
  using assms by (auto simp: writeKey_reply_def applyDependencies_def read_groups_transport eng_inv_def)

lemma store_setting_inv:
  assumes "eng_inv e" "sv_key v = k"
  shows "eng_inv (e\<lparr>en_values := (en_values e)(k \<mapsto> sv_value v), en_defs := (en_defs e)(k \<mapsto> v)\<rparr>)"
  using assms unfolding eng_inv_def by (simp; blast)

lemma sv_key_reply_value [simp]: "sv_key (reply_value parse num key rsp) = key"
  by (simp add: reply_value_def setting_of_def sv_default_def split: option.split json.split)

text \<open>The reply to one key of fallback read \<open>g\<close>: its counter and the pending list go down
  together.\<close>

lemma group_key_reply_inv:
  assumes inv: "eng_inv e" and pend: "en_pending e = CbKey k (KGroup g) # cbs" and "sv_key v = k" "k \<in> dom (en_defs e)"
  shows "eng_inv (fst (key_done (KGroup g) v (e\<lparr>en_pending := cbs\<rparr>)))"
proof -
  have "en_groups e g \<noteq> None" using inv pend by (auto simp: eng_inv_def)
  then obtain gr where gr: "en_groups e g = Some gr" by blast
  have cnt: "gr_pending gr = 1 + int (outstanding g cbs)" "set (gr_okKeys gr) \<subseteq> dom (en_defs e)"
    using inv pend gr by (auto simp: eng_inv_def)
  have rest: "outstanding h (en_pending e) = outstanding h cbs" if "h \<noteq> g" for h
    using pend that by simp
  have "\<not> en_next e \<le> g" using inv gr by (auto simp: eng_inv_def)
  with inv gr cnt assms(3,4) pend rest show ?thesis
    unfolding eng_inv_def by (simp add: Let_def)
qed

lemma eng_reply_inv:
  assumes "eng_inv e" "en_pending e = cb # cbs"
  shows "eng_inv (fst (eng_reply parse num cb rsp (e\<lparr>en_pending := cbs\<rparr>)))"
proof (cases cb)
  case (CbGroup c u)
  with eng_inv_pop [OF assms] show ?thesis by (simp add: readGroup_reply_inv)
next
  case (CbWrite k v)
  with eng_inv_pop [OF assms] show ?thesis by (simp add: writeKey_reply_inv)
next
  case (CbKey k kc)
  let ?st = "\<lambda>v e. e\<lparr>en_values := (en_values e)(k \<mapsto> sv_value v), en_defs := (en_defs e)(k \<mapsto> v)\<rparr>"
  define v where "v = reply_value parse num k rsp"
  have v: "sv_key v = k"
      "readKey_reply parse num k kc rsp (e\<lparr>en_pending := cbs\<rparr>) =
        (case key_done kc v (?st v (e\<lparr>en_pending := cbs\<rparr>)) of (e2, es) \<Rightarrow> (e2, EnValueChanged k (sv_value v) # es))"
    by (simp_all add: v_def readKey_reply_def Let_def)
  have "eng_inv (fst (key_done kc v (?st v (e\<lparr>en_pending := cbs\<rparr>))))"
  proof (cases kc)
    case (KGroup g)
    have eq: "?st v (e\<lparr>en_pending := cbs\<rparr>) = (?st v e)\<lparr>en_pending := cbs\<rparr>" by simp
    have "eng_inv (?st v e)" using store_setting_inv assms(1) v(1) by blast
    then have "eng_inv (fst (key_done (KGroup g) v ((?st v e)\<lparr>en_pending := cbs\<rparr>)))"
      by (rule group_key_reply_inv [of _ k]) (use assms(2) CbKey KGroup v(1) in auto)
    then show ?thesis unfolding KGroup eq .
  qed (use eng_inv_pop [OF assms] store_setting_inv [OF eng_inv_pop(1) [OF assms] v(1)] CbKey in auto)
  then show ?thesis by (simp add: CbKey v(2) split_beta)
qed

lemma eng_step_inv: "eng_inv e \<Longrightarrow> eng_inv (fst (eng_step parse num i e))"
proof (cases i)
  case (EnReply rsp)
  assume "eng_inv e"
  then show ?thesis using eng_reply_inv [of e] by (cases "en_pending e") (simp_all add: EnReply)
qed (auto simp: readGroup_def readKey_def writeKey_def request_query_def eng_inv_def)

interpretation eng: trace_system "eng_step parse num" eng_inv for parse num
  by unfold_locales (rule eng_step_inv)

lemma en_init_inv [simp]: "eng_inv (setTransport t en_init)"
  by (simp add: eng_inv_def en_init_def setTransport_def)

lemma eng_inv_listed:
  assumes "eng_inv e" "k \<in> set (groupKeys c e)"
  shows "\<exists>d. en_definition k e = Some d \<and> sv_key d = k \<and> k \<in> dom (en_values e)"
proof -
  obtain ks where "en_groupKeys e c = Some ks" "k \<in> set ks"
    using assms(2) by (cases "en_groupKeys e c") (auto simp: groupKeys_def)
  with assms(1) have "k \<in> dom (en_defs e)" unfolding eng_inv_def by blast
  moreover have "dom (en_defs e) \<subseteq> dom (en_values e)" "\<And>k d. en_defs e k = Some d \<Longrightarrow> sv_key d = k"
    using assms(1) by (simp_all add: eng_inv_def)
  ultimately show ?thesis by (fastforce simp: en_definition_def)
qed

text \<open>
  Whatever is read and written and however the camera answers, every key a group lists
  has a cached definition under its own name, and a cached value: the settings panel never
  meets a listed key without metadata.
\<close>

theorem settings_listed_keys_defined:
  assumes "k \<in> set (groupKeys catalog (fst (run_trace (eng_step parse num) inputs (setTransport t en_init))))"
  shows "\<exists>d. en_definition k (fst (run_trace (eng_step parse num) inputs (setTransport t en_init))) = Some d
    \<and> sv_key d = k \<and> k \<in> dom (en_values (fst (run_trace (eng_step parse num) inputs (setTransport t en_init))))"
  using eng_inv_listed [OF eng.run_inv assms] by simp

definition ok_response :: "string \<Rightarrow> http_response" where
  "ok_response body = \<lparr>statusCode = 200, rsp_body = body, errorText = [], finalUrl = [], timedOut = False\<rparr>"

definition batch_run :: "eng_input list" where
  "batch_run = [EnReadGroup ''exposure'' None, EnReply (ok_response ''{}'')]"

theorem settings_listed_keys_defined_witness:
  "\<exists>d. en_definition ''iso''
      (fst (run_trace (eng_step (\<lambda>_. Some (JObj batch_example)) (\<lambda>_. [])) batch_run (setTransport True en_init))) = Some d
     \<and> sv_key d = ''iso'' \<and> ''iso'' \<in> dom (en_values
      (fst (run_trace (eng_step (\<lambda>_. Some (JObj batch_example)) (\<lambda>_. [])) batch_run (setTransport True en_init))))"
  by (rule settings_listed_keys_defined [where catalog = "''exposure''"])
    (simp add: batch_run_def readGroup_def request_query_def setTransport_def en_init_def readGroup_reply_def
      applyBatch_def batch_example_def apply_cfg_def groupKeys_def group_done_def Let_def)

subsection \<open>The per-key fallback\<close>

lemma fallback_replies:
  assumes "en_pending e = map (\<lambda>k. CbKey k (KGroup g)) ks @ rest" "en_groups e g = Some gr"
    and "gr_pending gr = int (length ks)" "ks \<noteq> []" "length rs = length ks"
    and "run_trace (eng_step parse num) (map EnReply rs) e = (e', es)"
  shows "groupKeys (gr_catalog gr) e' = gr_okKeys gr
        @ map fst (filter (\<lambda>(k, r). sv_supported (reply_value parse num k r)) (zip ks rs))
    \<and> en_pending e' = rest
    \<and> es = map (\<lambda>(k, r). EnValueChanged k (sv_value (reply_value parse num k r))) (zip ks rs)
        @ EnGroupRefreshed (gr_catalog gr) # group_done (gr_cb gr) True"
  using assms
proof (induction ks arbitrary: e gr rs es)
  case (Cons k ks)
  obtain r rs' where rs: "rs = r # rs'" using Cons.prems(5) by (cases rs) auto
  let ?v = "reply_value parse num k r"
  let ?ok = "if sv_supported ?v then gr_okKeys gr @ [k] else gr_okKeys gr"
  let ?gr = "gr\<lparr>gr_okKeys := ?ok, gr_pending := int (length ks)\<rparr>"
  show ?case
  proof (cases "ks = []")
    case True
    then have "rs' = []" using Cons.prems(5) rs by simp
    with Cons.prems True show ?thesis
      by (auto simp: rs readKey_reply_def Let_def groupKeys_def)
  next
    case False
    let ?e = "e\<lparr>en_pending := map (\<lambda>k. CbKey k (KGroup g)) ks @ rest,
        en_values := (en_values e)(k \<mapsto> sv_value ?v), en_defs := (en_defs e)(k \<mapsto> ?v),
        en_groups := (en_groups e)(g \<mapsto> ?gr)\<rparr>"
    have step: "eng_step parse num (EnReply r) e = (?e, [EnValueChanged k (sv_value ?v)])"
      using Cons.prems(1-3) False by (simp add: readKey_reply_def Let_def)
    obtain es' where es': "run_trace (eng_step parse num) (map EnReply rs') ?e = (e', es')"
        "es = EnValueChanged k (sv_value ?v) # es'"
      using Cons.prems(6) unfolding rs list.map run_trace.simps step
      by (auto split: prod.splits)
    have "groupKeys (gr_catalog ?gr) e' = gr_okKeys ?gr
        @ map fst (filter (\<lambda>(k, r). sv_supported (reply_value parse num k r)) (zip ks rs'))
      \<and> en_pending e' = rest
      \<and> es' = map (\<lambda>(k, r). EnValueChanged k (sv_value (reply_value parse num k r))) (zip ks rs')
        @ EnGroupRefreshed (gr_catalog ?gr) # group_done (gr_cb ?gr) True"
      by (rule Cons.IH [OF _ _ _ False _ es'(1)]) (use Cons.prems(5) rs in auto)
    with es'(2) rs show ?thesis by auto
  qed
qed simp

text \<open>
  On firmware without \<^verbatim>\<open>/ctrl/getbatch\<close> (a reply that is no JSON object) a group read
  asks for every schema key in order, and once the last of these reads is answered the group
  lists exactly the supported ones in schema order, is announced once, and its callback is
  told success; earlier replies announce nothing.
\<close>

theorem settings_fallback_group:
  assumes "en_transport e" "en_pending e = [CbGroup catalog cb]" "catalog_keys catalog \<noteq> []"
    and "\<forall>o1. parse (rsp_body r0) \<noteq> Some (JObj o1)" "length rs = length (catalog_keys catalog)"
  shows "let r = run_trace (eng_step parse num) (map EnReply (r0 # rs)) e; ks = catalog_keys catalog in
    groupKeys catalog (fst r)
      = map fst (filter (\<lambda>(k, rsp). sv_supported (reply_value parse num k rsp)) (zip ks rs))
    \<and> en_pending (fst r) = []
    \<and> (\<exists>g. snd r = map (\<lambda>k. EnRequest ''/ctrl/get'' [(''k'', k)] (CbKey k (KGroup g))) ks
        @ map (\<lambda>(k, rsp). EnValueChanged k (sv_value (reply_value parse num k rsp))) (zip ks rs)
        @ EnGroupRefreshed catalog # group_done cb True)"
proof -
  let ?ks = "catalog_keys catalog" and ?g = "en_next e"
  let ?gr = "\<lparr>gr_catalog = catalog, gr_pending = int (length ?ks), gr_okKeys = [], gr_cb = cb\<rparr>"
  let ?e1 = "e\<lparr>en_pending := map (\<lambda>k. CbKey k (KGroup ?g)) ?ks, en_next := ?g + 1,
      en_groups := (en_groups e)(?g \<mapsto> ?gr)\<rparr>"
  have "readGroup_reply parse num catalog cb r0 (e\<lparr>en_pending := []\<rparr>)
      = readGroupByKeys catalog cb (e\<lparr>en_pending := []\<rparr>)"
    using assms(4) by (auto simp: readGroup_reply_def split: option.split json.split)
  then have step: "eng_step parse num (EnReply r0) e =
      (?e1, map (\<lambda>k. EnRequest ''/ctrl/get'' [(''k'', k)] (CbKey k (KGroup ?g))) ?ks)"
    using assms(1-3) by (simp add: readGroupByKeys_def read_keys_transport Let_def)
  obtain e' es where r: "run_trace (eng_step parse num) (map EnReply rs) ?e1 = (e', es)" by fastforce
  have "groupKeys (gr_catalog ?gr) e' = gr_okKeys ?gr
        @ map fst (filter (\<lambda>(k, r). sv_supported (reply_value parse num k r)) (zip ?ks rs))
    \<and> en_pending e' = []
    \<and> es = map (\<lambda>(k, r). EnValueChanged k (sv_value (reply_value parse num k r))) (zip ?ks rs)
        @ EnGroupRefreshed (gr_catalog ?gr) # group_done (gr_cb ?gr) True"
    by (rule fallback_replies [where g = ?g, OF _ _ _ assms(3,5) r]) simp_all
  then show ?thesis
    unfolding Let_def list.map run_trace.simps step prod.case r fst_conv snd_conv by auto
qed

definition network_read :: engine where
  "network_read = fst (readGroup ''network'' (Some 1) (setTransport True en_init))"

definition parse_example :: "string \<Rightarrow> json option" where
  "parse_example body =
     (if body = ''no'' then Some (JObj [(''code'', JNum (- 1))])
      else if body = ''yes'' then Some (JObj [(''code'', JNum 0), (''value'', JStr ''On'')]) else None)"

theorem settings_fallback_group_witness:
  "groupKeys ''network'' (fst (run_trace (eng_step parse_example (\<lambda>_. []))
     (map EnReply (ok_response ''404'' # [ok_response ''yes'', ok_response ''no''])) network_read)) = [''wifi'']"
proof -
  have ks: "catalog_keys ''network'' = [''wifi'', ''wifi_channel'']" by code_simp
  have "let r = run_trace (eng_step parse_example (\<lambda>_. []))
        (map EnReply (ok_response ''404'' # [ok_response ''yes'', ok_response ''no''])) network_read;
        ks = catalog_keys ''network'' in
    groupKeys ''network'' (fst r)
      = map fst (filter (\<lambda>(k, rsp). sv_supported (reply_value parse_example (\<lambda>_. []) k rsp))
          (zip ks [ok_response ''yes'', ok_response ''no'']))
    \<and> en_pending (fst r) = []
    \<and> (\<exists>g. snd r = map (\<lambda>k. EnRequest ''/ctrl/get'' [(''k'', k)] (CbKey k (KGroup g))) ks
        @ map (\<lambda>(k, rsp). EnValueChanged k (sv_value (reply_value parse_example (\<lambda>_. []) k rsp)))
            (zip ks [ok_response ''yes'', ok_response ''no''])
        @ EnGroupRefreshed ''network'' # group_done (Some 1) True)"
    by (rule settings_fallback_group)
      (simp_all add: ks network_read_def readGroup_def request_query_def setTransport_def en_init_def
        ok_response_def parse_example_def)
  then show ?thesis
    by (simp add: Let_def ks reply_value_def parse_example_def ok_response_def setting_of_def
        floor_eq_iff del: run_trace.simps eng_step.simps)
qed

text \<open>
  A fallback read of which no request is answered with a JSON object (the camera went
  away, every request timed out) ends with the group listing all schema keys as supported and
  every cached value announced as the empty string.
\<close>

theorem settings_failed_reads_look_supported:
  assumes "en_transport e" "en_pending e = [CbGroup catalog cb]" "catalog_keys catalog \<noteq> []"
    and "\<forall>body o1. parse body \<noteq> Some (JObj o1)" "length rs = length (catalog_keys catalog)"
  shows "let r = run_trace (eng_step parse num) (map EnReply (r0 # rs)) e in
    groupKeys catalog (fst r) = catalog_keys catalog
    \<and> (\<forall>k\<in>set (catalog_keys catalog). EnValueChanged k [] \<in> set (snd r))"
proof -
  have d: "reply_value parse num k rsp = sv_default k" for k rsp
    using assms(4) by (auto simp: reply_value_def split: option.split json.split)
  let ?ks = "catalog_keys catalog" and ?g = "en_next e"
  let ?gr = "\<lparr>gr_catalog = catalog, gr_pending = int (length ?ks), gr_okKeys = [], gr_cb = cb\<rparr>"
  let ?e1 = "e\<lparr>en_pending := map (\<lambda>k. CbKey k (KGroup ?g)) ?ks, en_next := ?g + 1,
      en_groups := (en_groups e)(?g \<mapsto> ?gr)\<rparr>"
  have step: "fst (eng_step parse num (EnReply r0) e) = ?e1"
    using assms(1-4) by (auto simp: readGroup_reply_def readGroupByKeys_def read_keys_transport Let_def
        split: option.split json.split)
  obtain e' es where r: "run_trace (eng_step parse num) (map EnReply rs) ?e1 = (e', es)" by fastforce
  note F = fallback_replies [where g = ?g, OF _ _ _ assms(3,5) r]
  have "groupKeys catalog e' = ?ks" and ev: "es = map (\<lambda>k. EnValueChanged k []) ?ks @ EnGroupRefreshed catalog # group_done cb True"
    using F [of "[]" ?gr] assms(5) by (simp_all add: d sv_default_def map2_left)
  then show ?thesis
    unfolding Let_def list.map run_trace_Cons_eq step r by simp
qed

theorem settings_failed_reads_look_supported_witness:
  "groupKeys ''network'' (fst (run_trace (eng_step (\<lambda>_. None) (\<lambda>_. []))
     (map EnReply (ok_response [] # [ok_response [], ok_response []])) network_read)) = [''wifi'', ''wifi_channel'']"
proof -
  have ks: "catalog_keys ''network'' = [''wifi'', ''wifi_channel'']" by code_simp
  have "let r = run_trace (eng_step (\<lambda>_. None) (\<lambda>_. []))
        (map EnReply (ok_response [] # [ok_response [], ok_response []])) network_read in
    groupKeys ''network'' (fst r) = catalog_keys ''network''
    \<and> (\<forall>k\<in>set (catalog_keys ''network''). EnValueChanged k [] \<in> set (snd r))"
    by (rule settings_failed_reads_look_supported [where cb = "Some 1"])
      (simp_all add: ks network_read_def readGroup_def request_query_def setTransport_def en_init_def)
  then show ?thesis by (simp only: Let_def ks)
qed

subsection \<open>Writes\<close>

text \<open>
  A write that the camera answers with status 200 caches the written value and requests a
  re-read of exactly the groups the dependency table names for the key, in table order, behind
  everything already queued; any other status changes no cached state. Either way the write is
  reported finished, last.
\<close>

theorem settings_write_rereads_dependents:
  assumes "eng_inv e" "en_pending e = CbWrite key v # cbs"
  shows "let r = eng_step parse num (EnReply rsp) e in
    if statusCode rsp = 200 then
      fst r = e\<lparr>en_values := (en_values e)(key \<mapsto> v),
                en_pending := cbs @ map (\<lambda>c. CbGroup c None) (dependent_groups key)\<rparr>
      \<and> snd r = EnValueChanged key v
          # map (\<lambda>c. EnRequest ''/ctrl/getbatch'' [(''catalog'', c)] (CbGroup c None)) (dependent_groups key)
          @ [EnWriteFinished key True]
    else fst r = e\<lparr>en_pending := cbs\<rparr> \<and> snd r = [EnWriteFinished key False]"
proof -
  have "en_transport e" using assms by (auto simp: eng_inv_def)
  then show ?thesis
    using assms(2) by (simp add: Let_def writeKey_reply_def applyDependencies_def read_groups_transport)
qed

definition write_example :: engine where
  "write_example = fst (writeKey ''movvfr'' ''On'' (setTransport True en_init))"

theorem settings_write_rereads_dependents_witness:
  "snd (eng_step (\<lambda>_. None) (\<lambda>_. []) (EnReply (ok_response [])) write_example)
   = [EnValueChanged ''movvfr'' ''On'', EnRequest ''/ctrl/getbatch'' [(''catalog'', ''record'')] (CbGroup ''record'' None),
      EnRequest ''/ctrl/getbatch'' [(''catalog'', ''video'')] (CbGroup ''video'' None), EnWriteFinished ''movvfr'' True]"
proof -
  have "eng_inv write_example" unfolding write_example_def
    using eng_step_inv [OF en_init_inv, of _ _ "EnWriteKey ''movvfr'' ''On''" True] by simp
  moreover have "en_pending write_example = CbWrite ''movvfr'' ''On'' # []"
    by (simp add: write_example_def writeKey_def setTransport_def request_query_def en_init_def)
  moreover have "dependent_groups ''movvfr'' = [''record'', ''video'']" by code_simp
  ultimately show ?thesis
    using settings_write_rereads_dependents [of write_example "''movvfr''" "''On''" "[]" "\<lambda>_. None" "\<lambda>_. []" "ok_response []"]
    by (simp add: Let_def ok_response_def del: eng_step.simps)
qed

end
