(* ===== verification/Camera_Client.thy ===== *)
theory Camera_Client
  imports Ws_Notifier Settings_Engine
begin

text \<open>
  The camera facade of \<^verbatim>\<open>src/cameractrl/zc_camera_client.cpp\<close>: it owns the transport, the
  notification socket and the settings engine and turns typed operations into requests.

  The record \<open>camera_client\<close> has one field per member. A callback handed to the transport is a
  value of \<open>cc_cb\<close>; a callback of the caller is named by a number. The settings engine issues
  its requests through the same transport, as callbacks \<open>CcEngine\<close>. When a reply finishes,
  the transport decides whether it retries or completes (\<open>onFinished\<close>); on completion the
  callback runs on the client and the requests it makes are the calls the transport then
  executes. Besides the parameters of the components, \<open>qenc\<close> is \<^verbatim>\<open>QUrlQuery\<close>'s encoding and
  \<open>probe\<close> the reply of the camera to a probe of an origin. The nested event loop of origin
  negotiation is modelled as a call that processes no other event.
\<close>

datatype cc_cb =
    CcNone
  | CcEngine eng_cb
  | CcInfo
  | CcStatus
  | CcObject nat
  | CcTraceState nat
  | CcBytes nat

datatype cc_event =
    SigStatusChanged jobject
  | SigModeChanged string
  | SigRecordingStarted
  | SigRecordingStopped
  | SigRecordingDuration int
  | SigRecordingRemaining int
  | SigTemperatureChanged rat
  | SigConfigChanged string string
  | SigAfAreaChanged rat rat rat rat
  | SigCameraInfoChanged
  | SigConnectionStateChanged bool
  | CcHttp "cc_cb ht_event"
  | CcNotifier nt_event
  | CcSettings eng_event
  | CcObjectReady nat jobject
  | CcTraceStateReady nat int
  | CcBytesReady nat string

record camera_client =
  cc_transport :: "cc_cb http"
  cc_notifier :: notifier
  cc_settings :: engine
  cc_connected :: bool
  cc_host :: string
  cc_mode :: string
  cc_recording :: bool
  cc_temperature :: rat
  cc_model :: string
  cc_supportsPtz :: bool
  cc_hudValues :: jobject

definition cc_init :: camera_client where
  "cc_init = \<lparr>cc_transport = ht_init, cc_notifier = nt_init, cc_settings = setTransport True en_init,
     cc_connected = False, cc_host = [], cc_mode = [], cc_recording = False, cc_temperature = - 1,
     cc_model = [], cc_supportsPtz = False, cc_hudValues = []\<rparr>"

subsection \<open>Requests\<close>

text \<open>Recording, lens and pan/tilt commands: path and query of the request.\<close>

datatype camera_cmd =
    StartRecording | StopRecording | CapturePhoto | SetMode string
  | LensZoomIn int | LensZoomOut int | LensZoomStop
  | LensFocusNear int | LensFocusFar int | LensFocusStop | AfOnePush
  | PtzMove int int | PtzStop | PtzHome
  | PtzPresetSet int | PtzPresetRecall int | PtzPresetDelete int

fun cmd_request :: "camera_cmd \<Rightarrow> string \<times> url_query_items" where
  "cmd_request StartRecording = (''/ctrl/rec'', [(''action'', ''start'')])"
| "cmd_request StopRecording = (''/ctrl/rec'', [(''action'', ''stop'')])"
| "cmd_request CapturePhoto = (''/ctrl/still'', [(''action'', ''cap'')])"
| "cmd_request (SetMode m) = (''/ctrl/mode'', [(''action'', m)])"
| "cmd_request (LensZoomIn speed) = (''/ctrl/lens'', [(''action'', ''zoomin''), (''fspeed'', number speed)])"
| "cmd_request (LensZoomOut speed) = (''/ctrl/lens'', [(''action'', ''zoomout''), (''fspeed'', number speed)])"
| "cmd_request LensZoomStop = (''/ctrl/lens'', [(''action'', ''zoomstop'')])"
| "cmd_request (LensFocusNear speed) = (''/ctrl/lens'', [(''action'', ''focusnear''), (''fspeed'', number speed)])"
| "cmd_request (LensFocusFar speed) = (''/ctrl/lens'', [(''action'', ''focusfar''), (''fspeed'', number speed)])"
| "cmd_request LensFocusStop = (''/ctrl/lens'', [(''action'', ''focusstop'')])"
| "cmd_request AfOnePush = (''/ctrl/af'', [])"
| "cmd_request (PtzMove pan tilt) =
     (''/ctrl/pt'', [(''action'', ''pt''), (''pan_speed'', number pan), (''tilt_speed'', number tilt)])"
| "cmd_request PtzStop = (''/ctrl/pt'', [(''action'', ''stop'')])"
| "cmd_request PtzHome = (''/ctrl/pt'', [(''action'', ''home'')])"
| "cmd_request (PtzPresetSet i) = (''/ctrl/preset'', presetQuery ''set'' i [])"
| "cmd_request (PtzPresetRecall i) = (''/ctrl/preset'', presetQuery ''recall'' i [])"
| "cmd_request (PtzPresetDelete i) = (''/ctrl/preset'', presetQuery ''del'' i [])"

text \<open>Preset and trace slots and the stream documents.\<close>

datatype slot_cmd =
    PtzPresetInfo int nat | PtzPresetSetName int string | PtzPresetSetSpeedUnit int int
  | PtzPresetSetSpeedByIndex int int | PtzPresetSetSpeedByDuration int int | PtzPresetThumbnail int nat
  | PtraceDelete int | PtraceSetName int string | PtraceRecordStart int | PtraceRecordStop
  | PtracePlayPrepare int | PtracePlayStart | PtracePlayStop
  | PtraceQuery nat | PtraceInfo int nat | PtraceThumbnail int nat

definition sendPreset :: "(url_query_items \<Rightarrow> string) \<Rightarrow> string \<Rightarrow> int \<Rightarrow> url_query_items \<Rightarrow> cc_cb api_call" where
  "sendPreset qenc action index extra =
     GetQuery ''/ctrl/preset'' (qenc (presetQuery action index extra)) CcNone 20000"

definition sendPtrace :: "(url_query_items \<Rightarrow> string) \<Rightarrow> string \<Rightarrow> int \<Rightarrow> url_query_items \<Rightarrow> cc_cb api_call" where
  "sendPtrace qenc action index extra =
     GetQuery ''/ctrl/ptrace'' (qenc (ptraceQuery action index extra)) CcNone 20000"

fun slot_call :: "(url_query_items \<Rightarrow> string) \<Rightarrow> slot_cmd \<Rightarrow> cc_cb api_call" where
  "slot_call qenc (PtzPresetInfo i cb) =
     GetQuery ''/ctrl/preset'' (qenc (presetQuery ''get_info'' i [])) (CcObject cb) 20000"
| "slot_call qenc (PtzPresetSetName i name) = sendPreset qenc ''set_name'' i [(''new_name'', name)]"
| "slot_call qenc (PtzPresetSetSpeedUnit i unit) =
     sendPreset qenc ''preset_speed'' i [(''preset_speed_unit'', number unit)]"
| "slot_call qenc (PtzPresetSetSpeedByIndex i speed) =
     sendPreset qenc ''preset_speed'' i [(''preset_speed'', number speed)]"
| "slot_call qenc (PtzPresetSetSpeedByDuration i seconds) =
     sendPreset qenc ''preset_speed'' i [(''preset_time'', number (seconds * 1000))]"
| "slot_call qenc (PtzPresetThumbnail i cb) = Get (presetThumbnailPath i) (CcBytes cb) 20000"
| "slot_call qenc (PtraceDelete i) = sendPtrace qenc ''del'' i []"
| "slot_call qenc (PtraceSetName i name) = sendPtrace qenc ''set_name'' i [(''new_name'', name)]"
| "slot_call qenc (PtraceRecordStart i) = sendPtrace qenc ''rec_start'' i []"
| "slot_call qenc PtraceRecordStop = sendPtrace qenc ''rec_stop'' (- 1) []"
| "slot_call qenc (PtracePlayPrepare i) = sendPtrace qenc ''play_prepare'' i []"
| "slot_call qenc PtracePlayStart = sendPtrace qenc ''play_start'' (- 1) []"
| "slot_call qenc PtracePlayStop = sendPtrace qenc ''play_stop'' (- 1) []"
| "slot_call qenc (PtraceQuery cb) =
     GetQuery ''/ctrl/ptrace'' (qenc (ptraceQuery ''query'' (- 1) [])) (CcTraceState cb) 20000"
| "slot_call qenc (PtraceInfo i cb) =
     GetQuery ''/ctrl/ptrace'' (qenc (ptraceQuery ''get_info'' i [])) (CcObject cb) 20000"
| "slot_call qenc (PtraceThumbnail i cb) = Get (ptraceThumbnailPath i) (CcBytes cb) 20000"

definition sendStreamSetting ::
  "(url_query_items \<Rightarrow> string) \<Rightarrow> string \<Rightarrow> url_query_items \<Rightarrow> nat \<Rightarrow> cc_cb api_call" where
  "sendStreamSetting qenc index params cb =
     GetQuery ''/ctrl/stream_setting'' (qenc (streamSettingQuery index params)) (CcObject cb) 20000"

text \<open>Settings requests as transport calls; every other engine event is a signal.\<close>

fun engine_calls :: "(url_query_items \<Rightarrow> string) \<Rightarrow> eng_event list \<Rightarrow> cc_cb api_call list" where
  "engine_calls qenc [] = []"
| "engine_calls qenc (EnRequest path query cb # es) =
     GetQuery path (qenc query) (CcEngine cb) 20000 # engine_calls qenc es"
| "engine_calls qenc (_ # es) = engine_calls qenc es"

subsection \<open>Replies\<close>

definition object_of :: "(string \<Rightarrow> json option) \<Rightarrow> http_response \<Rightarrow> jobject" where
  "object_of parse rsp = (case parse (rsp_body rsp) of Some (JObj o1) \<Rightarrow> o1 | _ \<Rightarrow> [])"

text \<open>What a completed request runs on the client: the new client, the calls it makes on the
  transport and its signals.\<close>

fun cc_reply ::
  "(string \<Rightarrow> json option) \<Rightarrow> (rat \<Rightarrow> string) \<Rightarrow> (url_query_items \<Rightarrow> string) \<Rightarrow> cc_cb \<Rightarrow> http_response
     \<Rightarrow> camera_client \<Rightarrow> camera_client \<times> cc_cb api_call list \<times> cc_event list" where
  "cc_reply parse num qenc CcNone rsp c = (c, [], [])"
| "cc_reply parse num qenc (CcEngine cb) rsp c =
     (case eng_reply parse num cb rsp ((cc_settings c)\<lparr>en_pending := tl (en_pending (cc_settings c))\<rparr>) of
        (e, es) \<Rightarrow> (c\<lparr>cc_settings := e\<rparr>, engine_calls qenc es, map CcSettings es))"
| "cc_reply parse num qenc CcInfo rsp c =
     (case parse (rsp_body rsp) of
        Some (JObj info) \<Rightarrow>
          (let model0 = jtoString (jfield info ''model'') in
           (c\<lparr>cc_model := (if model0 = [] then jtoString (jfield info ''cameraName'') else model0),
              cc_supportsPtz := cameraSupportsPtz info\<rparr>, [], [SigCameraInfoChanged]))
      | _ \<Rightarrow> (c, [], []))"
| "cc_reply parse num qenc CcStatus rsp c =
     (case parse (rsp_body rsp) of
        Some (JObj st) \<Rightarrow> (c\<lparr>cc_hudValues := st\<rparr>, [], [SigStatusChanged st])
      | _ \<Rightarrow> (c, [], []))"
| "cc_reply parse num qenc (CcObject n) rsp c = (c, [], [CcObjectReady n (object_of parse rsp)])"
| "cc_reply parse num qenc (CcTraceState n) rsp c =
     (c, [], [CcTraceStateReady n (case parse (rsp_body rsp) of
        Some (JObj o1) \<Rightarrow> jtoInt (- 1) (jfield o1 ''st_code'') | _ \<Rightarrow> - 1)])"
| "cc_reply parse num qenc (CcBytes n) rsp c =
     (c, [], [CcBytesReady n (if statusCode rsp = 200 then rsp_body rsp else [])])"

fun completion :: "cc_cb ht_event list \<Rightarrow> (cc_cb \<times> http_response) option" where
  "completion [] = None"
| "completion (HCallback cb rsp # es) = Some (cb, rsp)"
| "completion (_ # es) = completion es"

text \<open>The random sources: bytes for WebSocket masks, numbers for the client nonce.\<close>

record cc_env =
  env_md5hex :: "string \<Rightarrow> string"
  env_enc :: "string \<Rightarrow> string"
  env_rand :: "nat \<Rightarrow> nat"
  env_b64sha1 :: "string \<Rightarrow> string"
  env_mask :: "nat \<Rightarrow> u8"
  env_parse :: "string \<Rightarrow> json option"
  env_num :: "rat \<Rightarrow> string"
  env_qenc :: "url_query_items \<Rightarrow> string"

definition cc_finished :: "cc_env \<Rightarrow> net_reply \<Rightarrow> camera_client \<Rightarrow> camera_client \<times> cc_event list" where
  "cc_finished env reply c =
     (let run = (\<lambda>cb rsp. cc_reply (env_parse env) (env_num env) (env_qenc env) cb rsp c);
          (h, hes) = onFinished (env_md5hex env) (env_enc env) (\<lambda>_. True) (env_rand env)
                       (\<lambda>cb rsp. fst (snd (run cb rsp))) reply (cc_transport c) in
      case completion hes of
        None \<Rightarrow> (c\<lparr>cc_transport := h\<rparr>, map CcHttp hes)
      | Some (cb, rsp) \<Rightarrow>
          ((fst (run cb rsp))\<lparr>cc_transport := h\<rparr>, snd (snd (run cb rsp)) @ map CcHttp hes))"

subsection \<open>Operations\<close>

definition cc_call :: "cc_env \<Rightarrow> cc_cb api_call \<Rightarrow> camera_client \<Rightarrow> camera_client \<times> cc_event list" where
  "cc_call env call c =
     (case ht_call (env_md5hex env) (env_enc env) (\<lambda>_. True) call (cc_transport c) of
        (h, es) \<Rightarrow> (c\<lparr>cc_transport := h\<rparr>, map CcHttp es))"

definition cc_command :: "cc_env \<Rightarrow> camera_cmd \<Rightarrow> camera_client \<Rightarrow> camera_client \<times> cc_event list" where
  "cc_command env cmd c =
     (case cmd_request cmd of
        (path, query) \<Rightarrow>
          (case cc_call env (GetQuery path (env_qenc env query) CcNone 20000) c of
             (c1, es) \<Rightarrow>
               (case cmd of
                  StartRecording \<Rightarrow> (c1\<lparr>cc_recording := True\<rparr>, es)
                | StopRecording \<Rightarrow> (c1\<lparr>cc_recording := False\<rparr>, es)
                | _ \<Rightarrow> (c1, es))))"

definition cc_engine :: "cc_env \<Rightarrow> (engine \<Rightarrow> eng_result) \<Rightarrow> camera_client \<Rightarrow> camera_client \<times> cc_event list" where
  "cc_engine env f c =
     (case f (cc_settings c) of
        (e, es) \<Rightarrow>
          (case ht_calls (env_md5hex env) (env_enc env) (\<lambda>_. True) (engine_calls (env_qenc env) es) (cc_transport c) of
             (h, hes) \<Rightarrow> (c\<lparr>cc_settings := e, cc_transport := h\<rparr>, map CcSettings es @ map CcHttp hes)))"

definition refreshStatus :: "cc_env \<Rightarrow> camera_client \<Rightarrow> camera_client \<times> cc_event list" where
  "refreshStatus env c = cc_call env (Get ''/camera_status'' CcStatus 20000) c"

definition refreshCameraInfo :: "cc_env \<Rightarrow> camera_client \<Rightarrow> camera_client \<times> cc_event list" where
  "refreshCameraInfo env c = cc_call env (Get ''/info'' CcInfo 20000) c"

definition cc_connect ::
  "cc_env \<Rightarrow> (string \<Rightarrow> int \<Rightarrow> net_reply) \<Rightarrow> string \<Rightarrow> int \<Rightarrow> string \<Rightarrow> string \<Rightarrow> camera_client
     \<Rightarrow> bool \<times> camera_client \<times> cc_event list" where
  "cc_connect env probe host port user pass c =
     (let c1 = c\<lparr>cc_host := host, cc_transport := setCredentials user pass (cc_transport c)\<rparr> in
      case negotiateOrigin (env_rand env) probe host port (cc_transport c1) of
        (ok, h, es1) \<Rightarrow>
          (let c2 = c1\<lparr>cc_transport := h\<rparr> in
           if \<not> ok then (False, c2, map CcHttp es1)
           else if ht_auth_required h \<and> user = [] then (False, c2, map CcHttp es1)
           else
             (let https = starts_with ''https://'' (ht_base_url h) in
              case nt_start host https (upgradeHeaderBlock h) (cc_notifier c2) of
                (n, es2) \<Rightarrow>
                  (case refreshStatus env (c2\<lparr>cc_notifier := n\<rparr>) of
                     (c3, es3) \<Rightarrow>
                       (case refreshCameraInfo env c3 of
                          (c4, es4) \<Rightarrow>
                            (True, c4\<lparr>cc_connected := True\<rparr>,
                             map CcHttp es1 @ map CcNotifier es2 @ es3 @ es4
                               @ [SigConnectionStateChanged True]))))))"

definition cc_disconnect :: "cc_env \<Rightarrow> camera_client \<Rightarrow> camera_client \<times> cc_event list" where
  "cc_disconnect env c =
     (case nt_stop (env_mask env) (cc_notifier c) of
        (n, es1) \<Rightarrow>
          (let c1 = c\<lparr>cc_notifier := n\<rparr> in
           case (if cc_connected c1 then cc_call env (Get ''/ctrl/session?action=quit'' CcNone 1000) c1
                 else (c1, [])) of
             (c2, es2) \<Rightarrow>
               (c2\<lparr>cc_connected := False, cc_mode := [], cc_recording := False, cc_model := [],
                   cc_supportsPtz := False\<rparr>,
                map CcNotifier es1 @ es2 @ [SigCameraInfoChanged, SigConnectionStateChanged False])))"

definition setRecording :: "bool \<Rightarrow> camera_client \<Rightarrow> camera_client" where
  "setRecording r c = (if cc_recording c \<noteq> r then c\<lparr>cc_recording := r\<rparr> else c)"

definition first_nonempty :: "string list \<Rightarrow> string" where
  "first_nonempty ss = (case find (\<lambda>s. s \<noteq> []) ss of None \<Rightarrow> [] | Some s \<Rightarrow> s)"

definition handleWsEvent :: "string \<Rightarrow> jobject \<Rightarrow> camera_client \<Rightarrow> camera_client \<times> cc_event list" where
  "handleWsEvent what obj c =
     (if what = ''camera_status'' then
        (c, SigStatusChanged obj
          # (if jcontains obj ''temperature'' then [SigTemperatureChanged (jtoDouble 0 (jfield obj ''temperature''))] else [])
          @ (if jcontains obj ''mode'' then [SigModeChanged (jtoString (jfield obj ''mode''))] else []))
      else if what = ''RecStarted'' then (setRecording True c, [SigRecordingStarted])
      else if what = ''RecStoped'' then (setRecording False c, [SigRecordingStopped])
      else if what = ''RecUpdateDur'' then
        (let idx = jtoInt 0 (jfield obj ''index''); seconds = jtoInt 0 (jfield obj ''value'') in
         (c, if idx = 1 \<and> seconds > 0 then [SigRecordingDuration seconds] else []))
      else if what = ''RecUpdateRemain'' then
        (c, case to_int (jtoString (jfield obj ''value'')) of
              Some seconds \<Rightarrow> [SigRecordingRemaining seconds]
            | None \<Rightarrow>
                (case to_int (jtoString (jfield obj ''msg'')) of
                   Some seconds \<Rightarrow> [SigRecordingRemaining seconds] | None \<Rightarrow> []))
      else if what = ''ModeChanged'' then
        (let m = jtoString (jfield obj ''value'') in (c\<lparr>cc_mode := m\<rparr>, [SigModeChanged m]))
      else if what = ''TempUpdate'' then (c, [SigTemperatureChanged (jtoDouble 0 (jfield obj ''value''))])
      else if what = ''ConfigChanged'' then
        (let key = first_nonempty (map (\<lambda>k. jtoString (jfield obj k)) [''key'', ''config_key'', ''k'']);
             v = first_nonempty (map (\<lambda>k. jtoString (jfield obj k)) [''value'', ''v'']) in
         (c, if key \<noteq> [] then [SigConfigChanged key v] else []))
      else if what = ''UpdateAfArea'' then
        (c, [SigAfAreaChanged (jtoDouble 0 (jfield obj ''roi_x'')) (jtoDouble 0 (jfield obj ''roi_y''))
               (jtoDouble 0 (jfield obj ''roi_w'')) (jtoDouble 0 (jfield obj ''roi_h''))])
      else (c, []))"

text \<open>Events of the notifier: \<^verbatim>\<open>eventReceived\<close> is connected to \<open>handleWsEvent\<close>.\<close>

fun cc_notified :: "nt_event list \<Rightarrow> camera_client \<Rightarrow> camera_client \<times> cc_event list" where
  "cc_notified [] c = (c, [])"
| "cc_notified (e # es) c =
     (case (case e of NtEventReceived what obj \<Rightarrow> handleWsEvent what obj c | _ \<Rightarrow> (c, [CcNotifier e])) of
        (c1, o1) \<Rightarrow> (case cc_notified es c1 of (c2, o2) \<Rightarrow> (c2, o1 @ o2)))"

definition cc_socket :: "cc_env \<Rightarrow> nt_input \<Rightarrow> camera_client \<Rightarrow> (camera_client \<times> cc_event list) option" where
  "cc_socket env i c =
     (case nt_step (env_b64sha1 env) (env_mask env) (\<lambda>bs. env_parse env (text_of bs)) i (cc_notifier c) of
        None \<Rightarrow> None
      | Some (n, es) \<Rightarrow> Some (cc_notified es (c\<lparr>cc_notifier := n\<rparr>)))"

text \<open>The inputs of a client. A notification socket whose receive loop hangs processes nothing
  more; the step then leaves the client as it is.\<close>

datatype cc_input =
    CiConnect "string \<Rightarrow> int \<Rightarrow> net_reply" string int string string
  | CiDisconnect
  | CiCommand camera_cmd
  | CiSlot slot_cmd
  | CiStream string url_query_items nat
  | CiReadGroup string "nat option"
  | CiReadSetting string nat
  | CiWriteSetting string string
  | CiRefreshStatus
  | CiFinished net_reply
  | CiSocket nt_input

fun cc_step :: "cc_env \<Rightarrow> cc_input \<Rightarrow> camera_client \<Rightarrow> camera_client \<times> cc_event list" where
  "cc_step env (CiConnect probe host port user pass) c = snd (cc_connect env probe host port user pass c)"
| "cc_step env CiDisconnect c = cc_disconnect env c"
| "cc_step env (CiCommand cmd) c = cc_command env cmd c"
| "cc_step env (CiSlot cmd) c = cc_call env (slot_call (env_qenc env) cmd) c"
| "cc_step env (CiStream index params cb) c = cc_call env (sendStreamSetting (env_qenc env) index params cb) c"
| "cc_step env (CiReadGroup catalog cb) c = cc_engine env (readGroup catalog cb) c"
| "cc_step env (CiReadSetting key cb) c = cc_engine env (readKey key (KUser cb)) c"
| "cc_step env (CiWriteSetting key v) c = cc_engine env (writeKey key v) c"
| "cc_step env CiRefreshStatus c = refreshStatus env c"
| "cc_step env (CiFinished reply) c = cc_finished env reply c"
| "cc_step env (CiSocket i) c = (case cc_socket env i c of None \<Rightarrow> (c, []) | Some r \<Rightarrow> r)"

subsection \<open>Engine requests and the transport queue\<close>

fun engine_cb :: "cc_cb \<Rightarrow> eng_cb option" where
  "engine_cb (CcEngine cb) = Some cb"
| "engine_cb _ = None"

fun en_requested :: "eng_event \<Rightarrow> eng_cb option" where
  "en_requested (EnRequest p q cb) = Some cb"
| "en_requested _ = None"

lemma group_done_requests [simp]: "occurrences en_requested (group_done cb ok) = []"
  by (simp add: group_done_def split: option.split)

lemma key_done_requests:
  "occurrences en_requested (snd (key_done kc v e)) = [] \<and> en_pending (fst (key_done kc v e)) = en_pending e
   \<and> en_transport (fst (key_done kc v e)) = en_transport e"
  by (cases kc) (auto simp: Let_def split: option.split)

text \<open>Every engine operation appends to its pending list exactly the requests it issues.\<close>

definition requests_appended :: "engine \<Rightarrow> eng_result \<Rightarrow> bool" where
  "requests_appended e r \<longleftrightarrow> en_pending (fst r) = en_pending e @ occurrences en_requested (snd r)
     \<and> en_transport (fst r) = en_transport e"

lemma occurrences_map [simp]: "occurrences f (map g xs) = occurrences (\<lambda>x. f (g x)) xs"
  by (induction xs) (auto split: option.split)

lemma occurrences_Some [simp]: "occurrences (\<lambda>x. Some (g x)) xs = map g xs"
  by (induction xs) auto

lemma occurrences_None [simp]: "occurrences (\<lambda>x. None) xs = []"
  by (induction xs) auto

lemma apply_cfgs_requests: "apply_cfgs num cvs e = (e', ks, es) \<Longrightarrow> occurrences en_requested es = []"
proof (induction cvs arbitrary: e ks es)
  case (Cons cv cvs)
  then show ?case by (fastforce simp: apply_cfg_def Let_def split: prod.splits if_splits)
qed simp

lemma applyBatch_requests: "requests_appended e (applyBatch num c doc e)"
proof -
  obtain e1 ks es where a: "apply_cfgs num (jtoArray (jfield doc ''cfgs'')) e = (e1, ks, es)"
    by (cases "apply_cfgs num (jtoArray (jfield doc ''cfgs'')) e")
  have co: "caches_only e e1" using apply_cfgs_spec [OF a] by blast
  show ?thesis
    using apply_cfgs_requests [OF a] caches_only_fields [OF co]
    by (simp add: requests_appended_def applyBatch_def a)
qed

lemma readGroupByKeys_requests: "en_transport e \<Longrightarrow> requests_appended e (readGroupByKeys c cb e)"
  by (simp add: requests_appended_def readGroupByKeys_def read_keys_transport Let_def)

lemma eng_reply_requests:
  assumes "en_transport e"
  shows "requests_appended e (eng_reply parse num cb rsp e)"
proof (cases cb)
  case (CbGroup c u)
  then show ?thesis
    using readGroupByKeys_requests [OF assms] applyBatch_requests [of e num c]
    by (auto simp: readGroup_reply_def requests_appended_def split_beta split: option.split json.split)
next
  case (CbKey k kc)
  then show ?thesis
    using key_done_requests by (simp add: readKey_reply_def requests_appended_def Let_def split_beta)
next
  case (CbWrite k v)
  then show ?thesis
    using assms by (simp add: writeKey_reply_def applyDependencies_def read_groups_transport requests_appended_def)
qed

lemma engine_ops_requests:
  "requests_appended e (readGroup c cb e)" "requests_appended e (writeKey k v e)"
  "requests_appended e (readKey k kc e)"
  using key_done_requests
  by (simp_all add: readGroup_def writeKey_def readKey_def request_query_def requests_appended_def)

fun call_cbs :: "'cb api_call \<Rightarrow> 'cb list" where
  "call_cbs (Get path cb t) = [cb]"
| "call_cbs (GetQuery path query cb t) = [cb]"
| "call_cbs (Post path body cb t) = [cb]"
| "call_cbs (SetCredentials u p) = []"

lemma ht_call_accepted:
  "ht_coupled h \<Longrightarrow> occurrences ht_accepted (snd (ht_call md5hex enc always c h)) = call_cbs c"
  by (cases c) (simp_all add: enqueue_always(3) [OF _ prod.collapse [symmetric]])

lemma ht_calls_accepted:
  "ht_coupled h \<Longrightarrow> occurrences ht_accepted (snd (ht_calls md5hex enc always cs h)) = concat (map call_cbs cs)"
proof (induction cs arbitrary: h)
  case (Cons c cs)
  have "ht_coupled (fst (ht_call md5hex enc always c h))"
    using ht_call_always [OF Cons.prems prod.collapse [symmetric]] by blast
  with Cons show ?case by (simp add: split_beta ht_call_accepted)
qed simp

lemma engine_calls_cbs: "concat (map call_cbs (engine_calls qenc es)) = map CcEngine (occurrences en_requested es)"
  by (induction qenc es rule: engine_calls.induct) auto

lemma engine_cb_map [simp]: "occurrences engine_cb (map CcEngine cbs) = cbs"
  by (induction cbs) auto

text \<open>The engine's list of unanswered requests is the engine's share of the transport's queue.\<close>

definition cc_inv :: "camera_client \<Rightarrow> bool" where
  "cc_inv c \<longleftrightarrow> ht_wf (cc_transport c) \<and> eng_inv (cc_settings c) \<and> en_transport (cc_settings c)
     \<and> en_pending (cc_settings c) = occurrences engine_cb (ht_pending (cc_transport c))"

lemma cc_call_inv:
  assumes "cc_inv c" "\<And>cb. cb \<in> set (call_cbs call) \<Longrightarrow> engine_cb cb = None"
  shows "cc_inv (fst (cc_call env call c))"
proof -
  have cpl: "ht_coupled (cc_transport c)" using assms(1) by (simp add: cc_inv_def ht_wf_def)
  note A = ht_call_always [OF cpl prod.collapse [symmetric], of "env_md5hex env" "env_enc env" call]
  have "occurrences engine_cb (call_cbs call) = []" using assms(2) by (cases call) auto
  then show ?thesis
    using assms(1) A ht_call_accepted [OF cpl, of "env_md5hex env" "env_enc env" call]
    unfolding cc_inv_def cc_call_def split_beta by (metis (no_types, lifting) append.right_neutral
      camera_client.select_convs(1,3) camera_client.surjective camera_client.update_convs(1) fst_conv occurrences_simps(3))
qed

lemma cc_engine_inv:
  assumes "cc_inv c" "requests_appended (cc_settings c) (f (cc_settings c))" "eng_inv (fst (f (cc_settings c)))"
  shows "cc_inv (fst (cc_engine env f c))"
proof -
  obtain e es where f: "f (cc_settings c) = (e, es)" by fastforce
  obtain h hes where h: "ht_calls (env_md5hex env) (env_enc env) always (engine_calls (env_qenc env) es)
      (cc_transport c) = (h, hes)" by fastforce
  have cpl: "ht_coupled (cc_transport c)" using assms(1) by (simp add: cc_inv_def ht_wf_def)
  note A = ht_calls_always [OF cpl h] and
    B = ht_calls_accepted [OF cpl, of "env_md5hex env" "env_enc env" "engine_calls (env_qenc env) es"]
  have "ht_wf h" using assms(1) h ht_calls_wf unfolding cc_inv_def by (metis fst_conv)
  moreover have "en_pending e = occurrences engine_cb (ht_pending h)"
    using A B assms(1,2) f h unfolding cc_inv_def requests_appended_def
    by (simp add: engine_calls_cbs flip: A [THEN conjunct2, THEN conjunct1])
  ultimately show ?thesis
    using assms f h by (simp add: cc_engine_def cc_inv_def requests_appended_def)
qed

lemma cc_reply_other:
  assumes "engine_cb cb = None"
  shows "fst (snd (cc_reply parse num qenc cb rsp c)) = []"
    "cc_settings (fst (cc_reply parse num qenc cb rsp c)) = cc_settings c"
  using assms by (cases cb; simp add: Let_def split: option.split json.split)+

lemma cc_reply_engine:
  assumes "eng_inv (cc_settings c)" "en_pending (cc_settings c) = cb # cbs" "en_transport (cc_settings c)"
  shows "\<exists>reqs. concat (map call_cbs (fst (snd (cc_reply parse num qenc (CcEngine cb) rsp c)))) = map CcEngine reqs
    \<and> en_pending (cc_settings (fst (cc_reply parse num qenc (CcEngine cb) rsp c))) = cbs @ reqs
    \<and> eng_inv (cc_settings (fst (cc_reply parse num qenc (CcEngine cb) rsp c)))
    \<and> en_transport (cc_settings (fst (cc_reply parse num qenc (CcEngine cb) rsp c)))"
proof -
  let ?e = "cc_settings c\<lparr>en_pending := cbs\<rparr>"
  obtain e es where r: "eng_reply parse num cb rsp ?e = (e, es)" by fastforce
  have t: "en_transport ?e" using assms(3) by simp
  from eng_reply_requests [OF t, of parse num cb rsp] eng_reply_inv [OF assms(1,2), of parse num rsp] r assms(2)
  show ?thesis by (auto simp: requests_appended_def engine_calls_cbs t)
qed

lemma cc_reply_inv:
  assumes "cc_inv c" "ht_inflight (cc_transport c) = Some f" "cc_reply parse num qenc (if_cb f) rsp c = (c', calls, es)"
  shows "eng_inv (cc_settings c') \<and> en_transport (cc_settings c')
    \<and> en_pending (cc_settings c') = occurrences engine_cb (map rq_cb (ht_queue (cc_transport c)))
        @ occurrences engine_cb (concat (map call_cbs calls))"
proof (cases "engine_cb (if_cb f)")
  case None
  with cc_reply_other [OF None, of parse num qenc rsp c] assms show ?thesis
    by (auto simp: cc_inv_def ht_pending_def simp del: occurrences_map)
next
  case (Some cb)
  then have f: "if_cb f = CcEngine cb" by (cases "if_cb f") auto
  have p: "en_pending (cc_settings c) = cb # occurrences engine_cb (map rq_cb (ht_queue (cc_transport c)))"
    using assms(1,2) f by (simp add: cc_inv_def ht_pending_def del: occurrences_map)
  from cc_reply_engine [OF _ p, of parse num qenc rsp] assms(1,3) f show ?thesis
    by (auto simp: cc_inv_def simp del: occurrences_map)
qed

lemma completion_shape: "completion (HLog l # HCallback cb rsp # es) = Some (cb, rsp)" "completion [HLog l, HSend w] = None"
  by simp_all

lemma cc_finished_inv:
  assumes "cc_inv c"
  shows "cc_inv (fst (cc_finished env reply c))"
proof -
  define run where "run = (\<lambda>cb rsp. cc_reply (env_parse env) (env_num env) (env_qenc env) cb rsp c)"
  obtain h hes where fin: "onFinished (env_md5hex env) (env_enc env) always (env_rand env)
      (\<lambda>cb rsp. fst (snd (run cb rsp))) reply (cc_transport c) = (h, hes)" by fastforce
  have wf: "ht_wf (cc_transport c)" using assms by (simp add: cc_inv_def)
  note A = onFinished_always [OF wf fin]
  have res: "cc_finished env reply c = (case completion hes of
        None \<Rightarrow> (c\<lparr>cc_transport := h\<rparr>, map CcHttp hes)
      | Some (cb, rsp) \<Rightarrow> ((fst (run cb rsp))\<lparr>cc_transport := h\<rparr>, snd (snd (run cb rsp)) @ map CcHttp hes))"
    using fin unfolding cc_finished_def run_def by simp
  show ?thesis
  proof (cases "ht_inflight (cc_transport c)")
    case None
    then have "h = cc_transport c" "hes = []" using fin by (simp_all add: onFinished_def)
    with res assms show ?thesis by simp
  next
    case (Some f)
    show ?thesis
      using wf Some fin
    proof (cases rule: onFinished_cases)
      case (retry hc w)
      then have "completion hes = None" "ht_pending h = ht_pending (cc_transport c)"
        using Some by (auto simp: ht_pending_def)
      with res assms A show ?thesis by (simp add: cc_inv_def)
    next
      case (finish h2 e1 e2)
      obtain c' calls es where r: "run (if_cb f) (response_of reply) = (c', calls, es)"
        by (cases "run (if_cb f) (response_of reply)") auto
      let ?h1 = "captureSession reply (cc_transport c)\<lparr>ht_busy := False, ht_inflight := None\<rparr>"
      have cpl: "ht_coupled ?h1" by (simp add: ht_coupled_def)
      have calls: "ht_calls (env_md5hex env) (env_enc env) always calls ?h1 = (h2, e1)"
        using finish(1) r by simp
      have "ht_pending h2 = map rq_cb (ht_queue (cc_transport c)) @ concat (map call_cbs calls)"
        using ht_calls_always [OF cpl calls] ht_calls_accepted [OF cpl, of "env_md5hex env" "env_enc env" calls] calls
        by (simp add: ht_pending_def)
      moreover have "ht_pending h = ht_pending h2"
        using pump_always(2) [OF _ finish(2)] ht_calls_always [OF cpl calls] by blast
      moreover have "completion hes = Some (if_cb f, response_of reply)" using finish(3) by auto
      moreover note cc_reply_inv [OF assms Some r [unfolded run_def]]
      ultimately show ?thesis using res r A by (simp add: cc_inv_def del: occurrences_map)
    qed
  qed
qed

definition same_queue :: "'cb http \<Rightarrow> 'cb http \<Rightarrow> bool" where
  "same_queue h h' \<longleftrightarrow> ht_busy h' = ht_busy h \<and> ht_inflight h' = ht_inflight h \<and> ht_queue h' = ht_queue h"

lemma same_queue_keeps:
  assumes "same_queue h h'"
  shows "ht_wf h' = ht_wf h" "ht_pending h' = ht_pending h"
  using assms by (simp_all add: same_queue_def ht_wf_def ht_coupled_def ht_pending_def)

lemma try_origins_queue: "try_origins rand probe host cs h = (ok, h', es) \<Longrightarrow> same_queue h h'"
proof (induction cs arbitrary: h es)
  case (Cons c cs)
  obtain sch p where c: "c = (sch, p)" by (cases c)
  let ?r = "probe sch p"
  let ?h2 = "captureSession ?r (if nr_status ?r = 401 \<or> nr_status ?r = 403
      then snd (parseChallenge rand ?r (h\<lparr>ht_auth_required := True\<rparr>)) else h)"
  have "same_queue h ?h2" by (simp add: same_queue_def)
  with Cons show ?case
    by (auto simp: c Let_def same_queue_def split: if_splits prod.splits)
qed (simp add: same_queue_def)

lemma cc_inv_queue:
  assumes "cc_inv c" "same_queue (cc_transport c) h"
  shows "cc_inv (c\<lparr>cc_transport := h\<rparr>)"
  using assms same_queue_keeps [OF assms(2)] by (simp add: cc_inv_def)

lemma cc_inv_fields [simp]:
  "cc_inv (c\<lparr>cc_host := x1\<rparr>) = cc_inv c" "cc_inv (c\<lparr>cc_notifier := x2\<rparr>) = cc_inv c"
  "cc_inv (c\<lparr>cc_connected := x3\<rparr>) = cc_inv c" "cc_inv (c\<lparr>cc_mode := x4\<rparr>) = cc_inv c"
  "cc_inv (c\<lparr>cc_recording := x5\<rparr>) = cc_inv c" "cc_inv (c\<lparr>cc_model := x6\<rparr>) = cc_inv c"
  "cc_inv (c\<lparr>cc_supportsPtz := x7\<rparr>) = cc_inv c"
  by (simp_all add: cc_inv_def)

lemma refresh_inv:
  "cc_inv c \<Longrightarrow> cc_inv (fst (refreshStatus env c))" "cc_inv c \<Longrightarrow> cc_inv (fst (refreshCameraInfo env c))"
  unfolding refreshStatus_def refreshCameraInfo_def by (rule cc_call_inv, assumption, simp)+

lemma cc_connect_inv:
  assumes "cc_inv c"
  shows "cc_inv (fst (snd (cc_connect env probe host port user pass c)))"
proof -
  let ?c1 = "c\<lparr>cc_host := host, cc_transport := setCredentials user pass (cc_transport c)\<rparr>"
  obtain ok h es where n: "negotiateOrigin (env_rand env) probe host port (cc_transport ?c1) = (ok, h, es)"
    by (cases "negotiateOrigin (env_rand env) probe host port (cc_transport ?c1)") auto
  have "same_queue (cc_transport c) h"
    using try_origins_queue [OF n [unfolded negotiateOrigin_def]] by (simp add: same_queue_def)
  then have h: "cc_inv (?c1\<lparr>cc_transport := h\<rparr>)"
    using cc_inv_queue [of "c\<lparr>cc_host := host\<rparr>" h] assms by simp
  let ?c3 = "?c1\<lparr>cc_transport := h, cc_notifier := fst (nt_start host (starts_with ''https://'' (ht_base_url h))
      (upgradeHeaderBlock h) (cc_notifier c))\<rparr>"
  have "cc_inv ?c3" using h cc_inv_fields(2) by blast
  from refresh_inv(2) [OF refresh_inv(1) [OF this, of env], of env] h n show ?thesis
    by (cases "user = []") (simp_all add: cc_connect_def Let_def split_beta)
qed

lemma cc_disconnect_inv:
  assumes "cc_inv c"
  shows "cc_inv (fst (cc_disconnect env c))"
proof -
  let ?c1 = "c\<lparr>cc_notifier := fst (nt_stop (env_mask env) (cc_notifier c))\<rparr>"
  have "cc_inv ?c1" using assms by simp
  moreover from this have "cc_inv (fst (cc_call env (Get ''/ctrl/session?action=quit'' CcNone 1000) ?c1))"
    by (rule cc_call_inv) simp
  ultimately show ?thesis by (simp add: cc_disconnect_def Let_def split_beta cc_inv_def)
qed

lemma cc_command_inv:
  assumes "cc_inv c"
  shows "cc_inv (fst (cc_command env cmd c))"
proof -
  have "cc_inv (fst (cc_call env (GetQuery p q CcNone 20000) c))" for p q
    by (rule cc_call_inv [OF assms]) simp
  then show ?thesis by (simp add: cc_command_def split_beta split: camera_cmd.split)
qed

lemma handleWsEvent_inv: "cc_inv c \<Longrightarrow> cc_inv (fst (handleWsEvent what obj c))"
  by (simp add: handleWsEvent_def setRecording_def Let_def split: option.split)

lemma cc_notified_inv: "cc_inv c \<Longrightarrow> cc_inv (fst (cc_notified es c))"
proof (induction es arbitrary: c)
  case (Cons e es)
  then show ?case by (cases e) (simp_all add: split_beta handleWsEvent_inv)
qed simp

lemma cc_step_inv: "cc_inv c \<Longrightarrow> cc_inv (fst (cc_step env i c))"
proof (cases i)
  case (CiSlot cmd)
  assume "cc_inv c"
  then show ?thesis unfolding CiSlot cc_step.simps
    by (rule cc_call_inv) (cases cmd; auto simp: sendPreset_def sendPtrace_def)
next
  case (CiStream x y z)
  assume "cc_inv c"
  then show ?thesis unfolding CiStream cc_step.simps
    by (rule cc_call_inv) (auto simp: sendStreamSetting_def)
next
  case (CiReadGroup x y)
  assume a: "cc_inv c"
  then have "eng_inv (cc_settings c)" by (simp add: cc_inv_def)
  with a show ?thesis unfolding CiReadGroup cc_step.simps
    using eng_step_inv [of _ undefined undefined "EnReadGroup x y"] by (intro cc_engine_inv engine_ops_requests) auto
next
  case (CiReadSetting x y)
  assume a: "cc_inv c"
  then have "eng_inv (cc_settings c)" by (simp add: cc_inv_def)
  with a show ?thesis unfolding CiReadSetting cc_step.simps
    using eng_step_inv [of _ undefined undefined "EnReadKey x y"] by (intro cc_engine_inv engine_ops_requests) auto
next
  case (CiWriteSetting x y)
  assume a: "cc_inv c"
  then have "eng_inv (cc_settings c)" by (simp add: cc_inv_def)
  with a show ?thesis unfolding CiWriteSetting cc_step.simps
    using eng_step_inv [of _ undefined undefined "EnWriteKey x y"] by (intro cc_engine_inv engine_ops_requests) auto
next
  case (CiSocket x)
  assume "cc_inv c"
  then show ?thesis
    using cc_notified_inv [of "c\<lparr>cc_notifier := _\<rparr>"]
    by (auto simp: CiSocket cc_socket_def split: option.split) (metis fst_conv)
qed (use cc_connect_inv cc_disconnect_inv cc_command_inv refresh_inv(1) cc_finished_inv in auto)

interpretation cc: trace_system "cc_step env" cc_inv for env
  by unfold_locales (rule cc_step_inv)

lemma cc_init_inv [simp]: "cc_inv cc_init"
  by (simp add: cc_inv_def cc_init_def) (simp add: setTransport_def en_init_def)

subsection \<open>Properties\<close>

text \<open>
  C5. In every reachable state of the client, finishing an HTTP reply either leaves the
  settings engine alone or is exactly one engine step on that response: the transport hands
  each response to the oldest engine request still unanswered, so the engine's view of its
  replies as a FIFO is the client's real behaviour.
\<close>

theorem client_refines_engine:
  "let c = fst (run_trace (cc_step env) inputs cc_init); c' = fst (cc_step env (CiFinished reply) c) in
     cc_settings c' = cc_settings c
     \<or> cc_settings c' = fst (eng_step (env_parse env) (env_num env) (EnReply (response_of reply)) (cc_settings c))"
proof -
  define c where "c = fst (run_trace (cc_step env) inputs cc_init)"
  have inv: "cc_inv c" unfolding c_def by (rule cc.run_inv) simp
  then have wf: "ht_wf (cc_transport c)" by (simp add: cc_inv_def)
  define run where "run = (\<lambda>cb rsp. cc_reply (env_parse env) (env_num env) (env_qenc env) cb rsp c)"
  obtain h hes where fin: "onFinished (env_md5hex env) (env_enc env) always (env_rand env)
      (\<lambda>cb rsp. fst (snd (run cb rsp))) reply (cc_transport c) = (h, hes)" by fastforce
  have res: "cc_finished env reply c = (case completion hes of
        None \<Rightarrow> (c\<lparr>cc_transport := h\<rparr>, map CcHttp hes)
      | Some (cb, rsp) \<Rightarrow> ((fst (run cb rsp))\<lparr>cc_transport := h\<rparr>, snd (snd (run cb rsp)) @ map CcHttp hes))"
    using fin unfolding cc_finished_def run_def by simp
  have "cc_settings (fst (cc_finished env reply c)) = cc_settings c
     \<or> cc_settings (fst (cc_finished env reply c))
         = fst (eng_step (env_parse env) (env_num env) (EnReply (response_of reply)) (cc_settings c))"
  proof (cases "completion hes")
    case None
    with res show ?thesis by simp
  next
    case (Some x)
    obtain f where f: "ht_inflight (cc_transport c) = Some f"
      using fin Some by (cases "ht_inflight (cc_transport c)") (auto simp: onFinished_def)
    have x: "x = (if_cb f, response_of reply)"
      using wf f fin by (cases rule: onFinished_cases) (use Some in auto)
    show ?thesis
    proof (cases "engine_cb (if_cb f)")
      case None
      with res Some x cc_reply_other(2) show ?thesis by (simp add: run_def)
    next
      case (Some cb)
      then have cb: "if_cb f = CcEngine cb" by (cases "if_cb f") auto
      then have "en_pending (cc_settings c) = cb # occurrences engine_cb (map rq_cb (ht_queue (cc_transport c)))"
        using inv f by (simp add: cc_inv_def ht_pending_def del: occurrences_map)
      with res \<open>completion hes = Some x\<close> x cb show ?thesis by (simp add: run_def split_beta)
    qed
  qed
  then show ?thesis by (simp add: Let_def c_def)
qed

lemma parseChallenge_header_empty:
  "ht_auth_header h = [] \<Longrightarrow> ht_auth_header (snd (parseChallenge rand r h)) = []"
  by (simp add: parseChallenge_def Let_def)

lemma try_origins_header:
  "ht_auth_header h = [] \<Longrightarrow> try_origins rand probe host cs h = (ok, h', es) \<Longrightarrow> ht_auth_header h' = []"
proof (induction cs arbitrary: h es)
  case (Cons c cs)
  obtain sch p where c: "c = (sch, p)" by (cases c)
  let ?r = "probe sch p"
  let ?h2 = "captureSession ?r (if nr_status ?r = 401 \<or> nr_status ?r = 403
      then snd (parseChallenge rand ?r (h\<lparr>ht_auth_required := True\<rparr>)) else h)"
  have "ht_auth_header ?h2 = []" using Cons.prems(1) by (simp add: parseChallenge_header_empty)
  from Cons.IH [OF this] Cons.prems(2) \<open>ht_auth_header ?h2 = []\<close> show ?case
    by (auto simp: c Let_def split: if_splits prod.splits)
qed simp

lemma cc_connect_success:
  assumes "cc_connect env probe host port user pass c = (True, c', es)"
  obtains h es1 where "negotiateOrigin (env_rand env) probe host port (setCredentials user pass (cc_transport c)) = (True, h, es1)"
    "\<not> ht_auth_required h \<or> user \<noteq> []" "ht_auth_header h = []"
    "cc_notifier c' = fst (nt_start host (starts_with ''https://'' (ht_base_url h)) (upgradeHeaderBlock h) (cc_notifier c))"
    "cc_connected c'" "cc_host c' = host"
proof -
  obtain ok h es1 where n: "negotiateOrigin (env_rand env) probe host port (setCredentials user pass (cc_transport c)) = (ok, h, es1)"
    by (cases "negotiateOrigin (env_rand env) probe host port (setCredentials user pass (cc_transport c))") auto
  have "ht_auth_header h = []"
    using try_origins_header [OF _ n [unfolded negotiateOrigin_def]] by (simp add: setCredentials_def)
  moreover have "ok" "\<not> ht_auth_required h \<or> user \<noteq> []"
      "cc_notifier c' = fst (nt_start host (starts_with ''https://'' (ht_base_url h)) (upgradeHeaderBlock h) (cc_notifier c))"
      "cc_connected c'" "cc_host c' = host"
    using assms n
    by (auto simp: cc_connect_def Let_def refreshStatus_def refreshCameraInfo_def cc_call_def split_beta
        split: if_splits)
  ultimately show thesis using n that by simp
qed

lemma nt_start_extraHeaders: "nt_extraHeaders (fst (nt_start host https extra n)) = extra"
  by (simp add: nt_start_def doConnect_def split_beta)

text \<open>
  Whenever \<^verbatim>\<open>connect\<close> succeeds, the header block it hands to the notification socket has
  no Digest Authorization line, even for a camera that demanded authentication: setting the
  credentials clears the cached header and negotiation never builds one.
\<close>

theorem client_ws_upgrade_unauthenticated:
  assumes "cc_connect env probe host port user pass c = (True, c', es)"
  shows "\<exists>cookie token. nt_extraHeaders (cc_notifier c') = cookie @ token
    \<and> (cookie = [] \<or> starts_with ''Cookie: '' cookie) \<and> (token = [] \<or> starts_with ''x-auth-token: '' token)"
proof -
  from assms obtain h :: "cc_cb http" where h: "ht_auth_header h = []"
    "cc_notifier c' = fst (nt_start host (starts_with ''https://'' (ht_base_url h)) (upgradeHeaderBlock h) (cc_notifier c))"
    by (rule cc_connect_success) blast
  let ?nl = "[CHR 0x0D, CHR 0x0A]"
  have "nt_extraHeaders (cc_notifier c') =
      (if ht_cookie h \<noteq> [] then ''Cookie: '' @ ht_cookie h @ ?nl else [])
      @ (if ht_x_auth_token h \<noteq> [] then ''x-auth-token: '' @ ht_x_auth_token h @ ?nl else [])"
    unfolding h(2) nt_start_extraHeaders using h(1) by (simp add: upgradeHeaderBlock_def Let_def)
  moreover have "x = [] \<or> starts_with p x" if "x = (if b then p @ y else [])" for b p x and y :: string
    using that by simp
  ultimately show ?thesis by blast
qed

definition env_example :: cc_env where
  "env_example = \<lparr>env_md5hex = (\<lambda>_. ''00ff''), env_enc = (\<lambda>s. s), env_rand = (\<lambda>_. 0), env_b64sha1 = (\<lambda>_. ''ABCD''),
     env_mask = (\<lambda>_. 0), env_parse = (\<lambda>_. None), env_num = (\<lambda>_. []), env_qenc = (\<lambda>_. ''a=b'')\<rparr>"

definition probe_example :: "string \<Rightarrow> int \<Rightarrow> net_reply" where
  "probe_example scheme port = challenge_reply\<lparr>nr_headers :=
     (''Set-Cookie'', ''sid=7; Path=/'') # nr_headers challenge_reply\<rparr>"

theorem client_ws_upgrade_unauthenticated_witness:
  "\<exists>c' es cookie token. cc_connect env_example probe_example ''cam'' 80 ''admin'' ''pw'' cc_init = (True, c', es)
    \<and> nt_extraHeaders (cc_notifier c') = cookie @ token
    \<and> (cookie = [] \<or> starts_with ''Cookie: '' cookie) \<and> (token = [] \<or> starts_with ''x-auth-token: '' token)"
proof -
  have "fst (cc_connect env_example probe_example ''cam'' 80 ''admin'' ''pw'' cc_init)"
    by (simp add: cc_connect_def negotiateOrigin_def candidates_def probe_example_def challenge_reply_def Let_def split_beta)
  then obtain c' es where r: "cc_connect env_example probe_example ''cam'' 80 ''admin'' ''pw'' cc_init = (True, c', es)"
    by (metis prod.collapse)
  from client_ws_upgrade_unauthenticated [OF r] r show ?thesis by blast
qed

lemma cc_call_temperature [simp]: "cc_temperature (fst (cc_call env call c)) = cc_temperature c"
  by (simp add: cc_call_def split_beta)

lemma cc_reply_temperature [simp]: "cc_temperature (fst (cc_reply parse num qenc cb rsp c)) = cc_temperature c"
  by (cases cb) (auto simp: Let_def split_beta split: option.split json.split)

lemma cc_notified_temperature: "cc_temperature (fst (cc_notified es c)) = cc_temperature c"
proof (induction es arbitrary: c)
  case (Cons e es)
  have "cc_temperature (fst (handleWsEvent what obj c)) = cc_temperature c" for what obj
    by (simp add: handleWsEvent_def setRecording_def Let_def split: option.split)
  with Cons show ?case by (cases e) (simp_all add: split_beta)
qed simp

lemma cc_step_temperature: "cc_temperature (fst (cc_step env i c)) = cc_temperature c"
proof (cases i)
  case (CiSocket x)
  show ?thesis
    using cc_notified_temperature [of _ "c\<lparr>cc_notifier := _\<rparr>"]
    by (auto simp: CiSocket cc_socket_def split: option.split) (metis fst_conv camera_client.select_convs(8)
      camera_client.surjective camera_client.update_convs(2))
qed (auto simp: cc_connect_def cc_disconnect_def cc_command_def cc_engine_def refreshStatus_def refreshCameraInfo_def
    cc_finished_def split_beta Let_def split: camera_cmd.split option.split)

interpretation cc_temp: trace_system "cc_step env" "\<lambda>c. cc_temperature c = - 1" for env
  by unfold_locales (simp add: cc_step_temperature)

text \<open>
  \<^verbatim>\<open>temperature()\<close> reports \<open>-1\<close> in every reachable state: the member is initialised and
  never assigned, whatever temperature notifications and status documents arrive.
\<close>

theorem client_temperature_never_set:
  "cc_temperature (fst (run_trace (cc_step env) inputs cc_init)) = - 1"
  by (rule cc_temp.run_inv) (simp add: cc_init_def)

end
