(* ===== verification/Connector_Protocol.thy ===== *)
theory Connector_Protocol
  imports Prelude
begin

text \<open>
  The pipe between the plugin and the \<^verbatim>\<open>ssp-connector\<close> process. The sender is
  \<^verbatim>\<open>ssp_connector/main.cpp\<close> (argument parsing, one message per SSP callback), the layout is
  \<^verbatim>\<open>ssp_connector/ssp_connector_proto.h\<close> (packed structs, little endian, 64-bit
  \<^verbatim>\<open>size_t\<close>), the receiver is \<^verbatim>\<open>src/ssp-client-iso.cpp\<close> (reads that may return fewer bytes,
  message framing, dispatch to the callbacks).

  The SSP library's callbacks are the events \<open>ssp_event\<close>. \<^verbatim>\<open>fwrite\<close> is the parameter \<open>wr\<close>: how
  many bytes reach the pipe and whether the stream is in error. The pipe seen by the receiver
  is the list of chunks \<^verbatim>\<open>os_process_pipe_read\<close> would return if asked for enough; a read at the
  end of the list returns 0. A field access past the end of the received message, which in the
  source reads heap memory outside the allocation, is the value \<open>RxOverread\<close>.
\<close>

subsection \<open>Little-endian fields\<close>

fun le_bytes :: "nat \<Rightarrow> nat \<Rightarrow> bytes" where
  "le_bytes 0 x = []"
| "le_bytes (Suc n) x = of_nat x # le_bytes n (x div 256)"

fun le_val :: "bytes \<Rightarrow> nat" where
  "le_val [] = 0"
| "le_val (b # bs) = unat b + 256 * le_val bs"

definition le16 :: "u16 \<Rightarrow> bytes" where "le16 w = le_bytes 2 (unat w)"
definition le32 :: "u32 \<Rightarrow> bytes" where "le32 w = le_bytes 4 (unat w)"
definition le64 :: "u64 \<Rightarrow> bytes" where "le64 w = le_bytes 8 (unat w)"

definition get16 :: "nat \<Rightarrow> bytes \<Rightarrow> u16" where "get16 off bs = of_nat (le_val (mid off 2 bs))"
definition get32 :: "nat \<Rightarrow> bytes \<Rightarrow> u32" where "get32 off bs = of_nat (le_val (mid off 4 bs))"
definition get64 :: "nat \<Rightarrow> bytes \<Rightarrow> u64" where "get64 off bs = of_nat (le_val (mid off 8 bs))"

subsection \<open>Data\<close>

datatype message_type =
  MetaDataMsg | VideoDataMsg | AudioDataMsg | RecvBufferFullMsg | DisconnectMsg | ConnectionConnectedMsg
  | ExceptionMsg | ConnectorOkMsg

fun msg_code :: "message_type \<Rightarrow> u32" where
  "msg_code MetaDataMsg = 1"
| "msg_code VideoDataMsg = 2"
| "msg_code AudioDataMsg = 3"
| "msg_code RecvBufferFullMsg = 4"
| "msg_code DisconnectMsg = 5"
| "msg_code ConnectionConnectedMsg = 6"
| "msg_code ExceptionMsg = 7"
| "msg_code ConnectorOkMsg = 8"

record ssp_video =
  v_pts :: u64
  v_ntp :: u64
  v_frm_no :: u32
  v_type :: u32
  v_data :: bytes

record ssp_audio =
  a_pts :: u64
  a_ntp :: u64
  a_data :: bytes

record video_meta =
  vm_width :: u32
  vm_height :: u32
  vm_timescale :: u32
  vm_unit :: u32
  vm_gop :: u32
  vm_encoder :: u32

record audio_meta =
  am_timescale :: u32
  am_unit :: u32
  am_sample_rate :: u32
  am_sample_size :: u32
  am_channel :: u32
  am_bitrate :: u32
  am_encoder :: u32

record base_meta =
  bm_pts_is_wall_clock :: bool
  bm_tc_drop_frame :: bool
  bm_timecode :: u32

datatype ssp_event =
    SspVideo ssp_video
  | SspAudio ssp_audio
  | SspMeta video_meta audio_meta base_meta
  | SspBufferFull
  | SspDisconnected
  | SspConnected
  | SspException u32 bytes

subsection \<open>The sender\<close>

definition message :: "u32 \<Rightarrow> bytes \<Rightarrow> bytes" where
  "message ty v = le32 ty @ le32 (of_nat (length v)) @ v"

definition video_value :: "ssp_video \<Rightarrow> bytes" where
  "video_value v = le64 (v_pts v) @ le64 (v_ntp v) @ le32 (v_frm_no v) @ le32 (v_type v)
     @ le64 (of_nat (length (v_data v))) @ v_data v"

definition audio_value :: "ssp_audio \<Rightarrow> bytes" where
  "audio_value a = le64 (a_pts a) @ le64 (a_ntp a) @ le64 (of_nat (length (a_data a))) @ a_data a"

definition flag16 :: "bool \<Rightarrow> u16" where
  "flag16 b = (if b then 1 else 0)"

definition meta_value :: "video_meta \<Rightarrow> audio_meta \<Rightarrow> base_meta \<Rightarrow> bytes" where
  "meta_value vm am bm =
     le16 (flag16 (bm_pts_is_wall_clock bm)) @ le16 (flag16 (bm_tc_drop_frame bm)) @ le32 (bm_timecode bm)
     @ le32 (vm_width vm) @ le32 (vm_height vm) @ le32 (vm_timescale vm) @ le32 (vm_unit vm)
     @ le32 (vm_gop vm) @ le32 (vm_encoder vm)
     @ le32 (am_timescale am) @ le32 (am_unit am) @ le32 (am_sample_rate am) @ le32 (am_sample_size am)
     @ le32 (am_channel am) @ le32 (am_bitrate am) @ le32 (am_encoder am)"

text \<open>The description of an exception is a C string: its terminator is sent along.\<close>

definition exception_value :: "u32 \<Rightarrow> bytes \<Rightarrow> bytes" where
  "exception_value code desc = le32 code @ le32 (of_nat (length desc + 1)) @ desc @ [0]"

fun event_message :: "ssp_event \<Rightarrow> bytes" where
  "event_message (SspVideo v) = message (msg_code VideoDataMsg) (video_value v)"
| "event_message (SspAudio a) = message (msg_code AudioDataMsg) (audio_value a)"
| "event_message (SspMeta vm am bm) = message (msg_code MetaDataMsg) (meta_value vm am bm)"
| "event_message SspBufferFull = message (msg_code RecvBufferFullMsg) []"
| "event_message SspDisconnected = message (msg_code DisconnectMsg) []"
| "event_message SspConnected = message (msg_code ConnectionConnectedMsg) []"
| "event_message (SspException code desc) = message (msg_code ExceptionMsg) (exception_value code desc)"

record connector =
  cn_out :: bytes
  cn_stopped :: bool

type_synonym write_result = "nat \<times> bool"

definition msg_write :: "(bytes \<Rightarrow> write_result) \<Rightarrow> bytes \<Rightarrow> connector \<Rightarrow> int \<times> connector" where
  "msg_write wr buf c =
     (case wr buf of (n, err) \<Rightarrow>
        ((if err then - 1 else int (min n (length buf))), c\<lparr>cn_out := cn_out c @ take n buf\<rparr>))"

fun is_exception :: "ssp_event \<Rightarrow> bool" where
  "is_exception (SspException code desc) = True"
| "is_exception _ = False"

text \<open>The callbacks: write the message; a short write, a disconnect and an exception stop the
  SSP client and quit the loop.\<close>

definition connector_event :: "(bytes \<Rightarrow> write_result) \<Rightarrow> ssp_event \<Rightarrow> connector \<Rightarrow> connector" where
  "connector_event wr ev c =
     (case msg_write wr (event_message ev) c of (sz, c1) \<Rightarrow>
        (if sz \<noteq> int (length (event_message ev)) \<or> ev = SspDisconnected \<or> is_exception ev
         then c1\<lparr>cn_stopped := True\<rparr> else c1))"

definition connector_setup :: "(bytes \<Rightarrow> write_result) \<Rightarrow> connector" where
  "connector_setup wr =
     (case msg_write wr (message (msg_code ConnectorOkMsg) []) \<lparr>cn_out = [], cn_stopped = False\<rparr> of
        (sz, c) \<Rightarrow> if sz \<noteq> 8 then c\<lparr>cn_stopped := True\<rparr> else c)"

text \<open>The event loop of \<^verbatim>\<open>main\<close>: callbacks until it is quit.\<close>

fun connector_loop :: "(bytes \<Rightarrow> write_result) \<Rightarrow> ssp_event list \<Rightarrow> connector \<Rightarrow> connector" where
  "connector_loop wr [] c = c"
| "connector_loop wr (ev # evs) c =
     (if cn_stopped c then c else connector_loop wr evs (connector_event wr ev c))"

subsection \<open>Arguments\<close>

record args =
  ar_address :: "char list"
  ar_port :: u32
  ar_uuid :: "char list"

text \<open>\<^verbatim>\<open>strncpy(dst, src, n)\<close> into a zeroed array of \<open>n\<close> chars: at most \<open>n\<close> chars, padded with
  NUL. The array as a C string is what precedes the first NUL, if there is one.\<close>

definition strncpy :: "nat \<Rightarrow> string \<Rightarrow> char list" where
  "strncpy n src = take n src @ replicate (n - length src) (CHR 0x00)"

definition c_string :: "char list \<Rightarrow> string option" where
  "c_string arr = map_option (\<lambda>i. take i arr) (find_index (CHR 0x00) arr)"

definition args_init :: args where
  "args_init = \<lparr>ar_address = replicate 256 (CHR 0x00), ar_port = 0, ar_uuid = replicate 64 (CHR 0x00)\<rparr>"

fun parse_args :: "(string \<Rightarrow> u32) \<Rightarrow> string list \<Rightarrow> args \<Rightarrow> args option" where
  "parse_args strtoul [] a = Some a"
| "parse_args strtoul [x] a = None"
| "parse_args strtoul (x # v # rest) a =
     (if x = ''-h'' \<or> x = ''--host'' then parse_args strtoul rest (a\<lparr>ar_address := strncpy 256 v\<rparr>)
      else if x = ''-p'' \<or> x = ''--port'' then parse_args strtoul rest (a\<lparr>ar_port := strtoul v\<rparr>)
      else if x = ''-u'' \<or> x = ''--uuid'' then parse_args strtoul rest (a\<lparr>ar_uuid := strncpy 64 v\<rparr>)
      else None)"

definition process_args :: "(string \<Rightarrow> u32) \<Rightarrow> string list \<Rightarrow> args option" where
  "process_args strtoul argv =
     (case parse_args strtoul argv args_init of
        None \<Rightarrow> None
      | Some a \<Rightarrow> if hd (ar_address a) = CHR 0x00 \<or> ar_port a = 0 then None else Some a)"

text \<open>The command line the plugin starts the connector with, after the program name, split into
  arguments at blanks as the process start does for text without quotes or shell characters; the
  plugin does not quote the address. A \<open>plain_word\<close> has no character that the process start treats
  specially.\<close>

fun words :: "string \<Rightarrow> string \<Rightarrow> string list" where
  "words w [] = (if w = [] then [] else [w])"
| "words w (c # cs) =
     (if c = CHR '' '' then (if w = [] then words [] cs else w # words [] cs) else words (w @ [c]) cs)"

definition plain_word :: "string \<Rightarrow> bool" where
  "plain_word w \<longleftrightarrow> w \<noteq> [] \<and> list_all (List.member
     (''abcdefghijklmnopqrstuvwxyz'' @ ''ABCDEFGHIJKLMNOPQRSTUVWXYZ'' @ ''0123456789'' @ ''.:-_'')) w"

definition connector_args :: "string \<Rightarrow> string list" where
  "connector_args ip = words [] (''--host '' @ ip @ '' --port '' @ ''9999'')"

subsection \<open>The receiver\<close>

type_synonym pipe = "bytes list"

fun pipe_read :: "nat \<Rightarrow> pipe \<Rightarrow> bytes \<times> pipe" where
  "pipe_read n [] = ([], [])"
| "pipe_read n (c # cs) = (if length c \<le> n then (c, cs) else (take n c, drop n c # cs))"

function read_retry :: "nat \<Rightarrow> pipe \<Rightarrow> bytes \<times> pipe" where
  "read_retry sz p =
     (if sz = 0 then ([], p)
      else
        (case pipe_read sz p of
           (cur, p1) \<Rightarrow>
             if cur = [] then ([], p1)
             else (case read_retry (sz - length cur) p1 of (rest, p2) \<Rightarrow> (cur @ rest, p2))))"
  by pat_completeness auto

termination
  by (relation "measure fst") auto

declare read_retry.simps [simp del]

definition msg_recv :: "pipe \<Rightarrow> (u32 \<times> bytes) option \<times> pipe" where
  "msg_recv p =
     (case read_retry 8 p of
        (hdr, p1) \<Rightarrow>
          if length hdr \<noteq> 8 then (None, p1)
          else
            (let ty = get32 0 hdr; len = unat (get32 4 hdr) in
             if len = 0 then (Some (ty, []), p1)
             else (case read_retry len p1 of
                     (v, p2) \<Rightarrow> if length v \<noteq> len then (None, p2) else (Some (ty, v), p2))))"

datatype rx_event = RxCallback ssp_event | RxOverread | RxProtocolError

definition on_h264 :: "bytes \<Rightarrow> rx_event" where
  "on_h264 v =
     (let len = unat (get64 24 v) in
      if length v < 32 \<or> length v < 32 + len then RxOverread
      else RxCallback (SspVideo \<lparr>v_pts = get64 0 v, v_ntp = get64 8 v, v_frm_no = get32 16 v, v_type = get32 20 v,
             v_data = mid 32 len v\<rparr>))"

definition on_audio_data :: "bytes \<Rightarrow> rx_event" where
  "on_audio_data v =
     (let len = unat (get64 16 v) in
      if length v < 24 \<or> length v < 24 + len then RxOverread
      else RxCallback (SspAudio \<lparr>a_pts = get64 0 v, a_ntp = get64 8 v, a_data = mid 24 len v\<rparr>))"

definition on_metadata :: "bytes \<Rightarrow> rx_event" where
  "on_metadata v =
     (if length v < 60 then RxOverread
      else RxCallback (SspMeta
        \<lparr>vm_width = get32 8 v, vm_height = get32 12 v, vm_timescale = get32 16 v, vm_unit = get32 20 v,
         vm_gop = get32 24 v, vm_encoder = get32 28 v\<rparr>
        \<lparr>am_timescale = get32 32 v, am_unit = get32 36 v, am_sample_rate = get32 40 v, am_sample_size = get32 44 v,
         am_channel = get32 48 v, am_bitrate = get32 52 v, am_encoder = get32 56 v\<rparr>
        \<lparr>bm_pts_is_wall_clock = (get16 0 v \<noteq> 0), bm_tc_drop_frame = (get16 2 v \<noteq> 0), bm_timecode = get32 4 v\<rparr>))"

definition on_exception_msg :: "bytes \<Rightarrow> rx_event" where
  "on_exception_msg v =
     (case find_index 0 (drop 8 v) of
        None \<Rightarrow> RxOverread
      | Some i \<Rightarrow> RxCallback (SspException (get32 0 v) (take i (drop 8 v))))"

definition dispatch :: "u32 \<Rightarrow> bytes \<Rightarrow> rx_event" where
  "dispatch ty v =
     (if ty = 1 then on_metadata v
      else if ty = 2 then on_h264 v
      else if ty = 3 then on_audio_data v
      else if ty = 4 then RxCallback SspBufferFull
      else if ty = 5 then RxCallback SspDisconnected
      else if ty = 6 then RxCallback SspConnected
      else if ty = 7 then on_exception_msg v
      else RxProtocolError)"

definition pipe_size :: "pipe \<Rightarrow> nat" where
  "pipe_size p = length (concat p)"

lemma pipe_read_size: "pipe_read n p = (cur, p1) \<Longrightarrow> pipe_size p = length cur + pipe_size p1"
  by (cases p) (auto simp: pipe_size_def split: if_splits)

lemma read_retry_size: "read_retry n p = (bs, p1) \<Longrightarrow> pipe_size p = length bs + pipe_size p1"
proof (induction n p arbitrary: bs p1 rule: read_retry.induct)
  case (1 n p)
  show ?case
  proof (cases "n = 0")
    case True
    with "1.prems" show ?thesis by (simp add: read_retry.simps)
  next
    case False
    obtain cur p2 where r: "pipe_read n p = (cur, p2)" by fastforce
    show ?thesis
    proof (cases "cur = []")
      case True
      with False r "1.prems" pipe_read_size [OF r] show ?thesis by (simp add: read_retry.simps)
    next
      case ne: False
      obtain rest p3 where rr: "read_retry (n - length cur) p2 = (rest, p3)" by fastforce
      with False ne r "1.prems" have "bs = cur @ rest" "p1 = p3" by (subst (asm) read_retry.simps, simp)+
      with "1.IH" [OF False r [symmetric] ne rr] pipe_read_size [OF r] show ?thesis by simp
    qed
  qed
qed

lemma msg_recv_size: "msg_recv p = (Some m, p1) \<Longrightarrow> pipe_size p1 < pipe_size p"
  by (auto simp: msg_recv_def Let_def split: prod.splits if_splits dest!: read_retry_size)

text \<open>\<^verbatim>\<open>ReceiveThread\<close> after the greeting: \<open>running k\<close> is the flag another thread may clear, as
  read before the \<open>k\<close>-th message.\<close>

function receive_loop :: "(nat \<Rightarrow> bool) \<Rightarrow> nat \<Rightarrow> pipe \<Rightarrow> rx_event list" where
  "receive_loop running k p =
     (if \<not> running k then []
      else
        (case msg_recv p of
           (None, p1) \<Rightarrow> []
         | (Some (ty, v), p1) \<Rightarrow> dispatch ty v # receive_loop running (Suc k) p1))"
  by pat_completeness auto

termination
  by (relation "measure (\<lambda>(r, k, p). pipe_size p)") (auto dest: msg_recv_size [OF sym])

declare receive_loop.simps [simp del]

definition ReceiveThread :: "(nat \<Rightarrow> bool) \<Rightarrow> pipe \<Rightarrow> rx_event list" where
  "ReceiveThread running p =
     (case msg_recv p of
        (Some (ty, v), p1) \<Rightarrow> if ty \<noteq> msg_code ConnectorOkMsg then [] else receive_loop running 0 p1
      | _ \<Rightarrow> [])"

subsection \<open>Fields of a packed struct\<close>

text \<open>The contract of a fixed-width field: what is written at an offset is read there.\<close>

locale field_codec =
  fixes width :: nat and enc :: "'w \<Rightarrow> bytes" and get :: "nat \<Rightarrow> bytes \<Rightarrow> 'w"
  assumes length_enc: "length (enc w) = width"
    and get_enc: "get 0 (enc w @ s) = w"
    and get_shift: "get (length p + off) (p @ s) = get off s"
begin

lemma get_skip: "length p \<le> off \<Longrightarrow> get off (p @ s) = get (off - length p) s"
  using get_shift [of p "off - length p" s] by simp

lemma get_at: "off = length p \<Longrightarrow> get off (p @ enc w @ s) = w"
  using get_shift [of p 0 "enc w @ s"] by (simp add: get_enc)

lemma get_last: "get 0 (enc w) = w"
  using get_enc [of w "[]"] by simp

end

lemma length_le_bytes [simp]: "length (le_bytes n x) = n"
  by (induction n arbitrary: x) auto

lemma le_val_le_bytes: "le_val (le_bytes n x) = x mod 256 ^ n"
proof (induction n arbitrary: x)
  case (Suc n)
  have "unat (of_nat x :: u8) = x mod 256" by (simp add: unat_of_nat take_bit_eq_mod)
  then show ?case using Suc by (simp add: mod_mult2_eq ac_simps)
qed simp

lemma word_of_nat_unat_mod: "2 ^ LENGTH('a) = m \<Longrightarrow> (of_nat (unat (w :: 'a::len word) mod m) :: 'a word) = w"
  using unsigned_less [of w] by auto

interpretation f16: field_codec 2 le16 get16
  by unfold_locales (simp_all add: le16_def get16_def mid_def le_val_le_bytes word_of_nat_unat_mod)

interpretation f32: field_codec 4 le32 get32
  by unfold_locales (simp_all add: le32_def get32_def mid_def le_val_le_bytes word_of_nat_unat_mod)

interpretation f64: field_codec 8 le64 get64
  by unfold_locales (simp_all add: le64_def get64_def mid_def le_val_le_bytes word_of_nat_unat_mod)

lemmas field_simps_wire = f16.length_enc f32.length_enc f64.length_enc f16.get_enc f32.get_enc f64.get_enc
  f16.get_skip f32.get_skip f64.get_skip f16.get_last f32.get_last f64.get_last

lemma dispatch_video:
  assumes "length (v_data v) < 2 ^ 64"
  shows "dispatch (msg_code VideoDataMsg) (video_value v) = RxCallback (SspVideo v)"
  using assms
  by (simp add: dispatch_def on_h264_def video_value_def field_simps_wire mid_def unat_of_nat take_bit_nat_eq_self Let_def)

lemma dispatch_audio:
  assumes "length (a_data a) < 2 ^ 64"
  shows "dispatch (msg_code AudioDataMsg) (audio_value a) = RxCallback (SspAudio a)"
  using assms
  by (simp add: dispatch_def on_audio_data_def audio_value_def field_simps_wire mid_def unat_of_nat take_bit_nat_eq_self Let_def)

lemma dispatch_meta: "dispatch (msg_code MetaDataMsg) (meta_value vm am bm) = RxCallback (SspMeta vm am bm)"
  by (simp add: dispatch_def on_metadata_def meta_value_def field_simps_wire flag16_def)

lemma dispatch_exception:
  assumes "0 \<notin> set desc"
  shows "dispatch (msg_code ExceptionMsg) (exception_value code desc) = RxCallback (SspException code desc)"
  using assms by (simp add: dispatch_def on_exception_msg_def exception_value_def field_simps_wire)

text \<open>The events whose message the 32-bit length field can describe and whose description is
  a C string.\<close>

fun sendable :: "ssp_event \<Rightarrow> bool" where
  "sendable (SspVideo v) \<longleftrightarrow> length (v_data v) < 2 ^ 32 - 32"
| "sendable (SspAudio a) \<longleftrightarrow> length (a_data a) < 2 ^ 32 - 24"
| "sendable (SspException code desc) \<longleftrightarrow> 0 \<notin> set desc \<and> length desc < 2 ^ 32 - 9"
| "sendable _ \<longleftrightarrow> True"

lemma event_message_dispatch:
  assumes "sendable ev"
  shows "\<exists>ty v. event_message ev = message ty v \<and> length v < 2 ^ 32 \<and> dispatch ty v = RxCallback ev"
proof (cases ev)
  case (SspVideo v)
  with assms dispatch_video [of v] show ?thesis
    by (intro exI [of _ "msg_code VideoDataMsg"] exI [of _ "video_value v"])
      (simp add: video_value_def field_simps_wire)
next
  case (SspAudio a)
  with assms dispatch_audio [of a] show ?thesis
    by (intro exI [of _ "msg_code AudioDataMsg"] exI [of _ "audio_value a"])
      (simp add: audio_value_def field_simps_wire)
next
  case (SspMeta vm am bm)
  with dispatch_meta [of vm am bm] show ?thesis
    by (intro exI [of _ "msg_code MetaDataMsg"] exI [of _ "meta_value vm am bm"])
      (simp add: meta_value_def field_simps_wire)
next
  case (SspException code desc)
  with assms dispatch_exception [of desc code] show ?thesis
    by (intro exI [of _ "msg_code ExceptionMsg"] exI [of _ "exception_value code desc"])
      (simp add: exception_value_def field_simps_wire)
next
  case SspBufferFull
  then show ?thesis by (intro exI [of _ "msg_code RecvBufferFullMsg"] exI [of _ "[]"]) (simp add: dispatch_def)
next
  case SspDisconnected
  then show ?thesis by (intro exI [of _ "msg_code DisconnectMsg"] exI [of _ "[]"]) (simp add: dispatch_def)
next
  case SspConnected
  then show ?thesis by (intro exI [of _ "msg_code ConnectionConnectedMsg"] exI [of _ "[]"]) (simp add: dispatch_def)
qed

subsection \<open>Reads that return fewer bytes\<close>

lemma pipe_read_prefix:
  assumes "[] \<notin> set p" "pipe_read n p = (cur, p1)" "0 < n" "p \<noteq> []"
  shows "concat p = cur @ concat p1 \<and> cur \<noteq> [] \<and> length cur \<le> n \<and> [] \<notin> set p1"
  using assms by (cases p) (auto split: if_splits)

lemma read_retry_take:
  assumes "[] \<notin> set p"
  shows "\<exists>p1. read_retry n p = (take n (concat p), p1) \<and> concat p1 = drop n (concat p) \<and> [] \<notin> set p1"
  using assms
proof (induction n p rule: read_retry.induct)
  case (1 n p)
  show ?case
  proof (cases "n = 0 \<or> p = []")
    case True
    with "1.prems" show ?thesis by (auto simp: read_retry.simps)
  next
    case False
    obtain cur p2 where r: "pipe_read n p = (cur, p2)" by fastforce
    note P = pipe_read_prefix [OF "1.prems" r]
    with False have c: "concat p = cur @ concat p2" "cur \<noteq> []" "length cur \<le> n" "[] \<notin> set p2" by auto
    obtain p1 where I: "read_retry (n - length cur) p2 = (take (n - length cur) (concat p2), p1)"
        "concat p1 = drop (n - length cur) (concat p2)" "[] \<notin> set p1"
      using "1.IH" [OF _ r [symmetric] c(2,4)] False by auto
    have "read_retry n p = (cur @ take (n - length cur) (concat p2), p1)"
      using False r c(2) I(1) by (subst read_retry.simps) simp
    with c I show ?thesis by (intro exI [of _ p1]) simp
  qed
qed

lemma msg_recv_message:
  assumes "[] \<notin> set p" "concat p = message ty v @ rest" "length v < 2 ^ 32"
  shows "\<exists>p1. msg_recv p = (Some (ty, v), p1) \<and> concat p1 = rest \<and> [] \<notin> set p1"
proof -
  have len: "unat (of_nat (length v) :: u32) = length v"
    using assms(3) by (simp add: unat_of_nat take_bit_nat_eq_self)
  obtain p1 where p1: "read_retry 8 p = (take 8 (concat p), p1)" "concat p1 = drop 8 (concat p)" "[] \<notin> set p1"
    using read_retry_take [OF assms(1)] by blast
  have h: "take 8 (concat p) = le32 ty @ le32 (of_nat (length v))" "concat p1 = v @ rest"
    using p1(2) assms(2) by (simp_all add: message_def field_simps_wire)
  obtain p2 where p2: "read_retry (length v) p1 = (v, p2)" "concat p2 = rest" "[] \<notin> set p2"
    using read_retry_take [OF p1(3), of "length v"] h(2) by auto
  show ?thesis
  proof (cases "v = []")
    case True
    with p1 h len show ?thesis by (simp add: msg_recv_def field_simps_wire)
  next
    case False
    with p1 p2 h len show ?thesis by (simp add: msg_recv_def field_simps_wire)
  qed
qed

lemma receive_loop_events:
  assumes "\<forall>ev\<in>set evs. sendable ev" "[] \<notin> set p" "concat p = concat (map event_message evs)"
  shows "receive_loop (\<lambda>_. True) k p = map RxCallback evs"
  using assms
proof (induction evs arbitrary: k p)
  case Nil
  then have "p = []" by (cases p) auto
  then show ?case by (subst receive_loop.simps) (simp add: msg_recv_def read_retry.simps)
next
  case (Cons ev evs)
  obtain ty v where m: "event_message ev = message ty v" "length v < 2 ^ 32" "dispatch ty v = RxCallback ev"
    using event_message_dispatch Cons.prems(1) by (meson list.set_intros(1))
  have "concat p = message ty v @ concat (map event_message evs)" using Cons.prems(3) m(1) by simp
  from msg_recv_message [OF Cons.prems(2) this m(2)] obtain p1 where
    p1: "msg_recv p = (Some (ty, v), p1)" "concat p1 = concat (map event_message evs)" "[] \<notin> set p1"
    by blast
  then show ?case
    using Cons.IH [of p1 "Suc k"] Cons.prems(1) m(3) by (subst receive_loop.simps) simp
qed

subsection \<open>Properties of the pipe\<close>

lemma pipe_delivers:
  assumes "\<And>buf. wr buf = (length buf, False)"
    and "\<forall>ev\<in>set evs. sendable ev \<and> ev \<noteq> SspDisconnected \<and> \<not> is_exception ev"
    and "final = [] \<or> (\<exists>ev. final = [ev] \<and> sendable ev)"
    and "[] \<notin> set p" "concat p = cn_out (connector_loop wr (evs @ final) (connector_setup wr))"
  shows "ReceiveThread (\<lambda>_. True) p = map RxCallback (evs @ final)"
proof -
  let ?ok = "message (msg_code ConnectorOkMsg) []"
  have init: "connector_setup wr = \<lparr>cn_out = ?ok, cn_stopped = False\<rparr>"
    by (simp add: connector_setup_def msg_write_def assms(1) message_def field_simps_wire)
  have "cn_out (connector_loop wr (evs @ final) c) = cn_out c @ concat (map event_message (evs @ final))"
    if "\<not> cn_stopped c" for c
    using assms(2) that
  proof (induction evs arbitrary: c)
    case Nil
    with assms(3) show ?case by (auto simp: connector_event_def msg_write_def assms(1))
  next
    case (Cons ev evs)
    have "connector_event wr ev c = c\<lparr>cn_out := cn_out c @ event_message ev\<rparr>"
      using Cons.prems by (simp add: connector_event_def msg_write_def assms(1))
    with Cons show ?case by simp
  qed
  then have "concat p = ?ok @ concat (map event_message (evs @ final))" using assms(5) init by simp
  from msg_recv_message [OF assms(4) this] obtain p1 where
    p1: "msg_recv p = (Some (msg_code ConnectorOkMsg, []), p1)"
      "concat p1 = concat (map event_message (evs @ final))" "[] \<notin> set p1"
    by auto
  have "\<forall>ev\<in>set (evs @ final). sendable ev" using assms(2,3) by auto
  from receive_loop_events [OF this p1(3,2)] p1(1) show ?thesis
    by (simp add: ReceiveThread_def)
qed

text \<open>
  C8. Everything the connector sends arrives: for any sequence of frames, metadata and state
  changes, ended or not by a disconnect or an exception, and however the pipe splits the bytes
  into reads, the receive thread invokes exactly the same callbacks with the same data in the
  same order, and never reads outside a message.
\<close>

theorem connector_pipe_roundtrip:
  assumes "\<And>buf. wr buf = (length buf, False)"
    and "\<forall>ev\<in>set evs. sendable ev \<and> ev \<noteq> SspDisconnected \<and> \<not> is_exception ev"
    and "final = [] \<or> (\<exists>ev. final = [ev] \<and> sendable ev)"
    and "[] \<notin> set p" "concat p = cn_out (connector_loop wr (evs @ final) (connector_setup wr))"
  shows "ReceiveThread (\<lambda>_. True) p = map RxCallback (evs @ final)"
  using assms by (rule pipe_delivers)

definition wr_all :: "bytes \<Rightarrow> write_result" where
  "wr_all buf = (length buf, False)"

definition video_example :: ssp_event where
  "video_example = SspVideo \<lparr>v_pts = 1, v_ntp = 2, v_frm_no = 3, v_type = 5, v_data = [9, 8]\<rparr>"

theorem connector_pipe_roundtrip_witness:
  "ReceiveThread (\<lambda>_. True)
     (map (\<lambda>b. [b]) (cn_out (connector_loop wr_all ([SspConnected, video_example] @ [SspException 7 [65]]) (connector_setup wr_all))))
   = map RxCallback ([SspConnected, video_example] @ [SspException 7 [65]])"
proof -
  have "concat (map (\<lambda>b. [b]) xs) = xs" for xs :: bytes by (induction xs) auto
  then show ?thesis
    by (intro connector_pipe_roundtrip) (auto simp: wr_all_def video_example_def)
qed

text \<open>
  The receiver trusts the length inside a message: a video message whose frame length
  field exceeds what was received makes the dispatch read outside the message.
\<close>

theorem connector_video_overread:
  assumes "length v = 32 + n" "n < unat (get64 24 v)"
  shows "dispatch (msg_code VideoDataMsg) v = RxOverread"
  using assms by (simp add: dispatch_def on_h264_def)

theorem connector_video_overread_witness:
  "dispatch (msg_code VideoDataMsg) (replicate 24 0 @ le64 5 @ [1, 2]) = RxOverread"
  by (rule connector_video_overread [where n = 2]) (simp_all add: field_simps_wire)

subsection \<open>Properties of the argument parser\<close>

lemma words_word: "CHR '' '' \<notin> set v \<Longrightarrow> words w (v @ rest) = words (w @ v) rest"
  by (induction v arbitrary: w) auto

lemma plain_word_chars: "plain_word w \<Longrightarrow> w \<noteq> [] \<and> CHR '' '' \<notin> set w \<and> CHR 0x00 \<notin> set w"
  by (auto simp: plain_word_def list_all_iff)

lemma connector_args_eq:
  assumes "ip \<noteq> []" "CHR '' '' \<notin> set ip"
  shows "connector_args ip = [''--host'', ip, ''--port'', ''9999'']"
  using words_word [OF assms(2)] assms(1) by (simp add: connector_args_def)

lemma args_accepted:
  assumes "plain_word ip" "strtoul ''9999'' = 9999"
  shows "\<exists>a. process_args strtoul (connector_args ip) = Some a \<and> ar_port a = 9999
    \<and> c_string (ar_address a) = (if length ip < 256 then Some ip else None)"
proof -
  have ip: "ip \<noteq> []" "CHR '' '' \<notin> set ip" "CHR 0x00 \<notin> set ip" using plain_word_chars [OF assms(1)] by auto
  have hd: "hd (strncpy 256 ip) \<noteq> CHR 0x00" using ip(1,3) by (cases ip) (auto simp: strncpy_def)
  have "c_string (strncpy 256 ip) = (if length ip < 256 then Some ip else None)"
  proof (cases "length ip < 256")
    case True
    then obtain k where "256 - length ip = Suc k" by (metis Suc_diff_Suc)
    with True ip(3) show ?thesis by (simp add: c_string_def strncpy_def)
  next
    case False
    have "CHR 0x00 \<notin> set (take 256 ip)" using ip(3) by (meson in_set_takeD)
    with False show ?thesis by (simp add: c_string_def strncpy_def)
  qed
  with hd ip assms(2) show ?thesis by (simp add: process_args_def connector_args_eq)
qed

text \<open>
  Started by the plugin for an address that needs no quoting, the
  connector accepts its arguments and holds exactly that address and port 9999 if it has at most 255
  characters; an address of 256 or more leaves the address buffer without a terminating NUL.
\<close>

theorem connector_args_accepted:
  assumes "plain_word ip" "strtoul ''9999'' = 9999"
  shows "\<exists>a. process_args strtoul (connector_args ip) = Some a \<and> ar_port a = 9999
    \<and> c_string (ar_address a) = (if length ip < 256 then Some ip else None)"
  using assms by (rule args_accepted)

theorem connector_args_accepted_witness:
  "\<exists>a. process_args (\<lambda>_. 9999) (connector_args ''10.0.0.2'') = Some a \<and> ar_port a = 9999
    \<and> c_string (ar_address a) = (if length ''10.0.0.2'' < 256 then Some ''10.0.0.2'' else None)"
  by (rule connector_args_accepted) (simp_all add: plain_word_def)

end
