(* ===== verification/Ssp_Client.thy ===== *)
theory Ssp_Client
  imports Connector_Protocol
begin

text \<open>
  The life cycle of \<^verbatim>\<open>SSPClientIso\<close> (\<^verbatim>\<open>src/ssp-client-iso.cpp\<close>): the connector pipe, the
  worker thread that runs \<^verbatim>\<open>ReceiveThread\<close>, and \<^verbatim>\<open>Stop\<close> on another thread, as a step relation.
  A step is one action of the caller, of the worker, or the arrival of a whole message (or of
  the end of the stream) in a read the worker waits in; what a message contains is the subject
  of the theory of the pipe protocol.

  The owner serialises its own calls (\<^verbatim>\<open>lifecycleMutex_\<close> in the source), so they start only
  while no \<^verbatim>\<open>Stop\<close> is under way. \<^verbatim>\<open>Start\<close> is emitted on the thread the object was created in,
  where Qt runs the slot \<^verbatim>\<open>doStart\<close> at once. \<open>ic_terminated\<close> is \<^verbatim>\<open>std::terminate\<close>: a new
  \<^verbatim>\<open>std::thread\<close> assigned over a joinable one, or an empty callback invoked.
\<close>

datatype ssp_callback = CbBufferFull | CbH264 | CbAudio | CbConnected | CbDisconnected | CbMeta | CbException

datatype worker_pc = WGreeting | WTest | WReading | WExited

datatype stop_pc = CIdle | CJoin | CDestroy

record iso_client =
  ic_running :: bool
  ic_pipe :: "nat option"
  ic_worker :: "(worker_pc \<times> nat) option"
  ic_callbacks :: "ssp_callback set"
  ic_stop :: stop_pc
  ic_open :: "nat list"
  ic_created :: nat
  ic_terminated :: bool

definition iso_new :: iso_client where
  "iso_new = \<lparr>ic_running = False, ic_pipe = None, ic_worker = None, ic_callbacks = {}, ic_stop = CIdle,
     ic_open = [], ic_created = 0, ic_terminated = False\<rparr>"

definition setCallback :: "ssp_callback \<Rightarrow> iso_client \<Rightarrow> iso_client" where
  "setCallback cb c = c\<lparr>ic_callbacks := insert cb (ic_callbacks c)\<rparr>"

text \<open>\<open>created\<close>: whether the connector process could be started.\<close>

definition doStart :: "bool \<Rightarrow> iso_client \<Rightarrow> iso_client" where
  "doStart created c =
     (if \<not> created then c
      else c\<lparr>ic_running := True, ic_pipe := Some (ic_created c), ic_open := ic_created c # ic_open c,
             ic_created := Suc (ic_created c), ic_terminated := ic_worker c \<noteq> None,
             ic_worker := Some (WGreeting, ic_created c)\<rparr>)"

definition Stop_begin :: "iso_client \<Rightarrow> iso_client" where
  "Stop_begin c = (if \<not> ic_running c then c else c\<lparr>ic_running := False, ic_stop := CJoin\<rparr>)"

definition Stop_join :: "iso_client \<Rightarrow> iso_client option" where
  "Stop_join c =
     (case ic_worker c of
        None \<Rightarrow> Some (c\<lparr>ic_stop := CDestroy\<rparr>)
      | Some (pc, h) \<Rightarrow> if pc = WExited then Some (c\<lparr>ic_worker := None, ic_stop := CDestroy\<rparr>) else None)"

definition Stop_destroy :: "iso_client \<Rightarrow> iso_client" where
  "Stop_destroy c =
     (case ic_pipe c of
        None \<Rightarrow> c\<lparr>ic_stop := CIdle\<rparr>
      | Some h \<Rightarrow> c\<lparr>ic_open := remove1 h (ic_open c), ic_pipe := None, ic_stop := CIdle\<rparr>)"

text \<open>The destructor after its call of \<^verbatim>\<open>Stop\<close>.\<close>

definition clearCallbacks :: "iso_client \<Rightarrow> iso_client" where
  "clearCallbacks c = c\<lparr>ic_callbacks := {}\<rparr>"

definition callback_of :: "u32 \<Rightarrow> ssp_callback option" where
  "callback_of ty =
     (if ty = 1 then Some CbMeta else if ty = 2 then Some CbH264 else if ty = 3 then Some CbAudio
      else if ty = 4 then Some CbBufferFull else if ty = 5 then Some CbDisconnected
      else if ty = 6 then Some CbConnected else if ty = 7 then Some CbException else None)"

text \<open>What the worker does with the message it waited for, and with the end of the stream.\<close>

definition worker_message :: "u32 \<Rightarrow> iso_client \<Rightarrow> iso_client option" where
  "worker_message ty c =
     (case ic_worker c of
        Some (WGreeting, h) \<Rightarrow>
          Some (c\<lparr>ic_worker := Some (if ty = msg_code ConnectorOkMsg then WTest else WExited, h)\<rparr>)
      | Some (WReading, h) \<Rightarrow>
          (case callback_of ty of
             Some cb \<Rightarrow> Some (c\<lparr>ic_worker := Some (WTest, h), ic_terminated := cb \<notin> ic_callbacks c\<rparr>)
           | None \<Rightarrow> Some (c\<lparr>ic_worker := Some (WTest, h)\<rparr>))
      | _ \<Rightarrow> None)"

definition worker_eof :: "iso_client \<Rightarrow> iso_client option" where
  "worker_eof c =
     (case ic_worker c of
        Some (pc, h) \<Rightarrow> if pc = WGreeting \<or> pc = WReading then Some (c\<lparr>ic_worker := Some (WExited, h)\<rparr>) else None
      | None \<Rightarrow> None)"

definition worker_test :: "iso_client \<Rightarrow> iso_client option" where
  "worker_test c =
     (case ic_worker c of
        Some (WTest, h) \<Rightarrow> Some (c\<lparr>ic_worker := Some (if ic_running c then WReading else WExited, h)\<rparr>)
      | _ \<Rightarrow> None)"

datatype iso_label =
    IsoSetCallback ssp_callback | IsoStart bool | IsoStop | IsoClear
  | IsoJoined | IsoDestroyed | IsoTest | IsoMessage u32 | IsoEof

inductive iso_step :: "iso_label \<Rightarrow> iso_client \<Rightarrow> iso_client \<Rightarrow> bool" where
  set_callback: "\<not> ic_terminated c \<Longrightarrow> ic_stop c = CIdle \<Longrightarrow> iso_step (IsoSetCallback cb) c (setCallback cb c)"
| start: "\<not> ic_terminated c \<Longrightarrow> ic_stop c = CIdle \<Longrightarrow> iso_step (IsoStart ok) c (doStart ok c)"
| stop: "\<not> ic_terminated c \<Longrightarrow> ic_stop c = CIdle \<Longrightarrow> iso_step IsoStop c (Stop_begin c)"
| clear: "\<not> ic_terminated c \<Longrightarrow> ic_stop c = CIdle \<Longrightarrow> \<not> ic_running c \<Longrightarrow> iso_step IsoClear c (clearCallbacks c)"
| joined: "\<not> ic_terminated c \<Longrightarrow> ic_stop c = CJoin \<Longrightarrow> Stop_join c = Some c' \<Longrightarrow> iso_step IsoJoined c c'"
| destroyed: "\<not> ic_terminated c \<Longrightarrow> ic_stop c = CDestroy \<Longrightarrow> iso_step IsoDestroyed c (Stop_destroy c)"
| test: "\<not> ic_terminated c \<Longrightarrow> worker_test c = Some c' \<Longrightarrow> iso_step IsoTest c c'"
| message: "\<not> ic_terminated c \<Longrightarrow> worker_message ty c = Some c' \<Longrightarrow> iso_step (IsoMessage ty) c c'"
| eof: "\<not> ic_terminated c \<Longrightarrow> worker_eof c = Some c' \<Longrightarrow> iso_step IsoEof c c'"

inductive iso_run :: "iso_label list \<Rightarrow> iso_client \<Rightarrow> iso_client \<Rightarrow> bool" where
  run_refl: "iso_run [] c c"
| run_step: "iso_step l c c1 \<Longrightarrow> iso_run ls c1 c2 \<Longrightarrow> iso_run (l # ls) c c2"

lemmas iso_defs = setCallback_def doStart_def Stop_begin_def Stop_join_def Stop_destroy_def clearCallbacks_def
  worker_message_def worker_eof_def worker_test_def

inductive_cases iso_run_NilE: "iso_run [] c c'"
inductive_cases iso_run_ConsE: "iso_run (l # ls) c c'"

subsection \<open>The invariant\<close>

text \<open>The pipe, the worker and the list of open pipes agree in every phase of \<^verbatim>\<open>Stop\<close>.\<close>

fun owns_pipe :: "nat option \<Rightarrow> (worker_pc \<times> nat) option \<Rightarrow> nat list \<Rightarrow> bool" where
  "owns_pipe (Some h) (Some (pc, w)) os \<longleftrightarrow> w = h \<and> os = [h]"
| "owns_pipe _ _ _ \<longleftrightarrow> False"

definition iso_inv :: "iso_client \<Rightarrow> bool" where
  "iso_inv c \<longleftrightarrow> ic_terminated c \<or>
     (case ic_stop c of
        CIdle \<Rightarrow> if ic_running c then owns_pipe (ic_pipe c) (ic_worker c) (ic_open c)
                else ic_pipe c = None \<and> ic_worker c = None \<and> ic_open c = []
      | CJoin \<Rightarrow> \<not> ic_running c \<and> owns_pipe (ic_pipe c) (ic_worker c) (ic_open c)
      | CDestroy \<Rightarrow> \<not> ic_running c \<and> ic_worker c = None \<and> (\<exists>h. ic_pipe c = Some h \<and> ic_open c = [h]))"

lemma owns_pipe_iff: "owns_pipe p w os \<longleftrightarrow> (\<exists>h pc. p = Some h \<and> w = Some (pc, h) \<and> os = [h])"
  by (cases "(p, w, os)" rule: owns_pipe.cases) auto

lemma iso_step_inv: "iso_step l c c' \<Longrightarrow> iso_inv c \<Longrightarrow> iso_inv c'"
  by (induction rule: iso_step.induct)
    (auto simp: iso_inv_def iso_defs owns_pipe_iff split: stop_pc.splits if_splits option.splits worker_pc.splits)

lemma iso_run_inv: "iso_run ls c c' \<Longrightarrow> iso_inv c \<Longrightarrow> iso_inv c'"
  by (induction rule: iso_run.induct) (auto intro: iso_step_inv)

lemma iso_inv_new: "iso_inv iso_new"
  by (simp add: iso_inv_def iso_new_def)

lemma iso_reachable_inv: "iso_run ls iso_new c \<Longrightarrow> iso_inv c"
  using iso_run_inv iso_inv_new by blast

subsection \<open>Properties\<close>

text \<open>
  C12. Pipe and thread life times of the client: as long as the process is alive, the worker only ever
  reads from a pipe that is open, and whenever \<^verbatim>\<open>Stop\<close> has returned the worker has been joined
  and every pipe ever created has been destroyed; and \<^verbatim>\<open>std::terminate\<close> can only come from
  starting a client that is already running or from a message whose callback was never set.
\<close>

theorem iso_pipe_lifetime:
  assumes "iso_run ls iso_new c" and "\<not> ic_terminated c"
  shows "(\<forall>pc h. ic_worker c = Some (pc, h) \<longrightarrow> h \<in> set (ic_open c))
     \<and> (ic_stop c = CIdle \<and> \<not> ic_running c \<longrightarrow> ic_worker c = None \<and> ic_open c = [])
     \<and> (\<forall>l c'. iso_step l c c' \<and> ic_terminated c' \<longrightarrow>
          l = IsoStart True \<and> ic_running c
          \<or> (\<exists>ty cb. l = IsoMessage ty \<and> callback_of ty = Some cb \<and> cb \<notin> ic_callbacks c))"
proof -
  have inv: "iso_inv c" using assms(1) by (rule iso_reachable_inv)
  have "l = IsoStart True \<and> ic_running c
      \<or> (\<exists>ty cb. l = IsoMessage ty \<and> callback_of ty = Some cb \<and> cb \<notin> ic_callbacks c)"
    if "iso_step l c c'" "ic_terminated c'" for l c'
    using that inv assms(2)
    by (cases rule: iso_step.cases)
      (auto simp: iso_inv_def iso_defs split: if_splits option.splits prod.splits worker_pc.splits)
  moreover have "\<forall>pc h. ic_worker c = Some (pc, h) \<longrightarrow> h \<in> set (ic_open c)"
    using inv assms(2) by (auto simp: iso_inv_def owns_pipe_iff split: stop_pc.splits if_splits)
  moreover have "ic_stop c = CIdle \<and> \<not> ic_running c \<longrightarrow> ic_worker c = None \<and> ic_open c = []"
    using inv assms(2) by (auto simp: iso_inv_def)
  ultimately show ?thesis by blast
qed

definition stopping_example :: iso_client where
  "stopping_example = \<lparr>ic_running = False, ic_pipe = Some 0, ic_worker = Some (WReading, 0), ic_callbacks = {},
     ic_stop = CJoin, ic_open = [0], ic_created = 1, ic_terminated = False\<rparr>"

lemma example_run: "iso_run [IsoStart True, IsoMessage 8, IsoTest, IsoStop] iso_new stopping_example"
proof -
  let ?c1 = "doStart True iso_new"
  let ?c2 = "?c1\<lparr>ic_worker := Some (WTest, 0)\<rparr>"
  let ?c3 = "?c1\<lparr>ic_worker := Some (WReading, 0)\<rparr>"
  have s1: "iso_step (IsoStart True) iso_new ?c1" by (rule iso_step.start) (simp_all add: iso_new_def)
  have s2: "iso_step (IsoMessage 8) ?c1 ?c2"
    by (rule iso_step.message) (simp_all add: iso_new_def iso_defs)
  have s3: "iso_step IsoTest ?c2 ?c3" by (rule iso_step.test) (simp_all add: iso_new_def iso_defs)
  have "Stop_begin ?c3 = stopping_example" by (simp add: iso_new_def iso_defs stopping_example_def)
  then have s4: "iso_step IsoStop ?c3 stopping_example"
    using iso_step.stop [of ?c3] by (simp add: iso_new_def doStart_def)
  show ?thesis
    by (rule run_step [OF s1 run_step [OF s2 run_step [OF s3 run_step [OF s4 run_refl]]]])
qed

lemma stopping_example_simps [simp]:
  "\<not> ic_terminated stopping_example" "ic_stop stopping_example = CJoin"
  "ic_worker stopping_example = Some (WReading, 0)"
  by (simp_all add: stopping_example_def)

theorem iso_pipe_lifetime_witness: "0 \<in> set (ic_open stopping_example)"
  using iso_pipe_lifetime [OF example_run] by simp



text \<open>
  While the connector stays silent, \<^verbatim>\<open>Stop\<close> does not return: once it waits for a worker that
  is inside a read, no sequence of steps without a message and without an end of stream lets it
  proceed. The pipe, whose destruction would end the connector, is destroyed only after the join.
\<close>

theorem iso_stop_waits_for_connector:
  assumes "iso_run ls c c'" and "ic_stop c = CJoin" and "ic_worker c = Some (pc, h)"
    and "pc = WReading \<or> pc = WGreeting" and "\<forall>l\<in>set ls. l \<noteq> IsoEof \<and> (\<forall>ty. l \<noteq> IsoMessage ty)"
  shows "ls = [] \<and> c' = c"
  using assms(1)
proof cases
  case (run_step l c1 ls')
  from run_step(2) assms(2,3,4,5) run_step(1) show ?thesis
    by (cases rule: iso_step.cases) (auto simp: iso_defs)
qed simp

theorem iso_stop_waits_for_connector_witness: "\<nexists>c'. iso_run [IsoTest, IsoJoined, IsoDestroyed] stopping_example c'"
  using iso_stop_waits_for_connector [of "[IsoTest, IsoJoined, IsoDestroyed]" stopping_example _ WReading 0] by auto

end
