(* ===== verification/Frame_Queue.thy ===== *)
theory Frame_Queue
  imports Trace_System
begin

text \<open>
  The frame queue of \<^verbatim>\<open>src/VFrameQueue.cpp\<close>: producers enqueue copies of access units, one
  consumer thread takes them out, delivers those that are not late, and frees every copy.

  The steps are the actions of the producer (\<open>FqEnqueue\<close>), of the owner (\<open>FqStart\<close>, \<open>FqStop\<close>,
  \<open>FqJoin\<close>) and of the consumer thread (\<open>FqConsume d\<close>: one pass through its loop, where \<open>d\<close> is
  the processing time the two clock readings around the callback give). A step that cannot
  happen (an acquire of an exhausted semaphore, an owner call out of turn) changes nothing.
\<close>

type_synonym time_us = u64

record frame =
  fr_data :: bytes
  fr_time :: time_us
  fr_noDrop :: bool

datatype fq_pc = FqNone | FqFirst | FqTest | FqWait | FqDone

record frame_queue =
  fq_frames :: "frame list"
  fq_sem :: nat
  fq_running :: bool
  fq_max_time :: time_us
  fq_pc :: fq_pc
  fq_last :: time_us
  fq_processing :: time_us

datatype fq_event = FqEnqueued frame | FqDelivered frame | FqFreed frame

definition fq_new :: frame_queue where
  "fq_new = \<lparr>fq_frames = [], fq_sem = 0, fq_running = False, fq_max_time = 0, fq_pc = FqNone,
     fq_last = 0, fq_processing = 0\<rparr>"

definition fq_start :: "frame_queue \<Rightarrow> frame_queue" where
  "fq_start q = (if fq_pc q = FqNone then q\<lparr>fq_running := True, fq_pc := FqFirst, fq_last := 0, fq_processing := 0\<rparr> else q)"

definition fq_stop :: "frame_queue \<Rightarrow> frame_queue" where
  "fq_stop q = (if fq_pc q = FqNone \<or> \<not> fq_running q then q else q\<lparr>fq_running := False, fq_sem := fq_sem q + 1\<rparr>)"

definition fq_join :: "frame_queue \<Rightarrow> frame_queue" where
  "fq_join q = (if fq_pc q = FqDone \<and> \<not> fq_running q then q\<lparr>fq_pc := FqNone\<rparr> else q)"

definition setFrameTime :: "time_us \<Rightarrow> frame_queue \<Rightarrow> frame_queue" where
  "setFrameTime t q = q\<lparr>fq_max_time := t\<rparr>"

definition fq_enqueue :: "frame \<Rightarrow> frame_queue \<Rightarrow> frame_queue \<times> fq_event list" where
  "fq_enqueue f q = (q\<lparr>fq_frames := fq_frames q @ [f], fq_sem := fq_sem q + 1\<rparr>, [FqEnqueued f])"

text \<open>The head of the loop: acquire, lock, dequeue, unlock.\<close>

definition fq_take :: "frame_queue \<Rightarrow> (frame option \<times> frame_queue) option" where
  "fq_take q =
     (if fq_sem q = 0 then None
      else (case fq_frames q of
              [] \<Rightarrow> Some (None, q\<lparr>fq_sem := fq_sem q - 1\<rparr>)
            | f # fs \<Rightarrow> Some (Some f, q\<lparr>fq_sem := fq_sem q - 1, fq_frames := fs\<rparr>)))"

definition fq_deliver :: "time_us \<Rightarrow> frame \<Rightarrow> frame_queue \<Rightarrow> frame_queue \<times> fq_event list" where
  "fq_deliver d f q = (q\<lparr>fq_last := fr_time f, fq_processing := d\<rparr>, [FqDelivered f, FqFreed f])"

definition fq_process :: "time_us \<Rightarrow> frame \<Rightarrow> frame_queue \<Rightarrow> frame_queue \<times> fq_event list" where
  "fq_process d f q =
     (if fr_time f < fq_last q then (q, [FqFreed f])
      else if fr_noDrop f then fq_deliver d f q
      else if fr_time f - fq_last q + 15000 > fq_processing q then fq_deliver d f q
      else (q, [FqFreed f]))"

definition fq_consume :: "time_us \<Rightarrow> frame_queue \<Rightarrow> frame_queue \<times> fq_event list" where
  "fq_consume d q =
     (case fq_pc q of
        FqFirst \<Rightarrow>
          (case fq_take q of
             None \<Rightarrow> (q, [])
           | Some (None, q1) \<Rightarrow> (q1\<lparr>fq_pc := FqDone\<rparr>, [])
           | Some (Some f, q1) \<Rightarrow> fq_deliver d f (q1\<lparr>fq_pc := FqTest\<rparr>))
      | FqTest \<Rightarrow> (q\<lparr>fq_pc := (if fq_running q then FqWait else FqDone)\<rparr>, [])
      | FqWait \<Rightarrow>
          (case fq_take q of
             None \<Rightarrow> (q, [])
           | Some (None, q1) \<Rightarrow> (q1\<lparr>fq_pc := FqTest\<rparr>, [])
           | Some (Some f, q1) \<Rightarrow> fq_process d f (q1\<lparr>fq_pc := FqTest\<rparr>))
      | _ \<Rightarrow> (q, []))"

datatype fq_input = FqEnqueue frame | FqStart | FqStop | FqJoin | FqSetTime time_us | FqConsume time_us

fun fq_step :: "fq_input \<Rightarrow> frame_queue \<Rightarrow> frame_queue \<times> fq_event list" where
  "fq_step (FqEnqueue f) q = fq_enqueue f q"
| "fq_step FqStart q = (fq_start q, [])"
| "fq_step FqStop q = (fq_stop q, [])"
| "fq_step FqJoin q = (fq_join q, [])"
| "fq_step (FqSetTime t) q = (setFrameTime t q, [])"
| "fq_step (FqConsume d) q = fq_consume d q"

lemmas fq_defs = fq_enqueue_def fq_start_def fq_stop_def fq_join_def setFrameTime_def fq_consume_def fq_take_def
  fq_deliver_def fq_process_def

fun enqueued_frame :: "fq_event \<Rightarrow> frame option" where
  "enqueued_frame (FqEnqueued f) = Some f"
| "enqueued_frame _ = None"

fun freed_frame :: "fq_event \<Rightarrow> frame option" where
  "freed_frame (FqFreed f) = Some f"
| "freed_frame _ = None"

fun delivered_time :: "fq_event \<Rightarrow> time_us option" where
  "delivered_time (FqDelivered f) = Some (fr_time f)"
| "delivered_time _ = None"

subsection \<open>The queue is a FIFO service\<close>

text \<open>The semaphore covers the queued frames, and holds one more permit when a stop is pending.\<close>

definition fq_inv :: "frame_queue \<Rightarrow> bool" where
  "fq_inv q \<longleftrightarrow> length (fq_frames q) \<le> fq_sem q
     \<and> (fq_pc q = FqWait \<and> \<not> fq_running q \<longrightarrow> length (fq_frames q) < fq_sem q)
     \<and> (fq_pc q = FqFirst \<and> \<not> fq_running q \<longrightarrow> length (fq_frames q) < fq_sem q)
     \<and> (fq_pc q = FqNone \<longrightarrow> \<not> fq_running q)"

interpretation fq: fifo_service fq_step fq_inv fq_frames enqueued_frame freed_frame
proof
  show "fq_inv (fst (fq_step i q))" if "fq_inv q" for i q
    using that by (cases i) (auto simp: fq_defs fq_inv_def split: fq_pc.splits list.splits)
  show "fq_frames q @ occurrences enqueued_frame (snd (fq_step i q))
      = occurrences freed_frame (snd (fq_step i q)) @ fq_frames (fst (fq_step i q))" if "fq_inv q" for i q
    using that by (cases i) (auto simp: fq_defs split: fq_pc.splits list.splits)
qed

lemma fq_inv_new: "fq_inv fq_new"
  by (simp add: fq_inv_def fq_new_def)

text \<open>
  Ownership of the frame copies: along every run, the copies freed are exactly the first
  copies enqueued, in order and once each, and the rest is what the queue still holds; a copy is
  never freed twice, and one that is still queued when the consumer ends is never freed at all.
\<close>

theorem frame_queue_freed_once:
  "occurrences enqueued_frame (snd (run_trace fq_step is fq_new))
     = occurrences freed_frame (snd (run_trace fq_step is fq_new)) @ fq_frames (fst (run_trace fq_step is fq_new))"
  using fq.run_fifo [OF fq_inv_new, of "is"] by (simp add: fq_new_def)

subsection \<open>What is delivered\<close>

text \<open>
  The contract of the consumer as a predicate on its trace: delivery times never decrease, and a
  frame marked \<^verbatim>\<open>noDrop\<close> is freed only right after its delivery or when a frame of a later time
  has been delivered before it. \<open>t\<close> is the time of the latest delivery before the trace.
\<close>

fun fq_spec :: "time_us \<Rightarrow> fq_event list \<Rightarrow> bool" where
  "fq_spec t [] \<longleftrightarrow> True"
| "fq_spec t (FqEnqueued f # es) \<longleftrightarrow> fq_spec t es"
| "fq_spec t (FqDelivered f # FqFreed g # es) \<longleftrightarrow> t \<le> fr_time f \<and> g = f \<and> fq_spec (fr_time f) es"
| "fq_spec t (FqDelivered f # es) \<longleftrightarrow> False"
| "fq_spec t (FqFreed f # es) \<longleftrightarrow> (fr_noDrop f \<longrightarrow> fr_time f < t) \<and> fq_spec t es"

lemma fq_step_spec:
  assumes "fq_spec (fq_last (fst (fq_step i q))) es" "fq_pc q \<noteq> FqFirst" "fq_step i q = (q1, e1)" "fq_pc q1 \<noteq> FqFirst"
  shows "fq_spec (fq_last q) (e1 @ es)"
  using assms by (cases i) (auto simp: fq_defs split: fq_pc.splits list.splits if_splits)

lemma fq_run_spec:
  "fq_pc q \<noteq> FqFirst \<Longrightarrow> fq_pc q \<noteq> FqNone \<Longrightarrow> FqJoin \<notin> set is \<Longrightarrow> fq_spec (fq_last q) (snd (run_trace fq_step is q))"
proof (induction "is" arbitrary: q)
  case (Cons i "is")
  obtain q1 e1 where st: "fq_step i q = (q1, e1)" by fastforce
  have pc: "fq_pc q1 \<noteq> FqFirst" "fq_pc q1 \<noteq> FqNone"
    using st Cons.prems by (cases i; auto simp: fq_defs split: fq_pc.splits list.splits if_splits)+
  with Cons.IH [of q1] Cons.prems have "fq_spec (fq_last q1) (snd (run_trace fq_step is q1))" by simp
  with fq_step_spec [OF _ Cons.prems(1) st pc(1)] st show ?case
    by (simp add: split_beta)
qed simp

text \<open>Before the first frame nothing is delivered or freed.\<close>

lemma fq_first_spec:
  "fq_pc q = FqFirst \<or> fq_pc q = FqNone \<Longrightarrow> fq_last q = 0 \<Longrightarrow> FqJoin \<notin> set is \<Longrightarrow>
   fq_spec 0 (snd (run_trace fq_step is q))"
proof (induction "is" arbitrary: q)
  case (Cons i "is")
  obtain q1 e1 where st: "fq_step i q = (q1, e1)" by fastforce
  consider "fq_pc q1 = FqFirst \<or> fq_pc q1 = FqNone" "fq_last q1 = 0" "e1 = [] \<or> (\<exists>f. e1 = [FqEnqueued f])"
    | "fq_pc q1 = FqDone" "fq_last q1 = 0" "e1 = []"
    | f where "fq_pc q1 = FqTest" "e1 = [FqDelivered f, FqFreed f]" "fq_last q1 = fr_time f"
    using st Cons.prems by (cases i) (auto simp: fq_defs split: fq_pc.splits list.splits if_splits)
  then show ?case
  proof cases
    case 1
    with Cons.IH [of q1] Cons.prems st show ?thesis by (auto simp: split_beta)
  next
    case 2
    with fq_run_spec [of q1 "is"] Cons.prems st show ?thesis by (simp add: split_beta)
  next
    case 3
    with fq_run_spec [of q1 "is"] Cons.prems st show ?thesis by (simp add: split_beta)
  qed
qed simp

text \<open>
  C23. What the consumer delivers: during one run of the consumer thread, whatever the producers do and however long the callbacks
  take, the times of the delivered frames never decrease, every delivered frame is freed right
  after its callback, and a frame marked \<^verbatim>\<open>noDrop\<close> is discarded only when a frame of a later time has
  already been delivered.
\<close>

theorem frame_queue_delivery:
  assumes "FqJoin \<notin> set is"
  shows "fq_spec 0 (snd (run_trace fq_step is fq_new))"
  using fq_first_spec [of fq_new "is"] assms by (simp add: fq_new_def)

theorem frame_queue_delivery_witness:
  "fq_spec 0 (snd (run_trace fq_step
     [FqStart, FqEnqueue \<lparr>fr_data = [], fr_time = 9, fr_noDrop = True\<rparr>, FqConsume 20000,
      FqEnqueue \<lparr>fr_data = [], fr_time = 7, fr_noDrop = True\<rparr>, FqConsume 1, FqConsume 1] fq_new))
   \<and> occurrences freed_frame (snd (run_trace fq_step
     [FqStart, FqEnqueue \<lparr>fr_data = [], fr_time = 9, fr_noDrop = True\<rparr>, FqConsume 20000,
      FqEnqueue \<lparr>fr_data = [], fr_time = 7, fr_noDrop = True\<rparr>, FqConsume 1, FqConsume 1] fq_new))
     = [\<lparr>fr_data = [], fr_time = 9, fr_noDrop = True\<rparr>, \<lparr>fr_data = [], fr_time = 7, fr_noDrop = True\<rparr>]"
proof
  show "occurrences freed_frame (snd (run_trace fq_step
     [FqStart, FqEnqueue \<lparr>fr_data = [], fr_time = 9, fr_noDrop = True\<rparr>, FqConsume 20000,
      FqEnqueue \<lparr>fr_data = [], fr_time = 7, fr_noDrop = True\<rparr>, FqConsume 1, FqConsume 1] fq_new))
     = [\<lparr>fr_data = [], fr_time = 9, fr_noDrop = True\<rparr>, \<lparr>fr_data = [], fr_time = 7, fr_noDrop = True\<rparr>]"
    by (simp add: fq_defs fq_new_def)
qed (rule frame_queue_delivery, simp)

text \<open>
  Stopping the queue ends its thread: in every reachable state with a running consumer, after \<^verbatim>\<open>stop\<close>
  has raised the semaphore three passes of the consumer thread, of any duration, bring it to its
  end, so that the join returns.
\<close>

theorem frame_queue_stop_terminates:
  assumes "fq_running (fst (run_trace fq_step is fq_new))"
  shows "fq_pc (fst (run_trace fq_step [FqStop, FqConsume d1, FqConsume d2, FqConsume d3, FqJoin]
           (fst (run_trace fq_step is fq_new)))) = FqNone"
proof -
  let ?q = "fst (run_trace fq_step is fq_new)"
  have "fq_inv ?q" by (rule fq.run_inv) (rule fq_inv_new)
  with assms show ?thesis
    by (cases "fq_pc ?q"; cases "fq_frames ?q") (auto simp: fq_defs fq_inv_def split_beta)
qed

theorem frame_queue_stop_terminates_witness:
  "fq_pc (fst (run_trace fq_step [FqStop, FqConsume 1, FqConsume 2, FqConsume 3, FqJoin]
     (fst (run_trace fq_step [FqStart, FqEnqueue \<lparr>fr_data = [], fr_time = 9, fr_noDrop = True\<rparr>] fq_new)))) = FqNone"
  by (rule frame_queue_stop_terminates) (simp add: fq_defs fq_new_def)

end
