(* ===== verification/Mdns_Discovery.thy ===== *)
theory Mdns_Discovery
  imports Trace_System "HOL-Library.List_Lexorder" "HOL-Library.Char_ord"
begin

text \<open>
  Camera discovery, \<^verbatim>\<open>src/ssp-mdns.cpp\<close> and \<^verbatim>\<open>.h\<close>: the interface scan that opens the query
  sockets, the query thread, the callback that turns DNS answers into device records, and the
  iterator over the records.

  The vendored mDNS library and the operating system are parameters: an \<open>answer\<close> is one call of
  the callback with what the library parsed, \<open>open\<close> is the result of opening a socket,
  \<open>gni4\<close> and \<open>gni6\<close> are the numeric \<^verbatim>\<open>getnameinfo\<close>. The \<^verbatim>\<open>std::map\<close> of records is an association
  list kept sorted by its keys. An exception that leaves the callback (the library is C code,
  so it ends the process) is \<open>None\<close>.
\<close>

record sockaddr_in =
  sin_addr :: bytes
  sin_port :: u16

record sockaddr_in6 =
  sin6_addr :: bytes
  sin6_port :: u16

datatype family = AF_INET | AF_INET6

record mdns_record =
  has_ptr :: bool
  ptr_record :: string
  has_a :: bool
  a_record :: sockaddr_in
  has_aaaa :: bool
  aaaa_record :: sockaddr_in6
  last_available :: u64

record ssp_device_item =
  device_name :: string
  ip_address :: string

type_synonym gni4 = "sockaddr_in \<Rightarrow> (string \<times> string) option"
type_synonym gni6 = "sockaddr_in6 \<Rightarrow> (string \<times> string) option"

subsection \<open>The sorted table\<close>

fun map_put :: "'k::linorder \<Rightarrow> 'v \<Rightarrow> ('k \<times> 'v) list \<Rightarrow> ('k \<times> 'v) list" where
  "map_put k v [] = [(k, v)]"
| "map_put k v ((k1, v1) # m) =
     (if k = k1 then (k, v) # m else if k < k1 then (k, v) # (k1, v1) # m else (k1, v1) # map_put k v m)"

definition sorted_keys :: "('k::linorder \<times> 'v) list \<Rightarrow> bool" where
  "sorted_keys m \<longleftrightarrow> sorted (map fst m) \<and> distinct (map fst m)"

subsection \<open>Addresses as text\<close>

definition ipv4_address_to_string :: "gni4 \<Rightarrow> nat \<Rightarrow> sockaddr_in \<Rightarrow> string" where
  "ipv4_address_to_string gni capacity addr =
     (case gni addr of
        None \<Rightarrow> []
      | Some (host, service) \<Rightarrow>
          take (capacity - 1) (if sin_port addr \<noteq> 0 then host @ '':'' @ service else host))"

definition ipv6_address_to_string :: "gni6 \<Rightarrow> nat \<Rightarrow> sockaddr_in6 \<Rightarrow> string" where
  "ipv6_address_to_string gni capacity addr =
     (case gni addr of
        None \<Rightarrow> []
      | Some (host, service) \<Rightarrow>
          take (capacity - 1) (if sin6_port addr \<noteq> 0 then ''['' @ host @ '']:'' @ service else host))"

subsection \<open>Answers\<close>

definition query_domain :: string where
  "query_domain = ''_eagle._tcp.local''"

datatype rr = RrPtr string | RrA sockaddr_in | RrAaaa sockaddr_in6 | RrOther

record answer =
  an_tid :: u16
  an_family :: family
  an_rr :: rr
  an_now :: u64

record mdns_state =
  current_transaction_id :: u16
  current_mdns_record :: mdns_record
  ssp_records :: "(string \<times> mdns_record) list"

definition record_init :: mdns_record where
  "record_init = \<lparr>has_ptr = False, ptr_record = [], has_a = False, a_record = \<lparr>sin_addr = [], sin_port = 0\<rparr>,
     has_aaaa = False, aaaa_record = \<lparr>sin6_addr = [], sin6_port = 0\<rparr>, last_available = 0\<rparr>"

definition mdns_init :: mdns_state where
  "mdns_init = \<lparr>current_transaction_id = 0, current_mdns_record = record_init, ssp_records = []\<rparr>"

definition new_transaction :: "u16 \<Rightarrow> mdns_state \<Rightarrow> mdns_state" where
  "new_transaction tid s =
     (if tid \<noteq> current_transaction_id s
      then s\<lparr>current_mdns_record := (current_mdns_record s)\<lparr>has_ptr := False, has_a := False, has_aaaa := False\<rparr>,
             current_transaction_id := tid\<rparr>
      else s)"

definition store_current :: "mdns_record \<Rightarrow> mdns_state \<Rightarrow> mdns_state" where
  "store_current r s = s\<lparr>current_mdns_record := r, ssp_records := map_put (ptr_record r) r (ssp_records s)\<rparr>"

text \<open>The instance name is the PTR target without \<^verbatim>\<open>._eagle._tcp.local.\<close>; the length is
  computed in \<^verbatim>\<open>size_t\<close>, so a shorter target asks \<^verbatim>\<open>std::string\<close> for almost 2^64 characters.\<close>

definition query_callback :: "answer \<Rightarrow> mdns_state \<Rightarrow> mdns_state option" where
  "query_callback an s0 =
     (let s = new_transaction (an_tid an) s0; r = current_mdns_record s; until = an_now an + 60 * 1000 in
      case an_rr an of
        RrPtr target \<Rightarrow>
          if length target < length query_domain + 2 then None
          else Some (s\<lparr>current_mdns_record :=
                 r\<lparr>ptr_record := take (length target - length query_domain - 2) target, last_available := until,
                   has_ptr := True\<rparr>\<rparr>)
      | RrA addr \<Rightarrow>
          Some (if has_ptr r \<and> an_family an = AF_INET
                then store_current (r\<lparr>a_record := addr, has_a := True, last_available := until\<rparr>) s else s)
      | RrAaaa addr \<Rightarrow>
          Some (if has_ptr r \<and> an_family an = AF_INET6
                then store_current (r\<lparr>aaaa_record := addr, has_aaaa := True, last_available := until\<rparr>) s else s)
      | RrOther \<Rightarrow> Some s)"

fun query_recv :: "answer list \<Rightarrow> mdns_state \<Rightarrow> mdns_state option" where
  "query_recv [] s = Some s"
| "query_recv (an # ans) s = (case query_callback an s of None \<Rightarrow> None | Some s1 \<Rightarrow> query_recv ans s1)"

subsection \<open>Iterator\<close>

record mdns_iter =
  it_rest :: "(string \<times> mdns_record) list"
  it_time :: u64

definition iterator :: "u64 \<Rightarrow> mdns_state \<Rightarrow> mdns_iter" where
  "iterator now s = \<lparr>it_rest = ssp_records s, it_time = now\<rparr>"

definition hasNext :: "mdns_iter \<Rightarrow> bool" where
  "hasNext it \<longleftrightarrow> it_rest it \<noteq> []"

definition item_of :: "gni4 \<Rightarrow> gni6 \<Rightarrow> mdns_record \<Rightarrow> ssp_device_item option" where
  "item_of g4 g6 r =
     (if has_a r then Some \<lparr>device_name = ptr_record r, ip_address = ipv4_address_to_string g4 64 (a_record r)\<rparr>
      else if has_aaaa r
      then Some \<lparr>device_name = ptr_record r, ip_address = ipv6_address_to_string g6 64 (aaaa_record r)\<rparr>
      else None)"

fun next_item :: "gni4 \<Rightarrow> gni6 \<Rightarrow> u64 \<Rightarrow> (string \<times> mdns_record) list \<Rightarrow>
    ssp_device_item option \<times> (string \<times> mdns_record) list" where
  "next_item g4 g6 now [] = (None, [])"
| "next_item g4 g6 now ((k, r) # rest) =
     (if last_available r < now then next_item g4 g6 now rest
      else (case item_of g4 g6 r of
              None \<Rightarrow> next_item g4 g6 now rest
            | Some it \<Rightarrow> (Some it, rest)))"

definition iter_next :: "gni4 \<Rightarrow> gni6 \<Rightarrow> mdns_iter \<Rightarrow> ssp_device_item option \<times> mdns_iter" where
  "iter_next g4 g6 it =
     (case next_item g4 g6 (it_time it) (it_rest it) of (d, rest) \<Rightarrow> (d, it\<lparr>it_rest := rest\<rparr>))"

lemma next_item_le: "length (snd (next_item g4 g6 now m)) \<le> length m"
proof (induction m)
  case (Cons x m)
  then show ?case by (cases x) (auto split: option.splits)
qed simp

lemma next_item_less: "m \<noteq> [] \<Longrightarrow> length (snd (next_item g4 g6 now m)) < length m"
  using next_item_le [of g4 g6 now "tl m"] by (cases m) (auto split: option.splits)

lemma iter_next_shorter: "hasNext it \<Longrightarrow> iter_next g4 g6 it = (d, it1) \<Longrightarrow> length (it_rest it1) < length (it_rest it)"
  using next_item_less [of "it_rest it" g4 g6 "it_time it"] by (auto simp: hasNext_def iter_next_def split: prod.splits)

text \<open>The loop of a client: \<^verbatim>\<open>while (it.hasNext()) it.next()\<close>.\<close>

function all_items :: "gni4 \<Rightarrow> gni6 \<Rightarrow> mdns_iter \<Rightarrow> ssp_device_item list" where
  "all_items g4 g6 it =
     (if \<not> hasNext it then []
      else (case iter_next g4 g6 it of
              (None, it1) \<Rightarrow> all_items g4 g6 it1
            | (Some d, it1) \<Rightarrow> d # all_items g4 g6 it1))"
  by pat_completeness auto

termination
  by (relation "measure (\<lambda>(g4, g6, it). length (it_rest it))") (auto dest: iter_next_shorter [OF _ sym])

declare all_items.simps [simp del]

subsection \<open>Query sockets\<close>

text \<open>\<open>If6\<close> carries whether Windows reports the address as preferred (no duplicate detected).\<close>

datatype ifaddr = IfNoAddress | If4 sockaddr_in | If6 sockaddr_in6 bool | IfOther

record adapter =
  ad_teredo :: bool
  ad_up :: bool
  ad_unicast :: "ifaddr list"

record scan =
  sc_sockets :: "int list"
  sc_ipv4 :: "bytes option"
  sc_ipv6 :: "bytes option"
  sc_has_ipv4 :: bool
  sc_has_ipv6 :: bool

definition loopback4 :: bytes where
  "loopback4 = [127, 0, 0, 1]"

definition loopback6 :: "bytes list" where
  "loopback6 = [replicate 15 0 @ [1], replicate 10 0 @ [0xff, 0xff, 0x7f, 0, 0, 1]]"

definition add_socket :: "nat \<Rightarrow> int \<Rightarrow> scan \<Rightarrow> scan" where
  "add_socket max_sockets sock sc =
     (if length (sc_sockets sc) < max_sockets \<and> sock \<ge> 0 then sc\<lparr>sc_sockets := sc_sockets sc @ [sock]\<rparr> else sc)"

definition visit4 :: "(sockaddr_in \<Rightarrow> int) \<Rightarrow> nat \<Rightarrow> u16 \<Rightarrow> sockaddr_in \<Rightarrow> scan \<Rightarrow> scan" where
  "visit4 open4 max_sockets port addr sc =
     (if sin_addr addr = loopback4 then sc
      else add_socket max_sockets (open4 (addr\<lparr>sin_port := port\<rparr>))
             (sc\<lparr>sc_ipv4 := (case sc_ipv4 sc of None \<Rightarrow> Some (sin_addr addr) | Some a \<Rightarrow> Some a), sc_has_ipv4 := True\<rparr>))"

definition visit6 :: "(sockaddr_in6 \<Rightarrow> int) \<Rightarrow> nat \<Rightarrow> u16 \<Rightarrow> sockaddr_in6 \<Rightarrow> scan \<Rightarrow> scan" where
  "visit6 open6 max_sockets port addr sc =
     (if List.member loopback6 (sin6_addr addr) then sc
      else add_socket max_sockets (open6 (addr\<lparr>sin6_port := port\<rparr>))
             (sc\<lparr>sc_ipv6 := (case sc_ipv6 sc of None \<Rightarrow> Some (sin6_addr addr) | Some a \<Rightarrow> Some a), sc_has_ipv6 := True\<rparr>))"

fun visit :: "bool \<Rightarrow> (sockaddr_in \<Rightarrow> int) \<Rightarrow> (sockaddr_in6 \<Rightarrow> int) \<Rightarrow> nat \<Rightarrow> u16 \<Rightarrow> ifaddr \<Rightarrow> scan \<Rightarrow> scan" where
  "visit windows open4 open6 mx port (If4 a) sc = visit4 open4 mx port a sc"
| "visit windows open4 open6 mx port (If6 a preferred) sc =
     (if windows \<and> \<not> preferred then sc else visit6 open6 mx port a sc)"
| "visit windows open4 open6 mx port _ sc = sc"

definition scan_init :: scan where
  "scan_init = \<lparr>sc_sockets = [], sc_ipv4 = None, sc_ipv6 = None, sc_has_ipv4 = False, sc_has_ipv6 = False\<rparr>"

definition open_client_sockets_unix ::
  "(sockaddr_in \<Rightarrow> int) \<Rightarrow> (sockaddr_in6 \<Rightarrow> int) \<Rightarrow> nat \<Rightarrow> u16 \<Rightarrow> ifaddr list \<Rightarrow> scan" where
  "open_client_sockets_unix open4 open6 mx port ifs = fold (visit False open4 open6 mx port) ifs scan_init"

datatype adapters_result = AdOverflow | AdError | AdOk "adapter list"

text \<open>The retry loop around \<^verbatim>\<open>GetAdaptersAddresses\<close>: \<open>q k\<close> is the outcome of attempt \<open>k\<close>.\<close>

fun get_adapters :: "(nat \<Rightarrow> adapters_result) \<Rightarrow> nat \<Rightarrow> nat \<Rightarrow> adapter list option" where
  "get_adapters q k retries =
     (case q k of
        AdOk ads \<Rightarrow> Some ads
      | AdError \<Rightarrow> None
      | AdOverflow \<Rightarrow> (case retries of 0 \<Rightarrow> None | Suc n \<Rightarrow> get_adapters q (Suc k) n))"

definition usable_addresses :: "adapter list \<Rightarrow> ifaddr list" where
  "usable_addresses ads = concat (map (\<lambda>ad. if ad_teredo ad \<or> \<not> ad_up ad then [] else ad_unicast ad) ads)"

definition open_client_sockets_win ::
  "(sockaddr_in \<Rightarrow> int) \<Rightarrow> (sockaddr_in6 \<Rightarrow> int) \<Rightarrow> nat \<Rightarrow> u16 \<Rightarrow> (nat \<Rightarrow> adapters_result) \<Rightarrow> scan" where
  "open_client_sockets_win open4 open6 mx port q =
     (case get_adapters q 0 4 of
        None \<Rightarrow> scan_init
      | Some ads \<Rightarrow> fold (visit True open4 open6 mx port) (usable_addresses ads) scan_init)"

subsection \<open>The query thread\<close>

text \<open>
  The rounds of the \<^verbatim>\<open>select\<close> loop: the answers of the ready sockets, or \<open>None\<close> when \<^verbatim>\<open>select\<close>
  times out or fails. The result counts the calls of \<^verbatim>\<open>select\<close>, the only place the thread waits.
\<close>

fun select_loop :: "answer list option list \<Rightarrow> mdns_state \<Rightarrow> (nat \<times> mdns_state) option" where
  "select_loop [] s = Some (1, s)"
| "select_loop (None # rounds) s = Some (1, s)"
| "select_loop (Some ans # rounds) s =
     (case query_recv ans s of
        None \<Rightarrow> None
      | Some s1 \<Rightarrow> map_option (\<lambda>(n, s2). (Suc n, s2)) (select_loop rounds s1))"

definition query_ids :: "nat \<Rightarrow> nat \<Rightarrow> u16 list" where
  "query_ids current_id n = map of_nat [current_id..<current_id + n]"

record mdns_thread =
  mt_current_id :: nat
  mt_waits :: nat
  mt_state :: mdns_state

definition send_mdns_query :: "int list \<Rightarrow> answer list option list \<Rightarrow> mdns_thread \<Rightarrow> mdns_thread option" where
  "send_mdns_query sockets rounds t =
     (if sockets = [] then Some t
      else (case select_loop rounds (mt_state t) of
              None \<Rightarrow> None
            | Some (n, s) \<Rightarrow>
                Some (t\<lparr>mt_current_id := mt_current_id t + length sockets, mt_waits := mt_waits t + n, mt_state := s\<rparr>)))"

text \<open>\<^verbatim>\<open>mdns_loop\<close>: one list element per iteration made while \<^verbatim>\<open>running\<close> is set.\<close>

fun mdns_loop :: "(int list \<times> answer list option list) list \<Rightarrow> mdns_thread \<Rightarrow> mdns_thread option" where
  "mdns_loop [] t = Some t"
| "mdns_loop ((socks, rounds) # its) t =
     (case send_mdns_query socks rounds t of None \<Rightarrow> None | Some t1 \<Rightarrow> mdns_loop its t1)"

definition create_mdns_loop :: "mdns_thread \<Rightarrow> mdns_thread" where
  "create_mdns_loop t = t\<lparr>mt_state := (mt_state t)\<lparr>ssp_records := []\<rparr>\<rparr>"

text \<open>\<^verbatim>\<open>stop_mdns_loop\<close> clears the records and then waits for the thread, which first finishes the
  query it is in: \<open>rounds\<close> are the rounds still to come in it.\<close>

definition stop_mdns_loop :: "answer list option list \<Rightarrow> mdns_thread \<Rightarrow> mdns_thread option" where
  "stop_mdns_loop rounds t =
     (case select_loop rounds ((mt_state t)\<lparr>ssp_records := []\<rparr>) of
        None \<Rightarrow> None
      | Some (n, s) \<Rightarrow> Some (t\<lparr>mt_waits := mt_waits t + n, mt_state := s\<rparr>))"

subsection \<open>Lemmas on the table\<close>

lemma map_of_map_put: "map_of (map_put k v m) = (map_of m)(k \<mapsto> v)"
  by (induction m) auto

lemma set_map_put: "set (map_put k v m) \<subseteq> insert (k, v) (set m)"
  by (induction m) (auto split: if_splits)

lemma keys_map_put: "fst ` set (map_put k v m) = insert k (fst ` set m)"
  by (metis dom_map_of_conv_image_fst dom_fun_upd map_of_map_put option.distinct(1))

lemma sorted_keys_map_put:
  assumes "sorted_keys m"
  shows "sorted_keys (map_put k v m)"
  using assms
proof (induction m)
  case (Cons x m)
  obtain k1 v1 where x: "x = (k1, v1)" by fastforce
  have "sorted_keys (map_put k v m)" using Cons by (simp add: sorted_keys_def)
  moreover have "\<forall>y \<in> fst ` set m. k1 < y" using Cons.prems x by (auto simp: sorted_keys_def less_le)
  ultimately show ?case
    using Cons.prems x keys_map_put [of k v m] by (auto simp: sorted_keys_def)
qed (simp add: sorted_keys_def)

subsection \<open>The abstract directory\<close>

text \<open>
  What discovery promises: within one transaction the last announced name is bound to the
  address of the next address answer of the socket's own family, for 60 seconds.
\<close>

datatype dev_addr = Dev4 sockaddr_in | Dev6 sockaddr_in6

record directory =
  dir_tid :: u16
  dir_name :: "string option"
  dir_table :: "string \<Rightarrow> (dev_addr \<times> u64) option"

definition dir_init :: directory where
  "dir_init = \<lparr>dir_tid = 0, dir_name = None, dir_table = (\<lambda>_. None)\<rparr>"

definition dir_bind :: "dev_addr \<Rightarrow> u64 \<Rightarrow> directory \<Rightarrow> directory" where
  "dir_bind a now d =
     (case dir_name d of None \<Rightarrow> d | Some n \<Rightarrow> d\<lparr>dir_table := (dir_table d)(n \<mapsto> (a, now + 60000))\<rparr>)"

definition dir_step :: "answer \<Rightarrow> directory \<Rightarrow> directory" where
  "dir_step an d0 =
     (let d = (if an_tid an = dir_tid d0 then d0 else d0\<lparr>dir_tid := an_tid an, dir_name := None\<rparr>) in
      case an_rr an of
        RrPtr target \<Rightarrow> d\<lparr>dir_name := Some (take (length target - 19) target)\<rparr>
      | RrA a \<Rightarrow> if an_family an = AF_INET then dir_bind (Dev4 a) (an_now an) d else d
      | RrAaaa a \<Rightarrow> if an_family an = AF_INET6 then dir_bind (Dev6 a) (an_now an) d else d
      | RrOther \<Rightarrow> d)"

definition dev_of :: "mdns_record \<Rightarrow> dev_addr \<times> u64" where
  "dev_of r = (if has_a r then Dev4 (a_record r) else Dev6 (aaaa_record r), last_available r)"

definition dir_of :: "mdns_state \<Rightarrow> directory" where
  "dir_of s = \<lparr>dir_tid = current_transaction_id s,
     dir_name = (if has_ptr (current_mdns_record s) then Some (ptr_record (current_mdns_record s)) else None),
     dir_table = (\<lambda>k. map_option dev_of (map_of (ssp_records s) k))\<rparr>"

text \<open>The invariant: addresses of the current record belong to the family of its transaction,
  and the table holds complete records under their names, in order.\<close>

definition mdns_inv :: "(u16 \<Rightarrow> family) \<Rightarrow> mdns_state \<Rightarrow> bool" where
  "mdns_inv fam s \<longleftrightarrow>
     (has_a (current_mdns_record s) \<longrightarrow> fam (current_transaction_id s) = AF_INET)
     \<and> (has_aaaa (current_mdns_record s) \<longrightarrow> fam (current_transaction_id s) = AF_INET6)
     \<and> sorted_keys (ssp_records s)
     \<and> (\<forall>(k, r) \<in> set (ssp_records s). k = ptr_record r \<and> (has_a r \<or> has_aaaa r))"

lemma domain_length [simp]: "length query_domain = 17"
  by (simp add: query_domain_def)

lemma mdns_inv_init: "mdns_inv fam mdns_init"
  by (simp add: mdns_inv_def mdns_init_def record_init_def sorted_keys_def)

lemma mdns_inv_new_transaction: "mdns_inv fam s \<Longrightarrow> mdns_inv fam (new_transaction tid s)"
  by (simp add: mdns_inv_def new_transaction_def)

lemma mdns_inv_store:
  assumes "mdns_inv fam s" "has_a r \<or> has_aaaa r"
    "has_a r \<longrightarrow> fam (current_transaction_id s) = AF_INET" "has_aaaa r \<longrightarrow> fam (current_transaction_id s) = AF_INET6"
  shows "mdns_inv fam (store_current r s)"
  using assms set_map_put [of "ptr_record r" r "ssp_records s"] sorted_keys_map_put
  by (fastforce simp: mdns_inv_def store_current_def)

lemma new_transaction_tid [simp]: "current_transaction_id (new_transaction tid s) = tid"
  by (simp add: new_transaction_def)

lemma query_callback_inv:
  assumes "query_callback an s = Some s1" "mdns_inv fam s" "an_family an = fam (an_tid an)"
  shows "mdns_inv fam s1"
proof -
  let ?s = "new_transaction (an_tid an) s"
  have inv: "mdns_inv fam ?s" using assms(2) by (rule mdns_inv_new_transaction)
  then have cur: "has_a (current_mdns_record ?s) \<longrightarrow> fam (an_tid an) = AF_INET"
    "has_aaaa (current_mdns_record ?s) \<longrightarrow> fam (an_tid an) = AF_INET6"
    by (auto simp: mdns_inv_def)
  show ?thesis
  proof (cases "an_rr an")
    case (RrPtr t)
    with assms(1) inv show ?thesis
      by (auto simp: query_callback_def Let_def mdns_inv_def split: if_splits)
  next
    case (RrA a)
    with assms(1,3) inv cur show ?thesis
      by (auto simp: query_callback_def Let_def intro!: mdns_inv_store split: if_splits)
  next
    case (RrAaaa a)
    with assms(1,3) inv cur show ?thesis
      by (auto simp: query_callback_def Let_def intro!: mdns_inv_store split: if_splits)
  next
    case RrOther
    with assms(1) inv show ?thesis by (simp add: query_callback_def Let_def)
  qed
qed

lemma dir_of_new_transaction:
  "dir_of (new_transaction tid s) =
     (if tid = dir_tid (dir_of s) then dir_of s else (dir_of s)\<lparr>dir_tid := tid, dir_name := None\<rparr>)"
  by (simp add: dir_of_def new_transaction_def)

lemma dir_of_store:
  "has_ptr r \<Longrightarrow> dir_of (store_current r s) =
     (dir_of s)\<lparr>dir_name := Some (ptr_record r), dir_table := (dir_table (dir_of s))(ptr_record r \<mapsto> dev_of r)\<rparr>"
  by (auto simp: dir_of_def store_current_def map_of_map_put)

lemma query_callback_dir:
  assumes "query_callback an s = Some s1" "mdns_inv fam s" "an_family an = fam (an_tid an)"
  shows "dir_of s1 = dir_step an (dir_of s)"
proof -
  let ?s = "new_transaction (an_tid an) s"
  have "mdns_inv fam ?s" using assms(2) by (rule mdns_inv_new_transaction)
  then have cur: "has_a (current_mdns_record ?s) \<longrightarrow> fam (an_tid an) = AF_INET"
    by (auto simp: mdns_inv_def)
  have step: "dir_step an (dir_of s) =
     (case an_rr an of
        RrPtr target \<Rightarrow> (dir_of ?s)\<lparr>dir_name := Some (take (length target - 19) target)\<rparr>
      | RrA a \<Rightarrow> if an_family an = AF_INET then dir_bind (Dev4 a) (an_now an) (dir_of ?s) else dir_of ?s
      | RrAaaa a \<Rightarrow> if an_family an = AF_INET6 then dir_bind (Dev6 a) (an_now an) (dir_of ?s) else dir_of ?s
      | RrOther \<Rightarrow> dir_of ?s)"
    unfolding dir_step_def dir_of_new_transaction Let_def by (rule refl)
  have name: "dir_name (dir_of ?s) =
      (if has_ptr (current_mdns_record ?s) then Some (ptr_record (current_mdns_record ?s)) else None)"
    by (simp add: dir_of_def)
  have a: "dir_of s1 = dir_bind (Dev4 x) (an_now an) (dir_of ?s)"
    if "an_rr an = RrA x" "an_family an = AF_INET" for x
    using assms(1) that name
    by (auto simp: query_callback_def Let_def dir_of_store dev_of_def dir_bind_def split: if_splits)
  have aaaa: "dir_of s1 = dir_bind (Dev6 x) (an_now an) (dir_of ?s)"
    if "an_rr an = RrAaaa x" "an_family an = AF_INET6" for x
    using assms(1,3) that name cur
    by (auto simp: query_callback_def Let_def dir_of_store dev_of_def dir_bind_def split: if_splits)
  show ?thesis
    using assms(1) a aaaa
    by (auto simp: step query_callback_def Let_def split: rr.splits if_splits) (simp add: dir_of_def)
qed

lemma query_recv_inv_dir:
  assumes "query_recv ans s = Some s1" "mdns_inv fam s" "\<forall>an \<in> set ans. an_family an = fam (an_tid an)"
  shows "mdns_inv fam s1 \<and> dir_of s1 = fold dir_step ans (dir_of s)"
  using assms
proof (induction ans arbitrary: s)
  case (Cons an ans)
  from Cons.prems(1) obtain s2 where s2: "query_callback an s = Some s2" "query_recv ans s2 = Some s1"
    by (auto split: option.splits)
  have "mdns_inv fam s2" "dir_of s2 = dir_step an (dir_of s)"
    using query_callback_inv [OF s2(1) Cons.prems(2)] query_callback_dir [OF s2(1) Cons.prems(2)] Cons.prems(3) by auto
  with Cons.IH [OF s2(2)] Cons.prems(3) show ?case by simp
qed simp

text \<open>
  C16. Discovery implements the directory: when the answers of one transaction arrive on sockets
  of one address family (each query socket has its own transaction id), the records after any
  sequence of answers are exactly the directory those answers define. A name is bound only to an
  address announced in the same transaction after it, and never to a stale one of the other family.
\<close>

theorem mdns_refines_directory:
  assumes "query_recv ans mdns_init = Some s" and "\<forall>an \<in> set ans. an_family an = fam (an_tid an)"
  shows "dir_of s = fold dir_step ans dir_init"
proof -
  have "dir_of mdns_init = dir_init"
    by (simp add: dir_of_def dir_init_def mdns_init_def record_init_def)
  with query_recv_inv_dir [OF assms(1) mdns_inv_init assms(2)] show ?thesis by simp
qed

definition cam_answers :: "answer list" where
  "cam_answers =
     [\<lparr>an_tid = 7, an_family = AF_INET, an_rr = RrPtr (''cam.'' @ query_domain @ ''.''), an_now = 5\<rparr>,
      \<lparr>an_tid = 7, an_family = AF_INET, an_rr = RrA \<lparr>sin_addr = [10, 0, 0, 9], sin_port = 0\<rparr>, an_now = 5\<rparr>]"

definition cam_state :: mdns_state where
  "cam_state = the (query_recv cam_answers mdns_init)"

lemma cam_state_run: "query_recv cam_answers mdns_init = Some cam_state"
  unfolding cam_state_def
  by (simp add: cam_answers_def query_callback_def Let_def mdns_init_def record_init_def new_transaction_def query_domain_def)

theorem mdns_refines_directory_witness: "dir_of cam_state = fold dir_step cam_answers dir_init"
  by (rule mdns_refines_directory [where fam = "\<lambda>_. AF_INET", OF cam_state_run]) (simp add: cam_answers_def)

subsection \<open>Listing and failures\<close>

definition listed :: "gni4 \<Rightarrow> gni6 \<Rightarrow> u64 \<Rightarrow> string \<times> mdns_record \<Rightarrow> ssp_device_item option" where
  "listed g4 g6 now kr = (if last_available (snd kr) < now then None else item_of g4 g6 (snd kr))"

lemma listed_pair: "listed g4 g6 now (k, r) = (if last_available r < now then None else item_of g4 g6 r)"
  by (simp add: listed_def)

lemma next_item_listed:
  "case next_item g4 g6 now m of
     (None, rest) \<Rightarrow> rest = [] \<and> occurrences (listed g4 g6 now) m = []
   | (Some d, rest) \<Rightarrow> occurrences (listed g4 g6 now) m = d # occurrences (listed g4 g6 now) rest"
proof (induction m)
  case (Cons x m)
  then show ?case by (cases x) (auto simp: listed_pair split: option.splits)
qed simp

lemma all_items_listed: "all_items g4 g6 it = occurrences (listed g4 g6 (it_time it)) (it_rest it)"
proof (induction g4 g6 it rule: all_items.induct)
  case (1 g4 g6 it)
  obtain d rest where n: "next_item g4 g6 (it_time it) (it_rest it) = (d, rest)" by fastforce
  then have it1: "iter_next g4 g6 it = (d, it\<lparr>it_rest := rest\<rparr>)" by (simp add: iter_next_def)
  show ?case
  proof (cases "hasNext it")
    case True
    with 1 it1 n next_item_listed [of g4 g6 "it_time it" "it_rest it"] show ?thesis
      by (subst all_items.simps) (auto split: option.splits)
  qed (subst all_items.simps, simp add: hasNext_def)
qed

text \<open>
  Listing the cameras: in every state discovery can reach, iterating to the end terminates
  and yields exactly one item per record that has not expired, ordered by name and without
  duplicate names.
\<close>

theorem mdns_listing:
  assumes "query_recv ans mdns_init = Some s" and "\<forall>an \<in> set ans. an_family an = fam (an_tid an)"
  shows "map device_name (all_items g4 g6 (iterator now s))
       = map fst (filter (\<lambda>(k, r). \<not> last_available r < now) (ssp_records s))
     \<and> sorted (map fst (ssp_records s)) \<and> distinct (map fst (ssp_records s))"
proof -
  have inv: "mdns_inv fam s" using query_recv_inv_dir [OF assms(1) mdns_inv_init assms(2)] by simp
  have "map device_name (occurrences (listed g4 g6 now) m) = map fst (filter (\<lambda>(k, r). \<not> last_available r < now) m)"
    if "\<forall>(k, r) \<in> set m. k = ptr_record r \<and> (has_a r \<or> has_aaaa r)" for m
    using that by (induction m) (auto simp: listed_pair item_of_def)
  with inv show ?thesis
    by (simp add: all_items_listed iterator_def mdns_inv_def sorted_keys_def)
qed

theorem mdns_listing_witness:
  "map device_name (all_items (\<lambda>a. Some (''10.0.0.9'', ''0'')) (\<lambda>a. None) (iterator 60004 cam_state)) = [''cam'']"
proof -
  have "map fst (filter (\<lambda>(k, r). \<not> last_available r < 60004) (ssp_records cam_state)) = [''cam'']"
    by (simp add: cam_state_def cam_answers_def query_callback_def Let_def mdns_init_def record_init_def
        new_transaction_def query_domain_def store_current_def)
  with mdns_listing [where fam = "\<lambda>_. AF_INET", OF cam_state_run] show ?thesis by (simp add: cam_answers_def)
qed

definition short_ptr :: "answer \<Rightarrow> bool" where
  "short_ptr an = (case an_rr an of RrPtr target \<Rightarrow> length target < 19 | _ \<Rightarrow> False)"

lemma query_callback_None: "query_callback an s = None \<longleftrightarrow> short_ptr an"
  by (auto simp: query_callback_def short_ptr_def Let_def split: rr.splits)

text \<open>
  The callback survives a sequence of answers exactly when no PTR answer names a target shorter than
  19 characters: one such answer from the network, wherever it comes in the sequence, makes the
  length of the name wrap around and ends the process.
\<close>

theorem mdns_short_name_aborts: "query_recv ans s = None \<longleftrightarrow> (\<exists>an \<in> set ans. short_ptr an)"
proof (induction ans arbitrary: s)
  case (Cons an ans)
  then show ?case
    using query_callback_None [of an s] by (auto split: option.splits)
qed simp

subsection \<open>The query sockets\<close>

text \<open>The reference definition: the sockets that could be opened on the eligible addresses, in
  the order of the interfaces, cut at the capacity of the array.\<close>

fun eligible :: "bool \<Rightarrow> (sockaddr_in \<Rightarrow> int) \<Rightarrow> (sockaddr_in6 \<Rightarrow> int) \<Rightarrow> u16 \<Rightarrow> ifaddr \<Rightarrow> int option" where
  "eligible windows open4 open6 port (If4 a) =
     (if sin_addr a = loopback4 then None else Some (open4 (a\<lparr>sin_port := port\<rparr>)))"
| "eligible windows open4 open6 port (If6 a preferred) =
     (if windows \<and> \<not> preferred \<or> List.member loopback6 (sin6_addr a) then None
      else Some (open6 (a\<lparr>sin6_port := port\<rparr>)))"
| "eligible windows open4 open6 port _ = None"

definition reference_sockets ::
  "bool \<Rightarrow> (sockaddr_in \<Rightarrow> int) \<Rightarrow> (sockaddr_in6 \<Rightarrow> int) \<Rightarrow> nat \<Rightarrow> u16 \<Rightarrow> ifaddr list \<Rightarrow> int list" where
  "reference_sockets windows open4 open6 mx port ifs =
     take mx (filter (\<lambda>k. k \<ge> 0) (List.map_filter (eligible windows open4 open6 port) ifs))"

lemma visit_sockets:
  "sc_sockets (visit w open4 open6 mx port ifa sc) =
     (case eligible w open4 open6 port ifa of
        None \<Rightarrow> sc_sockets sc
      | Some k \<Rightarrow> if length (sc_sockets sc) < mx \<and> k \<ge> 0 then sc_sockets sc @ [k] else sc_sockets sc)"
  by (cases ifa) (auto simp: visit4_def visit6_def add_socket_def)

lemma fold_visit_sockets:
  "length (sc_sockets sc) \<le> mx \<Longrightarrow>
   sc_sockets (fold (visit w open4 open6 mx port) ifs sc) =
     take mx (sc_sockets sc @ filter (\<lambda>k. k \<ge> 0) (List.map_filter (eligible w open4 open6 port) ifs))"
proof (induction ifs arbitrary: sc)
  case (Cons i ifs)
  then show ?case
    using Cons.IH [of "visit w open4 open6 mx port i sc"]
    by (auto simp: visit_sockets map_filter_simps take_Cons' split: option.splits)
qed (simp add: map_filter_simps)

text \<open>
  C39. The interface scan opens the reference sockets on both platforms: one per eligible
  address in interface order, never on a loopback address, never more than the array holds. On
  Windows up to five attempts to read the adapters are made, and adapters that are down or
  Teredo tunnels are skipped.
\<close>

theorem mdns_sockets_reference:
  "sc_sockets (open_client_sockets_unix open4 open6 32 port ifs) = reference_sockets False open4 open6 32 port ifs
   \<and> sc_sockets (open_client_sockets_win open4 open6 32 port q) =
       (case get_adapters q 0 4 of
          None \<Rightarrow> []
        | Some ads \<Rightarrow> reference_sockets True open4 open6 32 port (usable_addresses ads))
   \<and> length (sc_sockets (open_client_sockets_unix open4 open6 32 port ifs)) \<le> 32
   \<and> length (sc_sockets (open_client_sockets_win open4 open6 32 port q)) \<le> 32"
  using fold_visit_sockets [of scan_init 32 _ open4 open6 port]
  by (auto simp: open_client_sockets_unix_def open_client_sockets_win_def reference_sockets_def scan_init_def
      split: option.splits)

text \<open>Without a usable interface the query thread never waits: it spins.\<close>

lemma mdns_loop_spins: "\<forall>it \<in> set its. fst it = [] \<Longrightarrow> mdns_loop its t = Some t"
  by (induction its) (auto simp: send_mdns_query_def)

text \<open>Records found after \<^verbatim>\<open>stop_mdns_loop\<close> cleared the table survive it.\<close>

lemma stop_keeps_late_records:
  "stop_mdns_loop [Some cam_answers] \<lparr>mt_current_id = 1, mt_waits = 0, mt_state = mdns_init\<rparr>
     = Some \<lparr>mt_current_id = 1, mt_waits = 2, mt_state = cam_state\<rparr>"
  using cam_state_run by (simp add: stop_mdns_loop_def mdns_init_def)

end
