(* ===== verification/Resources.thy ===== *)
theory Resources
  imports Trace_System
begin

text \<open>
  Monitors of event traces. \<open>then_do\<close> composes operations that change a state and emit events. A
  monitor reads the events one by one and either rejects or moves to its next state; \<open>mon_run\<close>
  reads a whole trace. An operation is \<open>tracked\<close> when the monitor, started in the abstraction of
  the state before, accepts the events and ends in the abstraction of the state after; tracked
  operations compose. The locale \<open>monitored\<close> lifts this from the steps of a component to all its
  runs.
\<close>

definition then_do :: "'s \<times> 'e list \<Rightarrow> ('s \<Rightarrow> 's \<times> 'e list) \<Rightarrow> 's \<times> 'e list" where
  "then_do r f = (case r of (s, es) \<Rightarrow> (case f s of (s1, es1) \<Rightarrow> (s1, es @ es1)))"

lemma then_do_simps [simp]:
  "fst (then_do r f) = fst (f (fst r))" "snd (then_do r f) = snd r @ snd (f (fst r))"
  by (simp_all add: then_do_def split_beta)

fun mon_run :: "('e \<Rightarrow> 'm \<Rightarrow> 'm option) \<Rightarrow> 'e list \<Rightarrow> 'm \<Rightarrow> 'm option" where
  "mon_run mon [] m = Some m"
| "mon_run mon (e # es) m = (case mon e m of None \<Rightarrow> None | Some m1 \<Rightarrow> mon_run mon es m1)"

lemma mon_run_append [simp]:
  "mon_run mon (es @ es1) m = (case mon_run mon es m of None \<Rightarrow> None | Some m1 \<Rightarrow> mon_run mon es1 m1)"
  by (induction es arbitrary: m) (auto split: option.splits)

lemma mon_run_then: "mon_run mon xs m = Some m1 \<Longrightarrow> mon_run mon (xs @ ys) m = mon_run mon ys m1"
  by simp

definition tracked :: "('e \<Rightarrow> 'm \<Rightarrow> 'm option) \<Rightarrow> ('s \<Rightarrow> 'm) \<Rightarrow> 's \<Rightarrow> 's \<times> 'e list \<Rightarrow> bool" where
  "tracked mon view s r \<longleftrightarrow> mon_run mon (snd r) (view s) = Some (view (fst r))"

lemma tracked_silent: "view s1 = view s \<Longrightarrow> tracked mon view s (s1, [])"
  by (simp add: tracked_def)

lemma tracked_then:
  "tracked mon view s r \<Longrightarrow> tracked mon view (fst r) (f (fst r)) \<Longrightarrow> tracked mon view s (then_do r f)"
  by (simp add: tracked_def)

text \<open>A change of the state the view does not see may precede an operation.\<close>

lemma tracked_before: "view s1 = view s \<Longrightarrow> tracked mon view s1 r \<Longrightarrow> tracked mon view s r"
  by (simp add: tracked_def)

locale monitored = trace_system step inv
  for step :: "'i \<Rightarrow> 's \<Rightarrow> 's \<times> 'e list" and inv :: "'s \<Rightarrow> bool" +
  fixes mon :: "'e \<Rightarrow> 'm \<Rightarrow> 'm option" and view :: "'s \<Rightarrow> 'm"
  assumes step_tracked: "inv s \<Longrightarrow> tracked mon view s (step i s)"
begin

lemma run_tracked: "inv s \<Longrightarrow> tracked mon view s (run_trace step is s)"
proof (induction "is" arbitrary: s)
  case (Cons i "is")
  have "run_trace step (i # is) s = then_do (step i s) (run_trace step is)"
    by (simp add: then_do_def)
  with tracked_then [OF step_tracked [OF Cons.prems, of i]] Cons.IH [OF step_inv [OF Cons.prems, of i]]
  show ?case by (simp del: run_trace.simps)
qed (simp add: tracked_def)

lemma run_accepted:
  "inv s \<Longrightarrow> mon_run mon (snd (run_trace step is s)) (view s) = Some (view (fst (run_trace step is s)))"
  using run_tracked by (simp add: tracked_def)

end

end
