(* ===== verification/Cpu_Frame.thy ===== *)
theory Cpu_Frame
  imports Trace_System
begin

text \<open>
  The CPU picture of the source: the plane buffers, the RGBA buffer and the swscale context of
  \<^verbatim>\<open>zc_cpu_frame\<close> in \<^verbatim>\<open>src/zc_source.cpp\<close>, the software branch of \<^verbatim>\<open>outputVideo\<close> that fills
  them, and their release in \<^verbatim>\<open>stop\<close>. The model is that of a build with software decoding.

  A buffer is the number of bytes really allocated, \<open>None\<close> for a null pointer, and stands beside
  the 32-bit size field the code compares with. Every write into a buffer is an event with the
  number of bytes written and the capacity, so that an overflow is visible.
\<close>

datatype video_format =
    VIDEO_FORMAT_NONE | VIDEO_FORMAT_NV12 | VIDEO_FORMAT_I420 | VIDEO_FORMAT_P010 | VIDEO_FORMAT_I010
  | VIDEO_FORMAT_Y800 | VIDEO_FORMAT_YUY2 | VIDEO_FORMAT_YVYU | VIDEO_FORMAT_UYVY | VIDEO_FORMAT_I422
  | VIDEO_FORMAT_RGBA | VIDEO_FORMAT_BGRA | VIDEO_FORMAT_BGRX | VIDEO_FORMAT_OTHER nat

abbreviation MAX_AV_PLANES :: nat where
  "MAX_AV_PLANES \<equiv> 8"

record obs_source_frame2 =
  of_format :: video_format
  of_width :: u32
  of_height :: u32
  of_full_range :: bool
  of_data0 :: bool
  of_linesize :: "nat \<Rightarrow> u32"

record plane =
  pl_buf :: "nat option"
  pl_size :: u32
  pl_linesize :: u32

record cpu_frame =
  cf_format :: video_format
  cf_width :: u32
  cf_height :: u32
  cf_full_range :: bool
  cf_planes :: "plane list"
  cf_rgba :: "nat option"
  cf_rgbaSize :: u32
  cf_sws :: bool
  cf_swsFmt :: video_format
  cf_swsW :: u32
  cf_swsH :: u32

datatype cf_event = CfCopy nat nat nat | CfScale u32 u32 nat nat

definition plane_none :: plane where
  "plane_none = \<lparr>pl_buf = None, pl_size = 0, pl_linesize = 0\<rparr>"

definition cpu_init :: cpu_frame where
  "cpu_init = \<lparr>cf_format = VIDEO_FORMAT_NONE, cf_width = 0, cf_height = 0, cf_full_range = False,
     cf_planes = replicate MAX_AV_PLANES plane_none, cf_rgba = None, cf_rgbaSize = 0, cf_sws = False,
     cf_swsFmt = VIDEO_FORMAT_NONE, cf_swsW = 0, cf_swsH = 0\<rparr>"

fun planar :: "video_format \<Rightarrow> bool" where
  "planar VIDEO_FORMAT_NV12 = True"
| "planar VIDEO_FORMAT_I420 = True"
| "planar VIDEO_FORMAT_P010 = True"
| "planar VIDEO_FORMAT_I010 = True"
| "planar _ = False"

fun nplanes :: "video_format \<Rightarrow> nat" where
  "nplanes VIDEO_FORMAT_NV12 = 2"
| "nplanes VIDEO_FORMAT_P010 = 2"
| "nplanes VIDEO_FORMAT_I420 = 3"
| "nplanes VIDEO_FORMAT_I010 = 3"
| "nplanes _ = 1"

text \<open>One pass of the plane loop: grow the buffer if it is missing or too small, then copy.\<close>

definition copy_plane :: "obs_source_frame2 \<Rightarrow> nat \<Rightarrow> plane \<Rightarrow> plane \<times> cf_event" where
  "copy_plane f i p =
     (let ls = of_linesize f i;
          ph = (if i = 0 then of_height f else of_height f div 2);
          sz = ls * ph;
          p1 = (if pl_buf p = None \<or> pl_size p < sz then p\<lparr>pl_buf := Some (unat sz), pl_size := sz\<rparr> else p) in
      (p1\<lparr>pl_linesize := ls\<rparr>, CfCopy i (unat sz) (the (pl_buf p1))))"

definition drop_plane :: "plane \<Rightarrow> plane" where
  "drop_plane p = (if pl_buf p \<noteq> None then plane_none else p)"

text \<open>The loop over the planes from index \<open>i\<close> on: copy below \<open>n\<close>, drop the rest.\<close>

fun copy_planes :: "obs_source_frame2 \<Rightarrow> nat \<Rightarrow> nat \<Rightarrow> plane list \<Rightarrow> plane list \<times> cf_event list" where
  "copy_planes f n i [] = ([], [])"
| "copy_planes f n i (p # ps) =
     (case copy_planes f n (Suc i) ps of
        (ps', es) \<Rightarrow>
          if i < n then (case copy_plane f i p of (p', e) \<Rightarrow> (p' # ps', e # es)) else (drop_plane p # ps', es))"

definition alloc_rgba :: "cpu_frame \<Rightarrow> cpu_frame" where
  "alloc_rgba c =
     (let sz = cf_width c * cf_height c * 4 in
      if cf_rgba c = None \<or> cf_rgbaSize c < sz then c\<lparr>cf_rgba := Some (unat sz), cf_rgbaSize := sz\<rparr> else c)"

text \<open>\<open>sws_ok\<close>: whether \<^verbatim>\<open>sws_getContext\<close> succeeds for the format and size it is given.\<close>

definition setup_sws :: "(video_format \<Rightarrow> u32 \<Rightarrow> u32 \<Rightarrow> bool) \<Rightarrow> cpu_frame \<Rightarrow> cpu_frame" where
  "setup_sws sws_ok c =
     (if \<not> cf_sws c \<or> cf_swsFmt c \<noteq> cf_format c \<or> cf_swsW c \<noteq> cf_width c \<or> cf_swsH c \<noteq> cf_height c
      then c\<lparr>cf_sws := sws_ok (cf_format c) (cf_width c) (cf_height c), cf_swsFmt := cf_format c,
             cf_swsW := cf_width c, cf_swsH := cf_height c\<rparr>
      else c)"

text \<open>The software branch of \<^verbatim>\<open>outputVideo\<close>; the Boolean is the new \<^verbatim>\<open>hasCpuFrame_\<close>.\<close>

definition output_cpu ::
  "(video_format \<Rightarrow> u32 \<Rightarrow> u32 \<Rightarrow> bool) \<Rightarrow> obs_source_frame2 \<Rightarrow> cpu_frame \<Rightarrow> (bool \<times> cpu_frame) \<times> cf_event list" where
  "output_cpu sws_ok f c0 =
     (let c = c0\<lparr>cf_format := of_format f, cf_width := of_width f, cf_height := of_height f,
                 cf_full_range := of_full_range f\<rparr> in
      if \<not> planar (of_format f) \<or> \<not> of_data0 f \<or> of_linesize f 0 = 0 then ((False, c), [])
      else
        (case copy_planes f (nplanes (of_format f)) 0 (cf_planes c) of
           (ps, es) \<Rightarrow>
             (let c2 = setup_sws sws_ok (alloc_rgba (c\<lparr>cf_planes := ps\<rparr>)) in
              if cf_sws c2
              then ((True, c2), es @ [CfScale (cf_width c2) (cf_height c2)
                                        (unat (cf_width c2) * 4 * unat (cf_height c2)) (the (cf_rgba c2))])
              else ((False, c2), es))))"

text \<open>The release in \<^verbatim>\<open>stop\<close>.\<close>

definition clear_plane :: "plane \<Rightarrow> plane" where
  "clear_plane p = plane_none"

definition cpu_clear :: "cpu_frame \<Rightarrow> cpu_frame" where
  "cpu_clear c =
     c\<lparr>cf_planes := map clear_plane (cf_planes c),
       cf_rgbaSize := (if cf_rgba c = None then cf_rgbaSize c else 0), cf_rgba := None, cf_sws := False,
       cf_swsFmt := VIDEO_FORMAT_NONE, cf_swsW := 0, cf_swsH := 0\<rparr>"

datatype cf_input = CfFrame "video_format \<Rightarrow> u32 \<Rightarrow> u32 \<Rightarrow> bool" obs_source_frame2 | CfClear

fun cf_step :: "cf_input \<Rightarrow> cpu_frame \<Rightarrow> cpu_frame \<times> cf_event list" where
  "cf_step (CfFrame sws_ok f) c = (case output_cpu sws_ok f c of ((has, c1), es) \<Rightarrow> (c1, es))"
| "cf_step CfClear c = (cpu_clear c, [])"

subsection \<open>Bounds\<close>

text \<open>The size fields tell the truth about the buffers.\<close>

definition plane_ok :: "plane \<Rightarrow> bool" where
  "plane_ok p = (case pl_buf p of None \<Rightarrow> True | Some n \<Rightarrow> n = unat (pl_size p))"

definition cpu_inv :: "cpu_frame \<Rightarrow> bool" where
  "cpu_inv c \<longleftrightarrow> (\<forall>p \<in> set (cf_planes c). plane_ok p) \<and> (cf_rgba c \<noteq> None \<longrightarrow> cf_rgba c = Some (unat (cf_rgbaSize c)))"

fun write_ok :: "cf_event \<Rightarrow> bool" where
  "write_ok (CfCopy i n cap) \<longleftrightarrow> n \<le> cap"
| "write_ok (CfScale w h n cap) \<longleftrightarrow> unat w * unat h * 4 < 2 ^ 32 \<longrightarrow> n \<le> cap"

lemma copy_plane_ok:
  "plane_ok p \<Longrightarrow> copy_plane f i p = (p', e) \<Longrightarrow> plane_ok p' \<and> write_ok e"
  by (auto simp: plane_ok_def copy_plane_def Let_def word_less_nat_alt split: if_splits option.splits)

lemma copy_planes_ok:
  "\<forall>p \<in> set ps. plane_ok p \<Longrightarrow> copy_planes f n i ps = (ps', es) \<Longrightarrow>
   (\<forall>p \<in> set ps'. plane_ok p) \<and> (\<forall>e \<in> set es. write_ok e)"
proof (induction f n i ps arbitrary: ps' es rule: copy_planes.induct)
  case (2 f n i p ps)
  obtain ps1 es1 where r: "copy_planes f n (Suc i) ps = (ps1, es1)" by fastforce
  obtain p1 e1 where c: "copy_plane f i p = (p1, e1)" by fastforce
  have "(\<forall>p \<in> set ps1. plane_ok p) \<and> (\<forall>e \<in> set es1. write_ok e)" using "2.IH" [OF _ r] "2.prems"(1) by simp
  moreover have "plane_ok p1 \<and> write_ok e1" using copy_plane_ok [OF _ c] "2.prems"(1) by simp
  moreover have "plane_ok (drop_plane p)" using "2.prems"(1) by (auto simp: plane_ok_def drop_plane_def plane_none_def)
  ultimately show ?case using "2.prems"(2) r c by (auto split: if_splits)
qed simp

lemma unat_rgba_size: "unat w * unat h * 4 < 2 ^ 32 \<Longrightarrow> unat (w * h * 4 :: u32) = unat w * 4 * unat h"
proof -
  assume small: "unat w * unat h * 4 < 2 ^ 32"
  then have "unat w * unat h < 2 ^ 32" by linarith
  then have "unat (w * h) = unat w * unat h" by (subst unat_mult_lem [symmetric]) simp
  moreover have "unat (w * h * 4) = unat (w * h) * unat (4 :: u32)"
    by (subst unat_mult_lem [symmetric]) (use calculation small in simp)
  ultimately show ?thesis by simp
qed

lemma alloc_rgba_ok:
  assumes "cpu_inv c"
  shows "cpu_inv (alloc_rgba c) \<and>
    (unat (cf_width c) * unat (cf_height c) * 4 < 2 ^ 32 \<longrightarrow>
       unat (cf_width c) * 4 * unat (cf_height c) \<le> the (cf_rgba (alloc_rgba c)))"
  using assms unat_rgba_size [of "cf_width c" "cf_height c"]
  by (auto simp: alloc_rgba_def cpu_inv_def Let_def word_less_nat_alt)

lemma setup_sws_frame:
  "cpu_inv (setup_sws k c) = cpu_inv c" "cf_width (setup_sws k c) = cf_width c" "cf_height (setup_sws k c) = cf_height c"
  "cf_rgba (setup_sws k c) = cf_rgba c"
  by (simp_all add: setup_sws_def cpu_inv_def)

lemma alloc_rgba_size: "cf_width (alloc_rgba c) = cf_width c" "cf_height (alloc_rgba c) = cf_height c"
  by (simp_all add: alloc_rgba_def Let_def)

lemma output_cpu_ok:
  assumes "cpu_inv c" "output_cpu k f c = ((has, c1), es)"
  shows "cpu_inv c1 \<and> (\<forall>e \<in> set es. write_ok e)"
proof (cases "planar (of_format f) \<and> of_data0 f \<and> of_linesize f 0 \<noteq> 0")
  case True
  let ?c = "c\<lparr>cf_format := of_format f, cf_width := of_width f, cf_height := of_height f, cf_full_range := of_full_range f\<rparr>"
  obtain ps es1 where cp: "copy_planes f (nplanes (of_format f)) 0 (cf_planes c) = (ps, es1)" by fastforce
  have "\<forall>p \<in> set (cf_planes c). plane_ok p" using assms(1) by (simp add: cpu_inv_def)
  note ok = copy_planes_ok [OF this cp]
  let ?c1 = "?c\<lparr>cf_planes := ps\<rparr>"
  have "cpu_inv ?c1" using ok assms(1) by (simp add: cpu_inv_def)
  note rgba = alloc_rgba_ok [OF this]
  show ?thesis
    using assms(2) True cp ok rgba
    by (auto simp: output_cpu_def Let_def setup_sws_frame alloc_rgba_size split: if_splits)
next
  case False
  with assms show ?thesis by (auto simp: output_cpu_def Let_def cpu_inv_def split: if_splits)
qed

lemma cpu_clear_inv: "cpu_inv (cpu_clear c)"
  by (auto simp: cpu_inv_def cpu_clear_def clear_plane_def plane_none_def plane_ok_def)

interpretation cf: trace_system cf_step cpu_inv
proof
  show "cpu_inv (fst (cf_step i c))" if "cpu_inv c" for i c
    using that output_cpu_ok cpu_clear_inv by (cases i) (fastforce split: prod.splits)+
qed

lemma cf_step_writes: "cpu_inv c \<Longrightarrow> e \<in> set (snd (cf_step i c)) \<Longrightarrow> write_ok e"
  using output_cpu_ok by (cases i) (fastforce split: prod.splits)+

lemma cpu_inv_init: "cpu_inv cpu_init"
  by (simp add: cpu_inv_def cpu_init_def plane_none_def plane_ok_def)


end
