(* ===== verification/Hw_Decode.thy ===== *)
theory Hw_Decode
  imports Prelude
begin

text \<open>
  The decoder front end of \<^verbatim>\<open>src/hwdecode/hw_decode.c\<close> and \<^verbatim>\<open>.h\<close>: backend selection and
  creation, and the bit-depth sniffer that finds the SPS of an H.264 or HEVC access unit.

  The build switches \<^verbatim>\<open>ENABLE_ZERO_COPY\<close> and \<^verbatim>\<open>ENABLE_SW_DECODE\<close> are the record \<open>build\<close>. What
  the FFmpeg engine detects and whether a decoder can be created are parameters. The bit reader
  is a position in a byte list; the values read have at most 44 bits, so they are natural
  numbers.
\<close>

datatype zc_hw_backend = ZC_HW_AUTO | ZC_HW_CUDA | ZC_HW_D3D11VA | ZC_HW_VIDEOTOOLBOX | ZC_HW_SOFTWARE | ZC_HW_COUNT

datatype zc_codec_id = ZC_CODEC_H264 | ZC_CODEC_HEVC | ZC_CODEC_COUNT

record build =
  zero_copy :: bool
  sw_decode :: bool

fun zc_hw_backend_name :: "zc_hw_backend \<Rightarrow> string" where
  "zc_hw_backend_name ZC_HW_AUTO = ''Auto''"
| "zc_hw_backend_name ZC_HW_CUDA = ''CUDA (NVDEC)''"
| "zc_hw_backend_name ZC_HW_D3D11VA = ''D3D11VA''"
| "zc_hw_backend_name ZC_HW_VIDEOTOOLBOX = ''VideoToolbox''"
| "zc_hw_backend_name ZC_HW_SOFTWARE = ''Software''"
| "zc_hw_backend_name ZC_HW_COUNT = ''Unknown''"

definition zc_hw_resolve ::
  "build \<Rightarrow> (zc_hw_backend \<Rightarrow> zc_codec_id \<Rightarrow> zc_hw_backend) \<Rightarrow> zc_hw_backend \<Rightarrow> zc_codec_id \<Rightarrow> zc_hw_backend" where
  "zc_hw_resolve b detect requested codec =
     (let fallback = (if sw_decode b then ZC_HW_SOFTWARE else ZC_HW_COUNT) in
      if zero_copy b \<and> requested \<noteq> ZC_HW_SOFTWARE \<and> detect requested codec \<noteq> ZC_HW_SOFTWARE
      then detect requested codec else fallback)"

text \<open>Which backend a created decoder really has; \<open>None\<close> is the null pointer.\<close>

definition zc_hw_decoder_create :: "build \<Rightarrow> (zc_hw_backend \<Rightarrow> bool) \<Rightarrow> bool \<Rightarrow> zc_hw_backend \<Rightarrow> zc_hw_backend option" where
  "zc_hw_decoder_create b hw_ok sw_ok backend =
     (if zero_copy b \<and> backend \<noteq> ZC_HW_SOFTWARE \<and> backend \<noteq> ZC_HW_COUNT \<and> hw_ok backend then Some backend
      else if sw_decode b then (if sw_ok then Some ZC_HW_SOFTWARE else None)
      else None)"

subsection \<open>Bit reader\<close>

fun br_read :: "bytes \<Rightarrow> nat \<Rightarrow> nat \<Rightarrow> nat \<Rightarrow> nat \<times> nat" where
  "br_read d 0 v pos = (v, pos)"
| "br_read d (Suc n) v pos =
     (if pos div 8 \<ge> length d then (0, pos)
      else br_read d n (2 * v + (if bit (d ! (pos div 8)) (7 - pos mod 8) then 1 else 0)) (pos + 1))"

definition zc_br_read :: "bytes \<Rightarrow> nat \<Rightarrow> nat \<Rightarrow> nat \<times> nat" where
  "zc_br_read d n pos = br_read d n 0 pos"

function br_ue :: "bytes \<Rightarrow> nat \<Rightarrow> nat \<Rightarrow> nat \<times> nat" where
  "br_ue d zeros pos =
     (case zc_br_read d 1 pos of
        (b, pos1) \<Rightarrow>
          if b = 0 then (if zeros + 1 > 31 then (0, pos1) else br_ue d (zeros + 1) pos1)
          else if zeros = 0 then (0, pos1)
          else (case zc_br_read d zeros pos1 of (v, pos2) \<Rightarrow> (2 ^ zeros - 1 + v, pos2)))"
  by pat_completeness auto

termination
  by (relation "measure (\<lambda>(d, zeros, pos). 32 - zeros)") auto

declare br_ue.simps [simp del]

definition zc_br_ue :: "bytes \<Rightarrow> nat \<Rightarrow> nat \<times> nat" where
  "zc_br_ue d pos = br_ue d 0 pos"

lemma br_read_skips: "pos + n \<le> 8 * length d \<Longrightarrow> snd (br_read d n v pos) = pos + n"
  by (induction n arbitrary: v pos) auto

lemma zc_br_read_skips: "pos + n \<le> 8 * length d \<Longrightarrow> snd (zc_br_read d n pos) = pos + n"
  by (simp add: zc_br_read_def br_read_skips)

text \<open>Skipping a list of fixed-width fields, and a number of Exp-Golomb codes.\<close>

fun skip_bits :: "bytes \<Rightarrow> nat list \<Rightarrow> nat \<Rightarrow> nat" where
  "skip_bits d [] pos = pos"
| "skip_bits d (n # ns) pos = skip_bits d ns (snd (zc_br_read d n pos))"

fun skip_ue :: "bytes \<Rightarrow> nat \<Rightarrow> nat \<Rightarrow> nat" where
  "skip_ue d 0 pos = pos"
| "skip_ue d (Suc n) pos = skip_ue d n (snd (zc_br_ue d pos))"

subsection \<open>NAL units\<close>

function find_start :: "bytes \<Rightarrow> nat \<Rightarrow> nat option" where
  "find_start d i =
     (if \<not> i + 3 \<le> length d then None
      else if d ! i = 0 \<and> d ! (i + 1) = 0 \<and> d ! (i + 2) = 1 then Some (i + 3)
      else if i + 4 \<le> length d \<and> d ! i = 0 \<and> d ! (i + 1) = 0 \<and> d ! (i + 2) = 0 \<and> d ! (i + 3) = 1 then Some (i + 4)
      else find_start d (i + 1))"
  by pat_completeness auto

termination
  by (relation "measure (\<lambda>(d, i). length d - i)") auto

declare find_start.simps [simp del]

lemma find_start_bounds: "find_start d i = Some j \<Longrightarrow> i < j \<and> j \<le> length d"
proof (induction d i rule: find_start.induct)
  case (1 d i)
  let ?short = "d ! i = 0 \<and> d ! (i + 1) = 0 \<and> d ! (i + 2) = 1"
  let ?long = "i + 4 \<le> length d \<and> d ! i = 0 \<and> d ! (i + 1) = 0 \<and> d ! (i + 2) = 0 \<and> d ! (i + 3) = 1"
  consider "?short" | "\<not> ?short" "?long" | "\<not> ?short" "\<not> ?long" by blast
  then show ?case
  proof cases
    case 3
    with "1.prems" have "i + 3 \<le> length d" "find_start d (i + 1) = Some j"
      by (subst (asm) find_start.simps, simp split: if_splits)+
    with 3 "1.IH" have "i + 1 < j \<and> j \<le> length d" by simp
    then show ?thesis by simp
  qed (use "1.prems" in \<open>subst (asm) find_start.simps, auto split: if_splits\<close>)+
qed

fun nal_to_rbsp :: "bytes \<Rightarrow> bytes" where
  "nal_to_rbsp (x # y # z # rest) =
     (if x = 0 \<and> y = 0 \<and> z = 3 then 0 # 0 # nal_to_rbsp rest else x # nal_to_rbsp (y # z # rest))"
| "nal_to_rbsp xs = xs"

definition h264_extended_profiles :: "nat list" where
  "h264_extended_profiles = [44, 83, 86, 100, 110, 118, 122, 128, 134, 138, 139, 244]"

text \<open>\<^verbatim>\<open>8 + (int)v\<close> for an unsigned 64-bit \<^verbatim>\<open>v\<close>: the sum is read back at 32 bits.\<close>

definition depth_of :: "nat \<Rightarrow> int" where
  "depth_of v = sint (8 + word_of_nat v :: 32 word)"

definition sps_h264_bit_depth :: "bytes \<Rightarrow> int" where
  "sps_h264_bit_depth rbsp =
     (case zc_br_read rbsp 8 0 of
        (profile_idc, p1) \<Rightarrow>
          (let p2 = snd (zc_br_ue rbsp (skip_bits rbsp [8, 8] p1)) in
           if \<not> List.member h264_extended_profiles profile_idc then 8
           else
             (case zc_br_ue rbsp p2 of
                (chroma_format_idc, p3) \<Rightarrow>
                  (let p4 = (if chroma_format_idc = 3 then snd (zc_br_read rbsp 1 p3) else p3) in
                   depth_of (fst (zc_br_ue rbsp p4))))))"

definition profile_fields :: "nat list" where
  "profile_fields = [2, 1, 5, 32, 1, 1, 1, 1, 44]"

fun skip_sub_layers :: "bytes \<Rightarrow> nat \<Rightarrow> nat \<Rightarrow> nat" where
  "skip_sub_layers d 0 pos = pos"
| "skip_sub_layers d (Suc n) pos =
     (let p0 = snd (zc_br_read d 2 pos);
          (profile_present, p1) = zc_br_read d 1 p0;
          (level_present, p2) = zc_br_read d 1 p1;
          p3 = (if profile_present \<noteq> 0 then skip_bits d profile_fields p2 else p2);
          p4 = (if level_present \<noteq> 0 then snd (zc_br_read d 8 p3) else p3) in
      skip_sub_layers d n p4)"

definition sps_hevc_bit_depth :: "bytes \<Rightarrow> int" where
  "sps_hevc_bit_depth rbsp =
     (let p0 = snd (zc_br_read rbsp 4 0);
          (max_sub_layers_minus1, p1) = zc_br_read rbsp 3 p0;
          p2 = skip_bits rbsp ([1] @ profile_fields @ [8]) p1;
          p3 = skip_sub_layers rbsp max_sub_layers_minus1 p2;
          p4 = skip_ue rbsp 1 p3;
          (chroma_format_idc, p5) = zc_br_ue rbsp p4;
          p6 = (if chroma_format_idc = 3 then snd (zc_br_read rbsp 1 p5) else p5);
          p7 = skip_ue rbsp 2 p6;
          (conformance, p8) = zc_br_read rbsp 1 p7;
          p9 = (if conformance \<noteq> 0 then skip_ue rbsp 4 p8 else p8) in
      depth_of (fst (zc_br_ue rbsp p9)))"

text \<open>The macro \<^verbatim>\<open>ZC_TRY_SPS\<close>: the returned bit depth, or \<open>None\<close> where it breaks.\<close>

definition try_sps :: "bool \<Rightarrow> bytes \<Rightarrow> int option" where
  "try_sps hevc nal =
     (let hdr_len = (if hevc then 2 else 1) in
      if length nal \<le> hdr_len then None
      else if length nal - hdr_len > 2048 then None
      else
        (let rbsp = nal_to_rbsp (drop hdr_len nal) in
         if rbsp = [] then None
         else Some (if hevc then sps_hevc_bit_depth rbsp else sps_h264_bit_depth rbsp)))"

definition nal_type_of :: "bool \<Rightarrow> u8 \<Rightarrow> nat" where
  "nal_type_of hevc b = (if hevc then unat (drop_bit 1 b AND 0x3f) else unat (b AND 0x1f))"

function annexb_scan :: "bool \<Rightarrow> bytes \<Rightarrow> nat \<Rightarrow> int option" where
  "annexb_scan hevc d nal_start =
     (let hdr_len = (if hevc then 2 else 1);
          sps_type = (if hevc then 33 else 7);
          next = find_start d nal_start;
          nal_len = (case next of None \<Rightarrow> length d - nal_start | Some n \<Rightarrow> n - nal_start);
          found = (if nal_len \<ge> hdr_len \<and> nal_type_of hevc (d ! nal_start) = sps_type
                   then try_sps hevc (mid nal_start nal_len d) else None) in
      case found of
        Some bd \<Rightarrow> Some bd
      | None \<Rightarrow>
          (case next of
             None \<Rightarrow> None
           | Some off \<Rightarrow>
               (case find_start d off of None \<Rightarrow> None | Some start \<Rightarrow> annexb_scan hevc d start)))"
  by pat_completeness auto

termination
  by (relation "measure (\<lambda>(h, d, s). length d - s)") (auto dest!: find_start_bounds find_start_bounds [OF sym] simp: Let_def)

declare annexb_scan.simps [simp del]

definition be32 :: "bytes \<Rightarrow> nat \<Rightarrow> nat" where
  "be32 d off = unat (d ! off) * 2 ^ 24 + unat (d ! (off + 1)) * 2 ^ 16 + unat (d ! (off + 2)) * 2 ^ 8
     + unat (d ! (off + 3))"

function avcc_scan :: "bool \<Rightarrow> bytes \<Rightarrow> nat \<Rightarrow> int" where
  "avcc_scan hevc d off0 =
     (if \<not> off0 + 4 \<le> length d then 0
      else
        (let nal_len = be32 d off0; off = off0 + 4 in
         if nal_len = 0 \<or> nal_len > length d - off then 0
         else
           (let ty = nal_type_of (hevc \<and> nal_len \<ge> 2) (d ! off);
                found = (if ty = (if hevc then 33 else 7) then try_sps hevc (mid off nal_len d) else None) in
            case found of Some bd \<Rightarrow> bd | None \<Rightarrow> avcc_scan hevc d (off + nal_len))))"
  by pat_completeness auto

termination
  by (relation "measure (\<lambda>(h, d, s). length d - s)") auto

declare avcc_scan.simps [simp del]

definition zc_nal_bit_depth :: "bytes \<Rightarrow> zc_codec_id \<Rightarrow> int" where
  "zc_nal_bit_depth d codec =
     (if length d < 4 then 0
      else
        (let hevc = (codec = ZC_CODEC_HEVC) in
         case (case find_start d 0 of None \<Rightarrow> None | Some s \<Rightarrow> annexb_scan hevc d s) of
           Some bd \<Rightarrow> bd
         | None \<Rightarrow> avcc_scan hevc d 0))"

subsection \<open>Backend selection\<close>



subsection \<open>Emulation prevention\<close>

text \<open>
  The encoder side of the byte-stream format: after two zero bytes a byte of at most 3 is
  preceded by 3. The counter is the number of zero bytes just written.
\<close>

fun escape :: "nat \<Rightarrow> bytes \<Rightarrow> bytes" where
  "escape z [] = []"
| "escape z (b # bs) =
     (if z = 2 \<and> b \<le> 3 then 3 # b # escape (if b = 0 then 1 else 0) bs
      else b # escape (if b = 0 then z + 1 else 0) bs)"

lemma rbsp_nonzero: "x \<noteq> 0 \<Longrightarrow> nal_to_rbsp (x # xs) = x # nal_to_rbsp xs"
  by (cases xs rule: nal_to_rbsp.cases) auto

lemma rbsp_zero_nonzero: "y \<noteq> 0 \<Longrightarrow> nal_to_rbsp (x # y # xs) = x # y # nal_to_rbsp xs"
  by (cases xs) (auto simp: rbsp_nonzero)

lemma rbsp_escape:
  "nal_to_rbsp (escape 0 bs) = bs \<and> nal_to_rbsp (0 # escape 1 bs) = 0 # bs
   \<and> nal_to_rbsp (0 # 0 # escape 2 bs) = 0 # 0 # bs"
proof (induction bs)
  case (Cons b bs)
  then show ?case
    by (cases "b = 0") (auto simp: rbsp_nonzero rbsp_zero_nonzero simp flip: numeral_2_eq_2)
qed simp

text \<open>No start code, and nothing that an appended byte could complete to one, in an escaped payload.\<close>

fun clean :: "bytes \<Rightarrow> bool" where
  "clean (x # y # z # rest) = (\<not> (x = 0 \<and> y = 0 \<and> z \<le> 2) \<and> clean (y # z # rest))"
| "clean xs = True"

lemma clean_nonzero: "x \<noteq> 0 \<Longrightarrow> clean (x # xs) = clean xs"
  by (cases xs rule: clean.cases) auto

lemma clean_zero_nonzero: "y \<noteq> 0 \<Longrightarrow> clean (x # y # xs) = clean xs"
  by (cases xs) (auto simp: clean_nonzero)

lemma clean_escape: "clean (escape 0 bs) \<and> clean (0 # escape 1 bs) \<and> clean (0 # 0 # escape 2 bs)"
proof (induction bs)
  case (Cons b bs)
  have three: "\<not> (3 :: u8) \<le> 2" by simp
  have "b \<le> 2 \<Longrightarrow> b \<le> (3 :: u8)" by (simp add: word_le_nat_alt)
  with Cons three show ?case
    by (cases "b = 0") (auto simp: clean_nonzero clean_zero_nonzero simp flip: numeral_2_eq_2)
qed simp

lemma clean_tl: "clean d \<Longrightarrow> clean (tl d)"
  by (cases d rule: clean.cases) auto

lemma clean_at:
  "clean d \<Longrightarrow> i + 3 \<le> length d \<Longrightarrow> \<not> (d ! i = 0 \<and> d ! (i + 1) = 0 \<and> d ! (i + 2) \<le> 2)"
proof (induction d arbitrary: i rule: clean.induct)
  case (1 x y z rest)
  then show ?case by (cases i) auto
qed auto

lemma clean_no_start: "clean (drop i d) \<Longrightarrow> find_start d i = None"
proof (induction d i rule: find_start.induct)
  case (1 d i)
  show ?case
  proof (cases "i + 3 \<le> length d")
    case True
    with clean_at [OF "1.prems", of 0] have not: "\<not> (d ! i = 0 \<and> d ! (i + 1) = 0 \<and> d ! (i + 2) \<le> 2)"
      by (simp add: nth_drop)
    have "clean (drop (i + 1) d)"
      using clean_tl [OF "1.prems"] by (simp add: drop_Suc tl_drop)
    with 1 True not show ?thesis
      by (subst find_start.simps) (auto simp: word_le_nat_alt)
  qed (subst find_start.simps, simp)
qed

lemma find_start_head: "find_start (0 # 0 # 0 # 1 # d) 0 = Some 4"
  by (subst find_start.simps) simp



subsection \<open>The Annex-B walk\<close>

lemma find_start_next:
  "clean (drop i pre) \<Longrightarrow> i \<le> length pre \<Longrightarrow>
   find_start (pre @ 0 # 0 # 0 # 1 # rest) i = Some (length pre + 4)"
proof (induction "pre @ 0 # 0 # 0 # 1 # rest" i rule: find_start.induct)
  case (1 i)
  let ?d = "pre @ 0 # 0 # 0 # 1 # rest"
  show ?case
  proof (cases "i = length pre")
    case True
    then show ?thesis by (subst find_start.simps) (simp add: nth_append)
  next
    case False
    with "1.prems" have i: "i < length pre" by simp
    have cl: "clean (drop (i + 1) pre)"
      using clean_tl [OF "1.prems"(1)] by (simp add: drop_Suc tl_drop)
    consider "i + 3 \<le> length pre" | "i + 2 = length pre" | "i + 1 = length pre" using i by linarith
    then have ab: "\<not> (?d ! i = 0 \<and> ?d ! (i + 1) = 0 \<and> ?d ! (i + 2) = 1)
        \<and> \<not> (?d ! i = 0 \<and> ?d ! (i + 1) = 0 \<and> ?d ! (i + 2) = 0 \<and> ?d ! (i + 3) = 1)"
    proof cases
      case 1
      then have "\<not> (pre ! i = 0 \<and> pre ! (i + 1) = 0 \<and> pre ! (i + 2) \<le> 2)"
        using clean_at [OF "1.prems"(1), of 0] by simp
      with 1 show ?thesis by (auto simp: nth_append word_le_nat_alt)
    qed (auto simp: nth_append)
    have "find_start ?d i = find_start ?d (i + 1)"
      using ab i by (subst find_start.simps) auto
    also have "\<dots> = Some (length pre + 4)"
      using "1.hyps" ab i cl by auto
    finally show ?thesis .
  qed
qed

lemma escape_length: "length (escape z bs) \<le> 2 * length bs"
  by (induction bs arbitrary: z) (auto intro: le_SucI)

lemma nal_types [simp]:
  "nal_type_of True 0x40 = 32" "nal_type_of True 0x42 = 33" "nal_type_of True 0x44 = 34"
  "nal_type_of False 0x40 = 0"
  by code_simp+

lemma annexb_skip:
  assumes "clean nal" and "nal \<noteq> []" and "\<not> nal_type_of True (hd nal) = 33" and "clean nal2" and "n = length pre"
  shows "annexb_scan True (pre @ nal @ 0 # 0 # 0 # 1 # nal2 @ 0 # 0 # 0 # 1 # rest) n
       = annexb_scan True (pre @ nal @ 0 # 0 # 0 # 1 # nal2 @ 0 # 0 # 0 # 1 # rest) (n + length nal + length nal2 + 8)"
proof -
  let ?d = "pre @ nal @ 0 # 0 # 0 # 1 # nal2 @ 0 # 0 # 0 # 1 # rest"
  have n1: "find_start ?d (length pre) = Some (length pre + length nal + 4)"
    using find_start_next [of "length pre" "pre @ nal" "nal2 @ 0 # 0 # 0 # 1 # rest"] assms by simp
  have n2: "find_start ?d (length pre + length nal + 4) = Some (length pre + length nal + length nal2 + 8)"
    using find_start_next [of "length pre + length nal + 4" "pre @ nal @ 0 # 0 # 0 # 1 # nal2" rest] assms by simp
  have "?d ! length pre = hd nal" using assms(2) by (cases nal) (auto simp: nth_append)
  with assms(3,5) n1 n2 show ?thesis
    by (subst annexb_scan.simps) simp
qed

lemma annexb_last:
  assumes "clean nal" and "nal \<noteq> []" and "\<not> nal_type_of True (hd nal) = 33"
    and "n = length pre"
  shows "annexb_scan True (pre @ nal) n = None"
proof -
  have "find_start (pre @ nal) (length pre) = None" by (rule clean_no_start) (simp add: assms)
  moreover have "(pre @ nal) ! length pre = hd nal" using assms(2) by (cases nal) (auto simp: nth_append)
  ultimately show ?thesis using assms(3,4) by (subst annexb_scan.simps) simp
qed

text \<open>
  In an HEVC access unit that starts with the usual parameter sets VPS, SPS, PPS behind
  four-byte start codes, the sniffer never sees the SPS: the walk continues at the start code
  after the next one, so it inspects only every second unit, and reports "unknown" (0) whatever bit depth the
  SPS announces. A 10-bit stream of this layout is therefore decoded as if nothing were known
  about its depth.
\<close>

theorem hw_hevc_sps_missed:
  assumes "length vps + length sps + length pps < 2 ^ 20"
  shows "zc_nal_bit_depth ([0, 0, 0, 1, 0x40, 1] @ escape 0 vps @ [0, 0, 0, 1, 0x42, 1] @ escape 0 sps
           @ [0, 0, 0, 1, 0x44, 1] @ escape 0 pps) ZC_CODEC_HEVC = 0"
proof -
  let ?v = "0x40 # 1 # escape 0 vps" and ?s = "0x42 # 1 # escape 0 sps" and ?p = "0x44 # 1 # escape 0 pps"
  let ?d = "[0, 0, 0, 1] @ ?v @ 0 # 0 # 0 # 1 # ?s @ 0 # 0 # 0 # 1 # ?p"
  have cl: "clean ?v" "clean ?s" "clean ?p"
    using clean_escape by (simp_all add: clean_nonzero)
  have "annexb_scan True ?d 4 = annexb_scan True ?d (4 + length ?v + length ?s + 8)"
    using annexb_skip [of ?v ?s 4 "[0, 0, 0, 1]" ?p] cl by simp
  also have "\<dots> = None"
    using annexb_last [of ?p "4 + length ?v + length ?s + 8" "[0, 0, 0, 1] @ ?v @ 0 # 0 # 0 # 1 # ?s @ [0, 0, 0, 1]"] cl by simp
  finally have annexb: "annexb_scan True ?d 4 = None" .
  have avcc: "avcc_scan True ?d 0 = 0"
  proof -
    have len: "18 \<le> length ?d" "length ?d < 2 ^ 24"
      using assms escape_length [of 0 vps] escape_length [of 0 sps] escape_length [of 0 pps] by simp_all
    have "avcc_scan True ?d 0 = avcc_scan True ?d 5"
      by (subst avcc_scan.simps) (simp add: be32_def)
    also have "be32 ?d 5 \<ge> 2 ^ 24" by (simp add: be32_def)
    then have "avcc_scan True ?d 5 = 0" 
      using len by (subst avcc_scan.simps) (simp only: Let_def, simp)
    finally show ?thesis .
  qed
  show ?thesis
    using annexb avcc find_start_head by (simp add: zc_nal_bit_depth_def)
qed

theorem hw_hevc_sps_missed_witness:
  "zc_nal_bit_depth ([0, 0, 0, 1, 0x40, 1] @ escape 0 [] @ [0, 0, 0, 1, 0x42, 1]
       @ escape 0 [1, 2, 0x20, 0, 0, 0, 0x90, 0, 0, 0, 0, 0, 0x5D, 0xAC, 0xC0]
       @ [0, 0, 0, 1, 0x44, 1] @ escape 0 []) ZC_CODEC_HEVC = 0
   \<and> sps_hevc_bit_depth [1, 2, 0x20, 0, 0, 0, 0x90, 0, 0, 0, 0, 0, 0x5D, 0xAC, 0xC0] = 10"
proof
  let ?d = "[1, 2, 0x20, 0, 0, 0, 0x90, 0, 0, 0, 0, 0, 0x5D, 0xAC, 0xC0] :: bytes"
  have "zc_br_read ?d 3 4 = (0, 7)" "zc_br_read ?d 1 110 = (0, 111)"
    by (simp_all add: zc_br_read_def numeral_3_eq_3)
  moreover have "snd (zc_br_read ?d 4 0) = 4" "skip_bits ?d ([1] @ profile_fields @ [8]) 7 = 104"
    by (simp_all add: profile_fields_def zc_br_read_skips)
  moreover have "zc_br_ue ?d 104 = (0, 105)" "zc_br_ue ?d 105 = (1, 108)" "zc_br_ue ?d 108 = (0, 109)"
    "zc_br_ue ?d 109 = (0, 110)" "zc_br_ue ?d 111 = (2, 114)"
    by (simp_all add: zc_br_ue_def br_ue.simps zc_br_read_def)
  ultimately show "sps_hevc_bit_depth ?d = 10"
    unfolding sps_hevc_bit_depth_def by (simp add: numeral_2_eq_2 depth_of_def del: append.simps)
qed (rule hw_hevc_sps_missed, simp)

end
