(* ===== verification/Ssp_Source.thy ===== *)
theory Ssp_Source
  imports Resources Cpu_Frame Hw_Decode Connector_Protocol
begin

text \<open>
  The OBS source, \<^verbatim>\<open>class ZcSspSource\<close> in \<^verbatim>\<open>src/zc_source.cpp\<close>, in the default build (zero copy
  and software decoding both on). Every method is one operation on the record \<open>source\<close>; the
  mutexes of the class make the methods atomic against each other, and the interleaving of \<^verbatim>\<open>stop\<close>
  with the reconnect thread is refined in its own theory.

  Decoders, hardware frames and textures are numbered, and their creation and release are
  events, so that ownership can be counted. What the decoder returns for an access unit, whether
  a surface can be imported or a texture or decoder created, and the clock are inputs of the
  operations. By the contract of \<^verbatim>\<open>struct zc_hw_decoder\<close> a hardware decoder hands out an AVFrame
  that the source owns, the software decoder a CPU frame it keeps.
\<close>

subsection \<open>Data\<close>

record zc_decoded_frame =
  zf_avframe :: "nat option"
  zf_texture :: "nat option"
  zf_owns_texture :: bool
  zf_width :: u32
  zf_height :: u32
  zf_timestamp :: u64

definition frame_none :: zc_decoded_frame where
  "frame_none = \<lparr>zf_avframe = None, zf_texture = None, zf_owns_texture = False, zf_width = 0, zf_height = 0,
     zf_timestamp = 0\<rparr>"

datatype reconnect_thread = RtNone | RtWaiting | RtFinished

record source =
  sr_name :: string
  sr_ip :: string
  sr_async :: bool
  sr_requested :: zc_hw_backend
  sr_backend :: zc_hw_backend
  sr_decoder :: "(nat \<times> zc_hw_backend) option"
  sr_codec :: zc_codec_id
  sr_bitDepthKnown :: bool
  sr_streamTenBit :: bool
  sr_decoderTenBit :: bool
  sr_metaW :: int
  sr_metaH :: int
  sr_bitrate :: int
  sr_syncMode :: int
  sr_waitIFrame :: bool
  sr_lowNoise :: bool
  sr_client :: bool
  sr_running :: bool
  sr_iFrameShown :: bool
  sr_reconnect :: reconnect_thread
  sr_reconnectJoined :: bool
  sr_stopping :: bool
  sr_startedNs :: u64
  sr_lastPacketNs :: u64
  sr_forceSoftware :: bool
  sr_pending :: zc_decoded_frame
  sr_hasPending :: bool
  sr_drawn :: zc_decoded_frame
  sr_lastWidth :: u32
  sr_lastHeight :: u32
  sr_cpuFrame :: cpu_frame
  sr_hasCpuFrame :: bool
  sr_cpuTex :: "nat option"
  sr_lastCpuFmt :: video_format
  sr_cpuW :: u32
  sr_cpuH :: u32
  sr_nextDecoder :: nat
  sr_nextFrame :: nat
  sr_nextTexture :: nat

record obs_settings =
  st_ip :: string
  st_backend :: zc_hw_backend
  st_bitrate :: int
  st_syncMode :: int
  st_waitIFrame :: bool
  st_lowNoise :: bool

datatype src_event =
    EvDecoderNew nat | EvDecoderFree nat
  | EvFrameNew nat | EvFrameFree nat
  | EvTextureNew nat | EvTextureFree nat
  | EvConnect string | EvDisconnect
  | EvReconnectIn nat
  | EvOutput u64 u32 u32
  | EvDecode nat
  | EvDraw nat
  | EvCpu cf_event

text \<open>What the platform answers: detection and creation of decoders, and of swscale contexts.\<close>

record platform =
  pf_detect :: "zc_hw_backend \<Rightarrow> zc_codec_id \<Rightarrow> zc_hw_backend"
  pf_hw_ok :: "zc_hw_backend \<Rightarrow> bool"
  pf_sw_ok :: bool
  pf_sws_ok :: "video_format \<Rightarrow> u32 \<Rightarrow> u32 \<Rightarrow> bool"

definition default_build :: build where
  "default_build = \<lparr>zero_copy = True, sw_decode = True\<rparr>"

definition source_new :: "string \<Rightarrow> bool \<Rightarrow> source" where
  "source_new name async =
     \<lparr>sr_name = name, sr_ip = [], sr_async = async, sr_requested = ZC_HW_AUTO, sr_backend = ZC_HW_SOFTWARE,
      sr_decoder = None, sr_codec = ZC_CODEC_H264, sr_bitDepthKnown = False, sr_streamTenBit = False,
      sr_decoderTenBit = False, sr_metaW = 0, sr_metaH = 0, sr_bitrate = 0, sr_syncMode = 0,
      sr_waitIFrame = False, sr_lowNoise = False, sr_client = False, sr_running = False, sr_iFrameShown = False,
      sr_reconnect = RtNone, sr_reconnectJoined = True, sr_stopping = False, sr_startedNs = 0,
      sr_lastPacketNs = 0, sr_forceSoftware = False, sr_pending = frame_none, sr_hasPending = False,
      sr_drawn = frame_none, sr_lastWidth = 0, sr_lastHeight = 0, sr_cpuFrame = cpu_init, sr_hasCpuFrame = False,
      sr_cpuTex = None, sr_lastCpuFmt = VIDEO_FORMAT_NONE, sr_cpuW = 0, sr_cpuH = 0,
      sr_nextDecoder = 0, sr_nextFrame = 0, sr_nextTexture = 0\<rparr>"

definition zc_source_getdefaults :: obs_settings where
  "zc_source_getdefaults = \<lparr>st_ip = [], st_backend = ZC_HW_AUTO, st_bitrate = 20, st_syncMode = 0,
     st_waitIFrame = False, st_lowNoise = False\<rparr>"

subsection \<open>Frames and decoders\<close>

definition owned_frames :: "zc_decoded_frame \<Rightarrow> nat list" where
  "owned_frames f = (case zf_avframe f of None \<Rightarrow> [] | Some a \<Rightarrow> [a])"

definition owned_textures :: "zc_decoded_frame \<Rightarrow> nat list" where
  "owned_textures f = (case zf_texture f of None \<Rightarrow> [] | Some t \<Rightarrow> if zf_owns_texture f then [t] else [])"

definition release_frame_direct :: "zc_decoded_frame \<Rightarrow> src_event list" where
  "release_frame_direct f = map EvFrameFree (owned_frames f) @ map EvTextureFree (owned_textures f)"

text \<open>Take the pending frame out of its slot and release it; the callers test the slot and the
  resources of the frame first, which changes nothing for an empty frame.\<close>

definition drop_pending :: "source \<Rightarrow> source \<times> src_event list" where
  "drop_pending s =
     (if sr_hasPending s
      then (s\<lparr>sr_pending := frame_none, sr_hasPending := False\<rparr>, release_frame_direct (sr_pending s))
      else (s, []))"

definition installDecoder :: "(nat \<times> zc_hw_backend) option \<Rightarrow> source \<Rightarrow> source \<times> src_event list" where
  "installDecoder fresh s =
     (s\<lparr>sr_decoder := fresh\<rparr>, case sr_decoder s of None \<Rightarrow> [] | Some (d, k) \<Rightarrow> [EvDecoderFree d])"

definition resolve_for :: "platform \<Rightarrow> bool \<Rightarrow> zc_codec_id \<Rightarrow> source \<Rightarrow> zc_hw_backend" where
  "resolve_for pf software codec s =
     zc_hw_resolve default_build (pf_detect pf) (if software \<or> sr_async s then ZC_HW_SOFTWARE else sr_requested s) codec"

text \<open>\<^verbatim>\<open>createDecoder\<close> followed by \<^verbatim>\<open>installDecoder\<close>, as every caller composes them; while the source
  is not running the fresh decoder is null.\<close>

definition rebuild :: "platform \<Rightarrow> bool \<Rightarrow> zc_codec_id \<Rightarrow> source \<Rightarrow> source \<times> src_event list" where
  "rebuild pf software codec s =
     (if \<not> sr_running s then installDecoder None s
      else
        (let k = resolve_for pf software codec s; s1 = s\<lparr>sr_backend := k\<rparr> in
         case zc_hw_decoder_create default_build (pf_hw_ok pf) (pf_sw_ok pf) k of
           None \<Rightarrow> installDecoder None s1
         | Some real \<Rightarrow>
             then_do (s1\<lparr>sr_nextDecoder := Suc (sr_nextDecoder s1)\<rparr>, [EvDecoderNew (sr_nextDecoder s1)])
               (installDecoder (Some (sr_nextDecoder s1, real)))))"

subsection \<open>Connection\<close>

definition ipFromSourceName :: "string \<Rightarrow> string" where
  "ipFromSourceName name =
     (let prefix = ''ZCamera '' in
      if length name \<le> length prefix \<or> \<not> starts_with prefix name then [] else drop (length prefix) name)"

definition connect_now :: "u64 \<Rightarrow> source \<Rightarrow> source \<times> src_event list" where
  "connect_now now s =
     (s\<lparr>sr_forceSoftware := False, sr_bitDepthKnown := False, sr_streamTenBit := False, sr_stopping := False,
        sr_client := True, sr_startedNs := now, sr_lastPacketNs := 0, sr_running := True, sr_iFrameShown := False\<rparr>,
      (if sr_client s then [EvDisconnect] else []) @ [EvConnect (sr_ip s)])"

definition start :: "u64 \<Rightarrow> source \<Rightarrow> source \<times> src_event list" where
  "start now s0 =
     (let s = (if sr_ip s0 = [] then s0\<lparr>sr_ip := ipFromSourceName (sr_name s0)\<rparr> else s0) in
      if sr_ip s = [] \<or> sr_running s then (s, [])
      else then_do (installDecoder None s) (connect_now now))"

definition teardownConnection :: "source \<Rightarrow> source \<times> src_event list" where
  "teardownConnection s =
     (s\<lparr>sr_running := False, sr_client := False\<rparr>, if sr_client s then [EvDisconnect] else [])"

text \<open>The join of \<^verbatim>\<open>stop\<close>: a waiting reconnect thread wakes up on \<^verbatim>\<open>stopping_\<close>, resets it and ends.\<close>

definition joinReconnect :: "source \<Rightarrow> source \<times> src_event list" where
  "joinReconnect s =
     (case sr_reconnect s of
        RtNone \<Rightarrow> (s, [])
      | RtWaiting \<Rightarrow> (s\<lparr>sr_stopping := False, sr_reconnect := RtNone, sr_reconnectJoined := True\<rparr>, [])
      | RtFinished \<Rightarrow> (s\<lparr>sr_reconnect := RtNone, sr_reconnectJoined := True\<rparr>, []))"

definition drop_drawn :: "source \<Rightarrow> source \<times> src_event list" where
  "drop_drawn s = (s\<lparr>sr_drawn := frame_none\<rparr>, release_frame_direct (sr_drawn s))"

definition drop_decoder :: "source \<Rightarrow> source \<times> src_event list" where
  "drop_decoder s = installDecoder None (s\<lparr>sr_forceSoftware := False\<rparr>)"

definition drop_cpu :: "source \<Rightarrow> source \<times> src_event list" where
  "drop_cpu s = (s\<lparr>sr_cpuFrame := cpu_clear (sr_cpuFrame s), sr_hasCpuFrame := False\<rparr>, [])"

definition stop :: "source \<Rightarrow> source \<times> src_event list" where
  "stop s =
     then_do (then_do (then_do (then_do (then_do (then_do
       (teardownConnection (s\<lparr>sr_stopping := True\<rparr>)) joinReconnect) teardownConnection) drop_pending)
       drop_drawn) drop_decoder) drop_cpu"

definition reconnectNow :: "u64 \<Rightarrow> source \<Rightarrow> source \<times> src_event list" where
  "reconnectNow now s =
     then_do (teardownConnection s)
       (\<lambda>s1. if sr_stopping s1 then (s1, []) else then_do (drop_pending s1) (start now))"

text \<open>The reconnect thread after its wait of \<^verbatim>\<open>delays[0]\<close> has timed out.\<close>

definition reconnectThread :: "u64 \<Rightarrow> source \<Rightarrow> source \<times> src_event list" where
  "reconnectThread now s =
     (if sr_reconnect s \<noteq> RtWaiting then (s, [])
      else
        then_do (if \<not> sr_running s \<or> sr_stopping s then (s, []) else reconnectNow now s)
          (\<lambda>s1. (s1\<lparr>sr_stopping := False, sr_reconnectJoined := True, sr_reconnect := RtFinished\<rparr>, [])))"

definition onDisconnected :: "source \<Rightarrow> source \<times> src_event list" where
  "onDisconnected s =
     (if \<not> sr_running s \<or> \<not> sr_reconnectJoined s then (s, [])
      else (s\<lparr>sr_reconnectJoined := False, sr_reconnect := RtWaiting\<rparr>, [EvReconnectIn 3000]))"

definition ZC_STALL_TIMEOUT_MS :: u64 where
  "ZC_STALL_TIMEOUT_MS = 10000"

definition watchdog :: "u64 \<Rightarrow> source \<Rightarrow> source \<times> src_event list" where
  "watchdog now s =
     (if \<not> sr_running s then (s, [])
      else
        (let since = (if sr_lastPacketNs s \<noteq> 0 then sr_lastPacketNs s else sr_startedNs s) in
         if since = 0 then (s, [])
         else if (now - since) div 1000000 < ZC_STALL_TIMEOUT_MS then (s, [])
         else onDisconnected (s\<lparr>sr_lastPacketNs := now\<rparr>)))"

definition apply_settings :: "string \<Rightarrow> zc_hw_backend \<Rightarrow> obs_settings \<Rightarrow> source \<Rightarrow> source" where
  "apply_settings ip backend st s =
     s\<lparr>sr_ip := ip, sr_requested := backend, sr_bitrate := st_bitrate st, sr_syncMode := st_syncMode st,
       sr_waitIFrame := st_waitIFrame st, sr_lowNoise := st_lowNoise st\<rparr>"

definition update :: "u64 \<Rightarrow> obs_settings \<Rightarrow> source \<Rightarrow> source \<times> src_event list" where
  "update now st s =
     (let ip = (if st_ip st = [] then ipFromSourceName (sr_name s) else st_ip st);
          backend = (if st_backend st = ZC_HW_CUDA then ZC_HW_AUTO else st_backend st);
          changed = (ip \<noteq> sr_ip s \<or> backend \<noteq> sr_requested s \<or> st_bitrate st \<noteq> sr_bitrate s
                     \<or> st_syncMode st \<noteq> sr_syncMode s \<or> st_waitIFrame st \<noteq> sr_waitIFrame s
                     \<or> st_lowNoise st \<noteq> sr_lowNoise s) in
      if \<not> changed then (s, [])
      else then_do (stop s) (\<lambda>s1. start now (apply_settings ip backend st s1)))"

definition activate :: "u64 \<Rightarrow> source \<Rightarrow> source \<times> src_event list" where
  "activate now s = (if \<not> sr_running s then start now s else (s, []))"

definition source_delete :: "source \<Rightarrow> source \<times> src_event list" where
  "source_delete s =
     then_do (stop s)
       (\<lambda>s1. (s1\<lparr>sr_cpuTex := None\<rparr>, case sr_cpuTex s1 of None \<Rightarrow> [] | Some t \<Rightarrow> [EvTextureFree t]))"

subsection \<open>Data callbacks\<close>

datatype decode_result = DecNothing | DecHw u32 u32 u64 | DecCpu obs_source_frame2 u64

definition pass_i_frame :: "ssp_video \<Rightarrow> source \<Rightarrow> bool \<times> source" where
  "pass_i_frame v s =
     (if sr_waitIFrame s \<and> \<not> sr_iFrameShown s
      then (if v_type v = 5 then (True, s\<lparr>sr_iFrameShown := True\<rparr>) else (False, s))
      else (True, s))"

definition sniff :: "ssp_video \<Rightarrow> source \<Rightarrow> source" where
  "sniff v s =
     (if sr_decoder s \<noteq> None \<and> \<not> sr_bitDepthKnown s
      then (let bd = zc_nal_bit_depth (v_data v) (sr_codec s) in
            if bd \<ge> 8 then s\<lparr>sr_bitDepthKnown := True, sr_streamTenBit := (bd \<ge> 10)\<rparr> else s)
      else s)"

definition depth_rebuild :: "platform \<Rightarrow> source \<Rightarrow> source \<times> src_event list" where
  "depth_rebuild pf s =
     (if sr_bitDepthKnown s \<and> sr_decoder s \<noteq> None \<and> sr_backend s \<noteq> ZC_HW_SOFTWARE
         \<and> sr_decoderTenBit s \<noteq> sr_streamTenBit s
      then then_do (drop_pending s) (\<lambda>s1. rebuild pf False (sr_codec s1) (s1\<lparr>sr_decoderTenBit := sr_streamTenBit s1\<rparr>))
      else (s, []))"

text \<open>The GPU branch of \<^verbatim>\<open>outputVideo\<close>: the slot takes the new frame, an undrawn one is released.\<close>

definition output_gpu :: "u32 \<Rightarrow> u32 \<Rightarrow> u64 \<Rightarrow> source \<Rightarrow> source \<times> src_event list" where
  "output_gpu w h ts s =
     (s\<lparr>sr_nextFrame := Suc (sr_nextFrame s), sr_lastWidth := w, sr_lastHeight := h,
        sr_pending := \<lparr>zf_avframe = Some (sr_nextFrame s), zf_texture = None, zf_owns_texture = False,
                        zf_width = w, zf_height = h, zf_timestamp = ts\<rparr>,
        sr_hasPending := True\<rparr>,
      EvFrameNew (sr_nextFrame s) # (if sr_hasPending s then release_frame_direct (sr_pending s) else []))"

definition output_software :: "platform \<Rightarrow> obs_source_frame2 \<Rightarrow> source \<Rightarrow> source \<times> src_event list" where
  "output_software pf f s =
     (case output_cpu (pf_sws_ok pf) f (sr_cpuFrame s) of
        ((has, c), es) \<Rightarrow>
          (s\<lparr>sr_cpuFrame := c, sr_lastWidth := of_width f, sr_lastHeight := of_height f, sr_hasCpuFrame := has\<rparr>,
           map EvCpu es))"

text \<open>The decode call with what follows it. In asynchronous mode a GPU frame would be lost here;
  that mode never has a hardware decoder.\<close>

definition decode_and_output :: "platform \<Rightarrow> u64 \<Rightarrow> decode_result \<Rightarrow> source \<Rightarrow> source \<times> src_event list" where
  "decode_and_output pf now res s =
     (case sr_decoder s of
        None \<Rightarrow> (s, [])
      | Some (d, k) \<Rightarrow>
          then_do (s, [EvDecode d])
            (\<lambda>s1. case res of
               DecNothing \<Rightarrow> (s1, [])
             | DecHw w h ts \<Rightarrow>
                 if k = ZC_HW_SOFTWARE then (s1, [])
                 else if sr_async s1
                 then (s1\<lparr>sr_nextFrame := Suc (sr_nextFrame s1)\<rparr>, [EvFrameNew (sr_nextFrame s1)])
                 else output_gpu w h (if sr_syncMode s1 = 0 then now else ts) s1
             | DecCpu f ts \<Rightarrow>
                 if k \<noteq> ZC_HW_SOFTWARE then (s1, [])
                 else if sr_async s1
                 then (s1\<lparr>sr_lastWidth := of_width f, sr_lastHeight := of_height f\<rparr>,
                       [EvOutput (if sr_syncMode s1 = 0 then now else ts) (of_width f) (of_height f)])
                 else output_software pf f s1))"

definition onVideoData :: "platform \<Rightarrow> u64 \<Rightarrow> decode_result \<Rightarrow> ssp_video \<Rightarrow> source \<Rightarrow> source \<times> src_event list" where
  "onVideoData pf now res v s =
     (if \<not> sr_running s then (s, [])
      else
        (case pass_i_frame v (s\<lparr>sr_lastPacketNs := now\<rparr>) of
           (pass, s1) \<Rightarrow>
             if \<not> pass then (s1, [])
             else then_do (depth_rebuild pf (sniff v s1)) (decode_and_output pf now res)))"

definition codec_of :: "u32 \<Rightarrow> zc_codec_id" where
  "codec_of encoder = (if encoder = 96 then ZC_CODEC_H264 else ZC_CODEC_HEVC)"

definition needs_rebuild :: "video_meta \<Rightarrow> source \<Rightarrow> bool" where
  "needs_rebuild v s \<longleftrightarrow>
     sr_decoder s = None \<or> codec_of (vm_encoder v) \<noteq> sr_codec s
     \<or> (sr_metaW s \<noteq> sint (vm_width v) \<or> sr_metaH s \<noteq> sint (vm_height v))
     \<or> (sr_forceSoftware s \<and> sr_backend s \<noteq> ZC_HW_SOFTWARE)"

definition onMeta :: "platform \<Rightarrow> video_meta \<Rightarrow> source \<Rightarrow> source \<times> src_event list" where
  "onMeta pf v s =
     (let s1 = s\<lparr>sr_metaW := sint (vm_width v), sr_metaH := sint (vm_height v)\<rparr>;
          codec = codec_of (vm_encoder v);
          tenBit = (sr_bitDepthKnown s \<and> sr_streamTenBit s) in
      if needs_rebuild v s
      then then_do (drop_pending s1)
             (\<lambda>s2. rebuild pf (sr_forceSoftware s) codec (s2\<lparr>sr_codec := codec, sr_decoderTenBit := tenBit\<rparr>))
      else (s1, []))"

subsection \<open>Rendering\<close>

text \<open>What the graphics system answers: whether the surface can be imported, a texture created,
  and whether there is an effect to draw with.\<close>

record graphics =
  gr_import :: bool
  gr_texture :: bool
  gr_effect :: bool

definition draw_texture :: "graphics \<Rightarrow> nat option \<Rightarrow> source \<Rightarrow> source \<times> src_event list" where
  "draw_texture gr tex s = (s, case tex of None \<Rightarrow> [] | Some t \<Rightarrow> if gr_effect gr then [EvDraw t] else [])"

definition import_failed :: "source \<Rightarrow> source \<times> src_event list" where
  "import_failed s =
     (s\<lparr>sr_pending := frame_none, sr_hasPending := False, sr_forceSoftware := True\<rparr>, release_frame_direct (sr_pending s))"

definition show_pending :: "source \<Rightarrow> source \<times> src_event list" where
  "show_pending s =
     (s\<lparr>sr_nextTexture := Suc (sr_nextTexture s),
        sr_drawn := (sr_pending s)\<lparr>zf_texture := Some (sr_nextTexture s), zf_owns_texture := True\<rparr>,
        sr_pending := frame_none, sr_hasPending := False\<rparr>,
      EvTextureNew (sr_nextTexture s) # release_frame_direct (sr_drawn s))"

definition cpu_texture :: "graphics \<Rightarrow> source \<Rightarrow> source \<times> src_event list" where
  "cpu_texture gr s =
     (let c = sr_cpuFrame s in
      if sr_cpuTex s = None \<or> cf_format c \<noteq> sr_lastCpuFmt s \<or> cf_width c \<noteq> sr_cpuW s \<or> cf_height c \<noteq> sr_cpuH s
      then (s\<lparr>sr_cpuTex := (if gr_texture gr then Some (sr_nextTexture s) else None),
              sr_nextTexture := (if gr_texture gr then Suc (sr_nextTexture s) else sr_nextTexture s),
              sr_lastCpuFmt := cf_format c, sr_cpuW := cf_width c, sr_cpuH := cf_height c\<rparr>,
            (case sr_cpuTex s of None \<Rightarrow> [] | Some t \<Rightarrow> [EvTextureFree t])
            @ (if gr_texture gr then [EvTextureNew (sr_nextTexture s)] else []))
      else (s, []))"

text \<open>The release of the GPU picture once a CPU picture is shown, if that picture owns anything.\<close>

definition supersede_drawn :: "source \<Rightarrow> source \<times> src_event list" where
  "supersede_drawn s = (if release_frame_direct (sr_drawn s) = [] then (s, []) else drop_drawn s)"

definition show_cpu :: "graphics \<Rightarrow> source \<Rightarrow> source \<times> src_event list" where
  "show_cpu gr s =
     (let c = sr_cpuFrame s in
      if cf_width c = 0 \<or> cf_height c = 0 \<or> cf_rgba c = None then (s\<lparr>sr_hasCpuFrame := False\<rparr>, [])
      else
        then_do (cpu_texture gr s)
          (\<lambda>s1. if sr_cpuTex s1 = None then (s1\<lparr>sr_hasCpuFrame := False\<rparr>, [])
                else then_do (supersede_drawn (s1\<lparr>sr_hasCpuFrame := False\<rparr>)) (\<lambda>s2. draw_texture gr (sr_cpuTex s2) s2)))"

definition videoRender :: "platform \<Rightarrow> graphics \<Rightarrow> u64 \<Rightarrow> source \<Rightarrow> source \<times> src_event list" where
  "videoRender pf gr now s0 =
     then_do (watchdog now s0)
       (\<lambda>s. if sr_hasPending s \<and> zf_avframe (sr_pending s) \<noteq> None
            then if sr_decoder s \<noteq> None \<and> gr_import gr
                 then then_do (show_pending s) (\<lambda>s1. draw_texture gr (zf_texture (sr_drawn s1)) s1)
                 else if \<not> sr_forceSoftware s
                 then then_do (import_failed s) (\<lambda>s1. rebuild pf True (sr_codec s1) s1)
                 else then_do (import_failed s) (\<lambda>s1. draw_texture gr (zf_texture (sr_drawn s1)) s1)
            else if sr_hasCpuFrame s then show_cpu gr s
            else draw_texture gr (zf_texture (sr_drawn s)) s)"

subsection \<open>The source as a state machine\<close>

datatype src_input =
    SrcUpdate u64 obs_settings | SrcActivate u64 | SrcDeactivate
  | SrcVideo platform u64 decode_result ssp_video | SrcAudio ssp_audio | SrcMeta platform video_meta
  | SrcDisconnected | SrcReconnect u64 | SrcRender platform graphics u64

fun src_step :: "src_input \<Rightarrow> source \<Rightarrow> source \<times> src_event list" where
  "src_step (SrcUpdate now st) s = update now st s"
| "src_step (SrcActivate now) s = activate now s"
| "src_step SrcDeactivate s = (s, [])"
| "src_step (SrcVideo pf now res v) s = onVideoData pf now res v s"
| "src_step (SrcAudio a) s = (s, [])"
| "src_step (SrcMeta pf v) s = onMeta pf v s"
| "src_step SrcDisconnected s = onDisconnected s"
| "src_step (SrcReconnect now) s = reconnectThread now s"
| "src_step (SrcRender pf gr now) s = videoRender pf gr now s"

text \<open>
  The callbacks \<^verbatim>\<open>start\<close> installs on the SSP client: what the receive thread delivers, as inputs of the
  source. \<open>env k\<close> is the clock and what the decoder returns at the \<open>k\<close>-th access unit; an over-read
  is undefined behaviour, after which nothing is known.
\<close>

fun client_inputs :: "platform \<Rightarrow> (nat \<Rightarrow> u64 \<times> decode_result) \<Rightarrow> nat \<Rightarrow> rx_event list \<Rightarrow> src_input list" where
  "client_inputs pf env k [] = []"
| "client_inputs pf env k (RxCallback (SspVideo v) # es) =
     SrcVideo pf (fst (env k)) (snd (env k)) v # client_inputs pf env (Suc k) es"
| "client_inputs pf env k (RxCallback (SspAudio a) # es) = SrcAudio a # client_inputs pf env k es"
| "client_inputs pf env k (RxCallback (SspMeta vm am bm) # es) = SrcMeta pf vm # client_inputs pf env k es"
| "client_inputs pf env k (RxCallback SspDisconnected # es) = SrcDisconnected # client_inputs pf env k es"
| "client_inputs pf env k (RxCallback SspConnected # es) = client_inputs pf env k es"
| "client_inputs pf env k (RxCallback SspBufferFull # es) = client_inputs pf env k es"
| "client_inputs pf env k (RxCallback (SspException c d) # es) = client_inputs pf env k es"
| "client_inputs pf env k (RxProtocolError # es) = client_inputs pf env k es"
| "client_inputs pf env k (RxOverread # es) = []"

end
