(* ===== verification/Source_Ownership.thy ===== *)
theory Source_Ownership
  imports Ssp_Source
begin

text \<open>
  Ownership in the OBS source. The monitor reads the events of the source and rejects the first one that uses or
  frees a decoder, frame or texture that is not alive, creates one that is, opens a second
  connection or closes one that is not open, or writes outside a CPU buffer. The source is
  \<open>monitored\<close>: every run is accepted, and the monitor ends with exactly what the source holds.
\<close>

record src_mon =
  mo_decoders :: "nat set"
  mo_frames :: "nat set"
  mo_textures :: "nat set"
  mo_connected :: bool

fun src_monitor :: "src_event \<Rightarrow> src_mon \<Rightarrow> src_mon option" where
  "src_monitor (EvDecoderNew d) m =
     (if d \<in> mo_decoders m then None else Some (m\<lparr>mo_decoders := insert d (mo_decoders m)\<rparr>))"
| "src_monitor (EvDecoderFree d) m =
     (if d \<in> mo_decoders m then Some (m\<lparr>mo_decoders := mo_decoders m - {d}\<rparr>) else None)"
| "src_monitor (EvFrameNew f) m =
     (if f \<in> mo_frames m then None else Some (m\<lparr>mo_frames := insert f (mo_frames m)\<rparr>))"
| "src_monitor (EvFrameFree f) m =
     (if f \<in> mo_frames m then Some (m\<lparr>mo_frames := mo_frames m - {f}\<rparr>) else None)"
| "src_monitor (EvTextureNew t) m =
     (if t \<in> mo_textures m then None else Some (m\<lparr>mo_textures := insert t (mo_textures m)\<rparr>))"
| "src_monitor (EvTextureFree t) m =
     (if t \<in> mo_textures m then Some (m\<lparr>mo_textures := mo_textures m - {t}\<rparr>) else None)"
| "src_monitor (EvConnect ip) m = (if mo_connected m \<or> ip = [] then None else Some (m\<lparr>mo_connected := True\<rparr>))"
| "src_monitor EvDisconnect m = (if mo_connected m then Some (m\<lparr>mo_connected := False\<rparr>) else None)"
| "src_monitor (EvReconnectIn d) m = (if mo_connected m then Some m else None)"
| "src_monitor (EvOutput t w h) m = (if mo_connected m then Some m else None)"
| "src_monitor (EvDecode d) m = (if mo_connected m \<and> d \<in> mo_decoders m then Some m else None)"
| "src_monitor (EvDraw t) m = (if t \<in> mo_textures m then Some m else None)"
| "src_monitor (EvCpu e) m = (if write_ok e then Some m else None)"

definition src_view :: "source \<Rightarrow> src_mon" where
  "src_view s =
     \<lparr>mo_decoders = (case sr_decoder s of None \<Rightarrow> {} | Some (d, k) \<Rightarrow> {d}),
      mo_frames = set (owned_frames (sr_pending s)) \<union> set (owned_frames (sr_drawn s)),
      mo_textures = set (owned_textures (sr_pending s)) \<union> set (owned_textures (sr_drawn s))
        \<union> set_option (sr_cpuTex s),
      mo_connected = sr_client s\<rparr>"

subsection \<open>The invariant\<close>

definition slots_inv :: "source \<Rightarrow> bool" where
  "slots_inv s \<longleftrightarrow>
     (sr_hasPending s \<longleftrightarrow> zf_avframe (sr_pending s) \<noteq> None) \<and> zf_texture (sr_pending s) = None
     \<and> (zf_texture (sr_drawn s) \<noteq> None \<longrightarrow> zf_owns_texture (sr_drawn s))
     \<and> (zf_avframe (sr_pending s) \<noteq> None \<longrightarrow> zf_avframe (sr_pending s) \<noteq> zf_avframe (sr_drawn s))
     \<and> (zf_texture (sr_drawn s) \<noteq> None \<longrightarrow> zf_texture (sr_drawn s) \<noteq> sr_cpuTex s)
     \<and> cpu_inv (sr_cpuFrame s)"

definition fresh_inv :: "source \<Rightarrow> bool" where
  "fresh_inv s \<longleftrightarrow>
     (\<forall>d k. sr_decoder s = Some (d, k) \<longrightarrow> d < sr_nextDecoder s)
     \<and> (\<forall>f. zf_avframe (sr_pending s) = Some f \<or> zf_avframe (sr_drawn s) = Some f \<longrightarrow> f < sr_nextFrame s)
     \<and> (\<forall>t. zf_texture (sr_drawn s) = Some t \<or> sr_cpuTex s = Some t \<longrightarrow> t < sr_nextTexture s)"

definition conn_inv :: "source \<Rightarrow> bool" where
  "conn_inv s \<longleftrightarrow>
     sr_running s = sr_client s \<and> (sr_running s \<longrightarrow> sr_ip s \<noteq> [])
     \<and> (sr_reconnectJoined s \<longleftrightarrow> sr_reconnect s \<noteq> RtWaiting)
     \<and> (\<forall>d k. sr_async s \<and> sr_decoder s = Some (d, k) \<longrightarrow> k = ZC_HW_SOFTWARE)
     \<and> sr_requested s \<noteq> ZC_HW_CUDA"

definition src_inv :: "source \<Rightarrow> bool" where
  "src_inv s \<longleftrightarrow> slots_inv s \<and> fresh_inv s \<and> conn_inv s"

lemmas src_inv_defs = src_inv_def slots_inv_def fresh_inv_def conn_inv_def

definition src_ok :: "source \<Rightarrow> source \<times> src_event list \<Rightarrow> bool" where
  "src_ok s r \<longleftrightarrow> src_inv (fst r) \<and> tracked src_monitor src_view s r"

lemma src_ok_then:
  "src_ok s r \<Longrightarrow> (src_inv (fst r) \<Longrightarrow> src_ok (fst r) (f (fst r))) \<Longrightarrow> src_ok s (then_do r f)"
  by (simp add: src_ok_def tracked_then)

lemma src_ok_silent: "src_inv s1 \<Longrightarrow> src_view s1 = src_view s \<Longrightarrow> src_ok s (s1, [])"
  by (simp add: src_ok_def tracked_silent)

lemma src_ok_before: "src_view s1 = src_view s \<Longrightarrow> src_ok s1 r \<Longrightarrow> src_ok s r"
  by (auto simp: src_ok_def intro: tracked_before)

lemmas owned_defs = owned_frames_def owned_textures_def release_frame_direct_def frame_none_def

subsection \<open>Frames and decoders\<close>

lemma drop_pending_ok: "src_inv s \<Longrightarrow> src_ok s (drop_pending s)"
  unfolding src_ok_def tracked_def drop_pending_def
  by (cases "zf_avframe (sr_pending s)"; cases "zf_avframe (sr_drawn s)")
    (auto simp: src_inv_defs src_view_def owned_defs)

lemma drop_drawn_ok: "src_inv s \<Longrightarrow> src_ok s (drop_drawn s)"
  unfolding src_ok_def tracked_def drop_drawn_def
  by (cases "zf_avframe (sr_pending s)"; cases "zf_avframe (sr_drawn s)"; cases "zf_texture (sr_drawn s)"; cases "sr_cpuTex s")
    (auto simp: src_inv_defs src_view_def owned_defs)

lemma installDecoder_None_ok: "src_inv s \<Longrightarrow> src_ok s (installDecoder None s)"
  unfolding src_ok_def tracked_def installDecoder_def
  by (auto simp: src_inv_defs src_view_def split: option.splits prod.splits)

lemma drop_decoder_ok: "src_inv s \<Longrightarrow> src_ok s (drop_decoder s)"
  unfolding drop_decoder_def
  by (rule src_ok_before [OF _ installDecoder_None_ok]) (auto simp: src_inv_defs src_view_def)

lemma resolve_software: "software \<or> sr_async s \<Longrightarrow> resolve_for pf software codec s = ZC_HW_SOFTWARE"
  by (auto simp: resolve_for_def zc_hw_resolve_def default_build_def)

lemma create_software: "zc_hw_decoder_create default_build hw sw ZC_HW_SOFTWARE = Some k \<Longrightarrow> k = ZC_HW_SOFTWARE"
  by (auto simp: zc_hw_decoder_create_def default_build_def split: if_splits)

lemma replace_decoder_ok:
  assumes "src_inv s" "sr_async s \<longrightarrow> k = ZC_HW_SOFTWARE"
  shows "src_ok s (then_do (s\<lparr>sr_nextDecoder := Suc (sr_nextDecoder s)\<rparr>, [EvDecoderNew (sr_nextDecoder s)])
     (installDecoder (Some (sr_nextDecoder s, k))))"
  using assms unfolding src_ok_def tracked_def installDecoder_def
  by (auto simp: src_inv_defs src_view_def split: option.splits prod.splits)

lemma set_backend_ok: "src_inv (s\<lparr>sr_backend := k\<rparr>) = src_inv s" "src_view (s\<lparr>sr_backend := k\<rparr>) = src_view s"
  by (simp_all add: src_inv_defs src_view_def)

lemma rebuild_ok:
  assumes "src_inv s"
  shows "src_ok s (rebuild pf software codec s)"
proof (cases "sr_running s")
  case True
  let ?k = "resolve_for pf software codec s"
  let ?s = "s\<lparr>sr_backend := ?k\<rparr>"
  have inv: "src_inv ?s" using assms by (simp add: set_backend_ok)
  show ?thesis
  proof (cases "zc_hw_decoder_create default_build (pf_hw_ok pf) (pf_sw_ok pf) ?k")
    case None
    with True src_ok_before [OF set_backend_ok(2) installDecoder_None_ok [OF inv]] show ?thesis
      by (simp add: rebuild_def Let_def)
  next
    case (Some real)
    have "sr_async ?s \<longrightarrow> real = ZC_HW_SOFTWARE"
      using Some create_software resolve_software [of software s pf codec] by auto
    with True Some src_ok_before [OF set_backend_ok(2) replace_decoder_ok [OF inv]] show ?thesis
      by (simp add: rebuild_def Let_def)
  qed
next
  case False
  with installDecoder_None_ok [OF assms] show ?thesis by (simp add: rebuild_def)
qed

subsection \<open>Connection\<close>

lemma teardownConnection_ok: "src_inv s \<Longrightarrow> src_ok s (teardownConnection s)"
  unfolding src_ok_def tracked_def teardownConnection_def by (auto simp: src_inv_defs src_view_def)

lemma joinReconnect_ok: "src_inv s \<Longrightarrow> src_ok s (joinReconnect s)"
  unfolding joinReconnect_def
  by (auto simp: src_inv_defs src_view_def split: reconnect_thread.splits intro!: src_ok_silent)

lemma drop_cpu_ok: "src_inv s \<Longrightarrow> src_ok s (drop_cpu s)"
  unfolding drop_cpu_def
  by (rule src_ok_silent) (auto simp: src_inv_defs src_view_def cpu_clear_inv)

lemma set_stopping: "src_inv (s\<lparr>sr_stopping := b\<rparr>) = src_inv s" "src_view (s\<lparr>sr_stopping := b\<rparr>) = src_view s"
  by (simp_all add: src_inv_defs src_view_def)

lemma stop_ok: "src_inv s \<Longrightarrow> src_ok s (stop s)"
  unfolding stop_def
  by (intro src_ok_then src_ok_before [OF set_stopping(2) teardownConnection_ok] joinReconnect_ok teardownConnection_ok
      drop_pending_ok drop_drawn_ok drop_decoder_ok drop_cpu_ok) (simp_all add: set_stopping)

lemma connect_now_ok: "src_inv s \<Longrightarrow> \<not> sr_running s \<Longrightarrow> sr_ip s \<noteq> [] \<Longrightarrow> src_ok s (connect_now now s)"
  unfolding src_ok_def tracked_def connect_now_def by (auto simp: src_inv_defs src_view_def)

lemma installDecoder_fields:
  "sr_running (fst (installDecoder d s)) = sr_running s" "sr_ip (fst (installDecoder d s)) = sr_ip s"
  by (simp_all add: installDecoder_def)

lemma start_ok:
  assumes "src_inv s"
  shows "src_ok s (start now s)"
proof -
  let ?s = "if sr_ip s = [] then s\<lparr>sr_ip := ipFromSourceName (sr_name s)\<rparr> else s"
  have inv: "src_inv ?s" and view: "src_view ?s = src_view s" using assms by (auto simp: src_inv_defs src_view_def)
  have "src_ok ?s (if sr_ip ?s = [] \<or> sr_running ?s then (?s, []) else then_do (installDecoder None ?s) (connect_now now))"
  proof (cases "sr_ip ?s = [] \<or> sr_running ?s")
    case True
    with inv show ?thesis by (simp only: if_True) (rule src_ok_silent, simp_all)
  next
    case False
    have "src_ok ?s (then_do (installDecoder None ?s) (connect_now now))"
    proof (rule src_ok_then [OF installDecoder_None_ok [OF inv]])
      assume "src_inv (fst (installDecoder None ?s))"
      then show "src_ok (fst (installDecoder None ?s)) (connect_now now (fst (installDecoder None ?s)))"
        using False by (intro connect_now_ok) (simp_all only: installDecoder_fields, simp_all)
    qed
    with False show ?thesis by (simp only: if_False)
  qed
  then show ?thesis unfolding start_def Let_def by (rule src_ok_before [OF view])
qed

lemma reconnectNow_ok: "src_inv s \<Longrightarrow> src_ok s (reconnectNow now s)"
  unfolding reconnectNow_def
  by (intro src_ok_then teardownConnection_ok) (auto intro!: src_ok_silent src_ok_then drop_pending_ok start_ok)

lemma reconnect_ended_ok:
  "src_inv s \<Longrightarrow> src_ok s (s\<lparr>sr_stopping := False, sr_reconnectJoined := True, sr_reconnect := RtFinished\<rparr>, [])"
  by (rule src_ok_silent) (auto simp: src_inv_defs src_view_def)

lemma reconnectThread_ok:
  assumes "src_inv s"
  shows "src_ok s (reconnectThread now s)"
proof (cases "sr_reconnect s = RtWaiting")
  case True
  have "src_ok s (if \<not> sr_running s \<or> sr_stopping s then (s, []) else reconnectNow now s)"
    using assms reconnectNow_ok src_ok_silent by simp
  then have "src_ok s (then_do (if \<not> sr_running s \<or> sr_stopping s then (s, []) else reconnectNow now s)
      (\<lambda>s1. (s1\<lparr>sr_stopping := False, sr_reconnectJoined := True, sr_reconnect := RtFinished\<rparr>, [])))"
    by (rule src_ok_then) (rule reconnect_ended_ok)
  with True show ?thesis by (simp add: reconnectThread_def)
qed (simp add: reconnectThread_def src_ok_silent assms)

lemma onDisconnected_ok: "src_inv s \<Longrightarrow> src_ok s (onDisconnected s)"
  unfolding src_ok_def tracked_def onDisconnected_def by (auto simp: src_inv_defs src_view_def)

lemma set_lastPacket: "src_inv (s\<lparr>sr_lastPacketNs := t\<rparr>) = src_inv s" "src_view (s\<lparr>sr_lastPacketNs := t\<rparr>) = src_view s"
  by (simp_all add: src_inv_defs src_view_def)

lemma watchdog_ok: "src_inv s \<Longrightarrow> src_ok s (watchdog now s)"
  unfolding watchdog_def Let_def
  by (auto intro!: src_ok_silent src_ok_before [OF set_lastPacket(2) onDisconnected_ok] simp: set_lastPacket)

lemma update_ok:
  assumes "src_inv s"
  shows "src_ok s (update now st s)"
proof -
  have "src_ok s (then_do (stop s) (\<lambda>s1. start now (apply_settings ip
      (if st_backend st = ZC_HW_CUDA then ZC_HW_AUTO else st_backend st) st s1)))" for ip
  proof (rule src_ok_then [OF stop_ok [OF assms]])
    let ?s = "fst (stop s)"
    let ?a = "apply_settings ip (if st_backend st = ZC_HW_CUDA then ZC_HW_AUTO else st_backend st) st ?s"
    assume inv: "src_inv ?s"
    have "\<not> sr_running ?s"
      by (auto simp: stop_def drop_cpu_def drop_decoder_def installDecoder_def drop_drawn_def drop_pending_def
          teardownConnection_def)
    with inv have "src_inv ?a" "src_view ?a = src_view ?s" by (auto simp: src_inv_defs src_view_def apply_settings_def)
    then show "src_ok ?s (start now ?a)" using src_ok_before start_ok by blast
  qed
  then show ?thesis using src_ok_silent [OF assms] by (simp add: update_def Let_def)
qed

subsection \<open>Data callbacks\<close>

lemma output_gpu_ok: "src_inv s \<Longrightarrow> src_ok s (output_gpu w h ts s)"
  unfolding src_ok_def tracked_def output_gpu_def
  by (cases "zf_avframe (sr_pending s)"; cases "zf_avframe (sr_drawn s)")
    (auto simp: src_inv_defs src_view_def owned_defs)

lemma mon_run_cpu: "\<forall>e \<in> set es. write_ok e \<Longrightarrow> mon_run src_monitor (map EvCpu es) m = Some m"
  by (induction es) auto

lemma output_software_ok:
  assumes "src_inv s"
  shows "src_ok s (output_software pf f s)"
proof -
  obtain has c es where o: "output_cpu (pf_sws_ok pf) f (sr_cpuFrame s) = ((has, c), es)" by (metis prod.exhaust)
  have "cpu_inv c \<and> (\<forall>e \<in> set es. write_ok e)"
    using output_cpu_ok [OF _ o] assms by (simp add: src_inv_defs)
  then show ?thesis
    using assms o by (auto simp: src_ok_def tracked_def output_software_def mon_run_cpu src_inv_defs src_view_def)
qed

lemma decode_and_output_ok:
  assumes "src_inv s" "sr_running s"
  shows "src_ok s (decode_and_output pf now res s)"
proof (cases "sr_decoder s")
  case None
  then show ?thesis using assms(1) by (simp add: decode_and_output_def src_ok_silent)
next
  case (Some dk)
  obtain d k where dk: "sr_decoder s = Some (d, k)" using Some by fastforce
  have inv: "sr_client s" "sr_async s \<Longrightarrow> k = ZC_HW_SOFTWARE" using assms dk by (auto simp: src_inv_defs)
  have dec: "src_ok s (s, [EvDecode d])" using assms(1) inv dk by (simp add: src_ok_def tracked_def src_view_def)
  have out: "src_ok s (s\<lparr>sr_lastWidth := w, sr_lastHeight := h\<rparr>, [EvOutput t w h])" for w h t
    using assms(1) inv(1) by (simp add: src_ok_def tracked_def src_view_def src_inv_defs)
  show ?thesis
    unfolding decode_and_output_def dk option.case prod.case
    by (rule src_ok_then [OF dec])
      (use inv assms(1) in \<open>auto split: decode_result.splits
         intro!: out output_gpu_ok output_software_ok src_ok_silent\<close>)
qed

lemma sniff_ok: "src_inv (sniff v s) = src_inv s" "src_view (sniff v s) = src_view s"
  by (simp_all add: sniff_def Let_def src_inv_defs src_view_def)

lemma depth_rebuild_ok:
  assumes "src_inv s"
  shows "src_ok s (depth_rebuild pf s)"
proof -
  have "src_ok s1 (rebuild pf False codec (s1\<lparr>sr_decoderTenBit := b\<rparr>))" if "src_inv s1" for s1 b codec
    using that by (intro src_ok_before [OF _ rebuild_ok]) (auto simp: src_inv_defs src_view_def)
  then show ?thesis
    using assms by (auto simp: depth_rebuild_def intro!: src_ok_then drop_pending_ok src_ok_silent)
qed

lemma rebuild_running: "sr_running (fst (rebuild pf sw c s)) = sr_running s"
  by (auto simp: rebuild_def Let_def installDecoder_def split: option.splits)

lemma depth_rebuild_running: "sr_running (fst (depth_rebuild pf s)) = sr_running s"
  by (simp add: depth_rebuild_def rebuild_running drop_pending_def)

lemma pass_i_frame_ok:
  "src_inv (snd (pass_i_frame v s)) = src_inv s" "src_view (snd (pass_i_frame v s)) = src_view s"
  "sr_running (snd (pass_i_frame v s)) = sr_running s"
  by (simp_all add: pass_i_frame_def src_inv_defs src_view_def)

lemma onVideoData_ok:
  assumes "src_inv s"
  shows "src_ok s (onVideoData pf now res v s)"
proof -
  obtain pass s1 where p: "pass_i_frame v (s\<lparr>sr_lastPacketNs := now\<rparr>) = (pass, s1)" by fastforce
  then have s1: "src_inv s1" "src_view s1 = src_view s" "sr_running s1 = sr_running s"
    using assms pass_i_frame_ok [of v "s\<lparr>sr_lastPacketNs := now\<rparr>"] set_lastPacket by simp_all
  have "src_ok s (then_do (depth_rebuild pf (sniff v s1)) (decode_and_output pf now res))" if "sr_running s"
  proof (rule src_ok_then)
    show "src_ok s (depth_rebuild pf (sniff v s1))"
      using s1 by (intro src_ok_before [OF _ depth_rebuild_ok]) (simp_all add: sniff_ok)
    have "sr_running (fst (depth_rebuild pf (sniff v s1)))"
      using that s1(3) by (simp add: depth_rebuild_running sniff_def Let_def)
    then show "src_ok (fst (depth_rebuild pf (sniff v s1))) (decode_and_output pf now res (fst (depth_rebuild pf (sniff v s1))))"
      if "src_inv (fst (depth_rebuild pf (sniff v s1)))"
      using decode_and_output_ok that by blast
  qed
  then show ?thesis using assms p s1 by (auto simp: onVideoData_def intro!: src_ok_silent)
qed

lemma onMeta_ok:
  assumes "src_inv s"
  shows "src_ok s (onMeta pf v s)"
proof -
  let ?s = "s\<lparr>sr_metaW := sint (vm_width v), sr_metaH := sint (vm_height v)\<rparr>"
  have inv: "src_inv ?s" and view: "src_view ?s = src_view s" using assms by (auto simp: src_inv_defs src_view_def)
  have "src_ok s1 (rebuild pf sw codec (s1\<lparr>sr_codec := codec, sr_decoderTenBit := b\<rparr>))" if "src_inv s1" for s1 sw b codec
    using that by (intro src_ok_before [OF _ rebuild_ok]) (auto simp: src_inv_defs src_view_def)
  then have "src_ok ?s (then_do (drop_pending ?s) (\<lambda>s2. rebuild pf sw codec (s2\<lparr>sr_codec := codec, sr_decoderTenBit := b\<rparr>)))"
    for sw codec b
    by (rule src_ok_then [OF drop_pending_ok [OF inv]])
  then show ?thesis
    using src_ok_before [OF view] src_ok_silent [OF inv view] by (simp add: onMeta_def Let_def)
qed

subsection \<open>Rendering\<close>

lemma draw_drawn_ok: "src_inv s \<Longrightarrow> src_ok s (draw_texture gr (zf_texture (sr_drawn s)) s)"
  unfolding src_ok_def tracked_def draw_texture_def
  by (auto simp: src_inv_defs src_view_def owned_defs split: option.splits)

lemma draw_cpu_ok: "src_inv s \<Longrightarrow> src_ok s (draw_texture gr (sr_cpuTex s) s)"
  unfolding src_ok_def tracked_def draw_texture_def
  by (auto simp: src_view_def split: option.splits)

lemma import_failed_ok: "src_inv s \<Longrightarrow> src_ok s (import_failed s)"
  unfolding src_ok_def tracked_def import_failed_def
  by (cases "zf_avframe (sr_pending s)"; cases "zf_avframe (sr_drawn s)")
    (auto simp: src_inv_defs src_view_def owned_defs)

lemma show_pending_ok: "src_inv s \<Longrightarrow> sr_hasPending s \<Longrightarrow> src_ok s (show_pending s)"
  unfolding src_ok_def tracked_def show_pending_def
  by (cases "zf_avframe (sr_pending s)"; cases "zf_avframe (sr_drawn s)"; cases "zf_texture (sr_drawn s)"; cases "sr_cpuTex s")
    (auto simp: src_inv_defs src_view_def owned_defs)

lemma cpu_texture_ok: "src_inv s \<Longrightarrow> src_ok s (cpu_texture gr s)"
  unfolding src_ok_def tracked_def cpu_texture_def Let_def
  by (cases "zf_texture (sr_drawn s)"; cases "sr_cpuTex s")
    (auto simp: src_inv_defs src_view_def owned_defs)

lemma set_hasCpuFrame: "src_inv (s\<lparr>sr_hasCpuFrame := b\<rparr>) = src_inv s" "src_view (s\<lparr>sr_hasCpuFrame := b\<rparr>) = src_view s"
  by (simp_all add: src_inv_defs src_view_def)

lemma supersede_drawn_ok: "src_inv s \<Longrightarrow> src_ok s (supersede_drawn s)"
  by (simp add: supersede_drawn_def drop_drawn_ok src_ok_silent)

lemma show_cpu_ok: "src_inv s \<Longrightarrow> src_ok s (show_cpu gr s)"
  unfolding show_cpu_def Let_def
  by (auto simp: set_hasCpuFrame intro!: src_ok_silent src_ok_then cpu_texture_ok draw_cpu_ok
      src_ok_before [OF set_hasCpuFrame(2) supersede_drawn_ok])

lemma videoRender_ok: "src_inv s \<Longrightarrow> src_ok s (videoRender pf gr now s)"
  unfolding videoRender_def
  by (rule src_ok_then [OF watchdog_ok])
    (auto intro!: src_ok_then show_pending_ok import_failed_ok rebuild_ok draw_drawn_ok show_cpu_ok)

subsection \<open>The source is monitored\<close>

lemma src_step_ok: "src_inv s \<Longrightarrow> src_ok s (src_step i s)"
  by (cases i) (auto simp: activate_def intro: update_ok start_ok onVideoData_ok onMeta_ok onDisconnected_ok
      reconnectThread_ok videoRender_ok src_ok_silent)

interpretation src: monitored src_step src_inv src_monitor src_view
  by unfold_locales (use src_step_ok in \<open>simp_all add: src_ok_def\<close>)

definition nothing_held :: src_mon where
  "nothing_held = \<lparr>mo_decoders = {}, mo_frames = {}, mo_textures = {}, mo_connected = False\<rparr>"

lemma src_inv_new: "src_inv (source_new name async)"
  by (simp add: src_inv_defs source_new_def frame_none_def cpu_inv_init)

lemma src_view_new: "src_view (source_new name async) = nothing_held"
  by (simp add: src_view_def source_new_def owned_defs nothing_held_def)

text \<open>
  C2. Ownership in the source: for every sequence of settings changes, activations, access
  units, metadata, disconnects, reconnects and renders, whatever decoders, surfaces and textures
  the platform grants or refuses, no decoder is called and no texture drawn outside its life
  time, nothing is freed twice or leaked, at most one connection is open at a time, no access
  unit is decoded without one, and no CPU buffer is overrun; what is alive at the end is exactly
  what the source still holds.
\<close>

theorem source_ownership:
  "mon_run src_monitor (snd (run_trace src_step is (source_new name async))) nothing_held
     = Some (src_view (fst (run_trace src_step is (source_new name async))))"
  using src.run_accepted [OF src_inv_new, of "is" name async] by (simp add: src_view_new)

lemma stop_idle:
  assumes "src_inv s"
  shows "src_view (fst (stop s)) = \<lparr>mo_decoders = {}, mo_frames = {}, mo_textures = set_option (sr_cpuTex s), mo_connected = False\<rparr>"
    "sr_running (fst (stop s)) = False" "sr_reconnect (fst (stop s)) = RtNone"
    "sr_cpuTex (fst (stop s)) = sr_cpuTex s"
proof -
  have p: "\<not> sr_hasPending s \<Longrightarrow> zf_avframe (sr_pending s) = None" "zf_texture (sr_pending s) = None"
    using assms by (auto simp: src_inv_defs)
  show "src_view (fst (stop s)) = \<lparr>mo_decoders = {}, mo_frames = {}, mo_textures = set_option (sr_cpuTex s), mo_connected = False\<rparr>"
    "sr_running (fst (stop s)) = False" "sr_reconnect (fst (stop s)) = RtNone" "sr_cpuTex (fst (stop s)) = sr_cpuTex s"
    using p
    by (cases "sr_reconnect s"; auto simp: stop_def src_view_def drop_cpu_def drop_decoder_def installDecoder_def drop_drawn_def
        drop_pending_def teardownConnection_def joinReconnect_def owned_defs)+
qed


end
