(* ===== verification/Source_Behaviour.thy ===== *)
theory Source_Behaviour
  imports Source_Ownership
begin

text \<open>
  What the OBS source does on its branches: settings changes, the wait for an I-frame, the
  software latch, the stall watchdog with the reconnect it starts, and the picture between two CPU frames.
\<close>

subsection \<open>Settings\<close>

lemma stop_settings:
  "sr_name (fst (stop s)) = sr_name s" "sr_async (fst (stop s)) = sr_async s"
  by (cases "sr_reconnect s"; simp add: stop_def drop_cpu_def drop_decoder_def installDecoder_def drop_drawn_def
      drop_pending_def teardownConnection_def joinReconnect_def)+

lemma start_settings:
  "sr_name (fst (start now s)) = sr_name s"
  "sr_ip (fst (start now s)) = (if sr_ip s = [] then ipFromSourceName (sr_name s) else sr_ip s)"
  "sr_requested (fst (start now s)) = sr_requested s" "sr_bitrate (fst (start now s)) = sr_bitrate s"
  "sr_syncMode (fst (start now s)) = sr_syncMode s" "sr_waitIFrame (fst (start now s)) = sr_waitIFrame s"
  "sr_lowNoise (fst (start now s)) = sr_lowNoise s"
  by (simp_all add: start_def Let_def connect_now_def installDecoder_def)

text \<open>
  Applying the same settings twice is the same as applying them once: the second update
  neither restarts the stream nor changes anything else, also when the address comes from the
  name of the source and when an old profile asks for the withdrawn CUDA backend.
\<close>

theorem source_update_idempotent:
  "update later st (fst (update now st s)) = (fst (update now st s), [])"
  by (auto simp: update_def Let_def start_settings stop_settings apply_settings_def)

subsection \<open>Waiting for an I-frame\<close>

definition waits :: "source \<Rightarrow> bool" where
  "waits s \<longleftrightarrow> sr_waitIFrame s \<and> \<not> sr_iFrameShown s"

definition gated :: "source \<times> src_event list \<Rightarrow> bool" where
  "gated r \<longleftrightarrow> waits (fst r) \<and> (\<forall>d. EvDecode d \<notin> set (snd r))"

lemma gated_then: "gated r \<Longrightarrow> (\<And>s. waits s \<Longrightarrow> gated (f s)) \<Longrightarrow> gated (then_do r f)"
  by (auto simp: gated_def)

fun holds_back :: "src_input \<Rightarrow> bool" where
  "holds_back (SrcUpdate now st) = False"
| "holds_back (SrcVideo pf now res v) = (v_type v \<noteq> 5)"
| "holds_back _ = True"

lemma release_gated: "EvDecode d \<notin> set (release_frame_direct f)"
  by (auto simp: release_frame_direct_def)

lemma gated_basic:
  "waits s \<Longrightarrow> gated (drop_pending s)" "waits s \<Longrightarrow> gated (drop_drawn s)"
  "waits s \<Longrightarrow> gated (installDecoder d s)" "waits s \<Longrightarrow> gated (teardownConnection s)"
  "waits s \<Longrightarrow> gated (onDisconnected s)" "waits s \<Longrightarrow> gated (import_failed s)" "waits s \<Longrightarrow> gated (show_pending s)"
  "waits s \<Longrightarrow> gated (cpu_texture gr s)" "waits s \<Longrightarrow> gated (draw_texture gr t s)" "waits s \<Longrightarrow> gated (connect_now now s)"
  by (auto simp: gated_def waits_def drop_pending_def drop_drawn_def installDecoder_def teardownConnection_def
      onDisconnected_def import_failed_def show_pending_def cpu_texture_def draw_texture_def connect_now_def Let_def
      release_gated split: option.splits if_splits)

lemma gated_silent: "waits s \<Longrightarrow> gated (s, [])"
  by (simp add: gated_def)

lemma gated_rebuild: "waits s \<Longrightarrow> gated (rebuild pf sw c s)"
  unfolding rebuild_def Let_def
  by (auto split: option.splits intro!: gated_basic gated_then) (auto simp: gated_def waits_def)

lemma gated_start: "waits s \<Longrightarrow> gated (start now s)"
  unfolding start_def Let_def
  by (auto simp: waits_def intro!: gated_silent gated_then gated_basic)

lemma gated_reconnect:
  assumes "waits s"
  shows "gated (reconnectThread now s)"
proof -
  have "gated (reconnectNow now s)"
    unfolding reconnectNow_def using assms
    by (auto intro!: gated_then gated_basic gated_silent gated_start)
  then have "gated (if \<not> sr_running s \<or> sr_stopping s then (s, []) else reconnectNow now s)"
    using assms gated_silent by simp
  then have "gated (then_do (if \<not> sr_running s \<or> sr_stopping s then (s, []) else reconnectNow now s)
      (\<lambda>s1. (s1\<lparr>sr_stopping := False, sr_reconnectJoined := True, sr_reconnect := RtFinished\<rparr>, [])))"
    by (rule gated_then) (simp add: gated_def waits_def)
  with assms show ?thesis by (simp add: reconnectThread_def gated_silent)
qed

lemma gated_supersede: "waits s \<Longrightarrow> gated (supersede_drawn s)"
  by (simp add: supersede_drawn_def gated_silent gated_basic)

lemma gated_render: "waits s \<Longrightarrow> gated (videoRender pf gr now s)"
proof -
  assume w: "waits s"
  have wd: "gated (watchdog now s)"
    using w gated_basic(5) [of "s\<lparr>sr_lastPacketNs := now\<rparr>"] by (simp add: watchdog_def Let_def gated_silent waits_def)
  have cpu: "gated (show_cpu gr t)" if "waits t" for t
    unfolding show_cpu_def Let_def using that
    by (auto simp: waits_def intro!: gated_silent gated_then gated_basic gated_supersede)
  show ?thesis
    unfolding videoRender_def
    by (rule gated_then [OF wd]) (auto intro!: gated_then gated_basic gated_rebuild cpu)
qed

lemma gated_meta: "waits s \<Longrightarrow> gated (onMeta pf v s)"
  unfolding onMeta_def Let_def
  by (auto simp: waits_def intro!: gated_silent gated_then gated_basic gated_rebuild)

lemma gated_video: "waits s \<Longrightarrow> v_type v \<noteq> 5 \<Longrightarrow> gated (onVideoData pf now res v s)"
  by (auto simp: onVideoData_def pass_i_frame_def gated_def waits_def)

lemma gated_step: "waits s \<Longrightarrow> holds_back i \<Longrightarrow> gated (src_step i s)"
  by (cases i) (simp_all add: activate_def gated_start gated_meta gated_reconnect gated_render gated_basic gated_video
      gated_silent)

lemma gated_run:
  assumes "waits s" "\<forall>i \<in> set is. holds_back i"
  shows "gated (run_trace src_step is s)"
  using assms
proof (induction "is" arbitrary: s)
  case (Cons i "is")
  from gated_step [OF Cons.prems(1)] Cons.prems(2) have g: "gated (src_step i s)" by simp
  then have "waits (fst (src_step i s))" by (simp add: gated_def)
  with Cons have "gated (run_trace src_step is (fst (src_step i s)))" by simp
  with g show ?case by (simp add: run_trace_Cons_eq gated_def del: run_trace.simps)
qed (simp add: gated_silent)

text \<open>
  With "wait for I-frame" set, nothing is decoded before the first I-frame of a connection:
  from a state that has not seen one, no run without an I-frame and without a settings change reaches the
  decoder, whatever reconnects, metadata and renders it contains.
\<close>

theorem source_waits_for_i_frame:
  assumes "sr_waitIFrame s" and "\<not> sr_iFrameShown s" and "\<forall>i \<in> set is. holds_back i"
  shows "EvDecode d \<notin> set (snd (run_trace src_step is s))"
  using gated_run [of s "is"] assms by (simp add: gated_def waits_def)

definition plain_platform :: platform where
  "plain_platform = \<lparr>pf_detect = (\<lambda>k c. ZC_HW_SOFTWARE), pf_hw_ok = (\<lambda>k. False), pf_sw_ok = True, pf_sws_ok = (\<lambda>f w h. True)\<rparr>"

theorem source_waits_for_i_frame_witness:
  "EvDecode 0 \<notin> set (snd (run_trace src_step
     [SrcReconnect 7, SrcVideo plain_platform 9 DecNothing \<lparr>v_pts = 1, v_ntp = 2, v_frm_no = 3, v_type = 1, v_data = [9, 8]\<rparr>]
     (fst (update 5 (zc_source_getdefaults\<lparr>st_ip := ''10.0.0.2'', st_waitIFrame := True\<rparr>) (source_new ''cam'' False)))))"
  by (rule source_waits_for_i_frame)
    (simp_all add: update_def Let_def start_def connect_now_def installDecoder_def apply_settings_def
      zc_source_getdefaults_def source_new_def stop_def drop_cpu_def drop_decoder_def drop_drawn_def
      drop_pending_def teardownConnection_def joinReconnect_def)

subsection \<open>The software latch\<close>

definition latch :: "source \<Rightarrow> bool" where
  "latch s \<longleftrightarrow> (\<forall>d k. sr_forceSoftware s \<and> sr_decoder s = Some (d, k) \<longrightarrow> k = ZC_HW_SOFTWARE \<and> sr_backend s = ZC_HW_SOFTWARE)"

definition same_latch :: "source \<Rightarrow> source \<Rightarrow> bool" where
  "same_latch s s1 \<longleftrightarrow> sr_forceSoftware s1 = sr_forceSoftware s \<and> sr_decoder s1 = sr_decoder s \<and> sr_backend s1 = sr_backend s"

lemma latch_same: "same_latch s s1 \<Longrightarrow> latch s \<Longrightarrow> latch s1"
  by (simp add: latch_def same_latch_def)

lemma latch_open: "\<not> sr_forceSoftware s \<or> sr_decoder s = None \<Longrightarrow> latch s"
  by (auto simp: latch_def)

lemma same_latch_basic:
  "same_latch s (fst (drop_pending s))" "same_latch s (fst (drop_drawn s))" "same_latch s (fst (teardownConnection s))"
  "same_latch s (fst (onDisconnected s))" "same_latch s (fst (show_pending s))" "same_latch s (fst (cpu_texture gr s))"
  "same_latch s (fst (draw_texture gr t s))" "same_latch s (fst (output_gpu w h ts s))"
  by (simp_all add: same_latch_def drop_pending_def drop_drawn_def teardownConnection_def onDisconnected_def
      show_pending_def cpu_texture_def draw_texture_def output_gpu_def Let_def)

lemma latch_rebuild:
  assumes "software \<or> \<not> sr_forceSoftware s"
  shows "latch (fst (rebuild pf software codec s))"
  using assms resolve_software [of software s pf codec]
  by (auto simp: rebuild_def Let_def latch_def installDecoder_def split: option.splits dest: create_software)

lemma latch_start: "latch s \<Longrightarrow> latch (fst (start now s))"
  by (auto simp: start_def Let_def latch_def connect_now_def installDecoder_def)

lemma latch_reconnect: "latch s \<Longrightarrow> latch (fst (reconnectThread now s))"
proof -
  assume l: "latch s"
  have "latch (fst (reconnectNow now s))"
    using latch_start [of "fst (drop_pending (fst (teardownConnection s)))" now] l
      latch_same [OF same_latch_basic(3) l] latch_same [OF same_latch_basic(1)]
    by (auto simp: reconnectNow_def)
  with l show ?thesis by (simp add: reconnectThread_def latch_def)
qed

lemma latch_update:
  assumes "latch s"
  shows "latch (fst (update now st s))"
proof -
  have "\<not> sr_forceSoftware (apply_settings ip b st (fst (stop s)))" for ip b
    by (simp add: apply_settings_def stop_def drop_cpu_def drop_decoder_def installDecoder_def)
  then have "latch (fst (start now (apply_settings ip b st (fst (stop s)))))" for ip b
    by (intro latch_start latch_open) simp
  with assms show ?thesis by (simp add: update_def Let_def)
qed

lemma latch_decode: "latch s \<Longrightarrow> latch (fst (decode_and_output pf now res s))"
  by (auto simp: decode_and_output_def output_software_def latch_def output_gpu_def
      split: option.splits decode_result.splits prod.splits)

lemma latch_video:
  assumes "latch s"
  shows "latch (fst (onVideoData pf now res v s))"
proof -
  obtain pass s1 where p: "pass_i_frame v (s\<lparr>sr_lastPacketNs := now\<rparr>) = (pass, s1)" by fastforce
  have s1: "s1 = snd (pass_i_frame v (s\<lparr>sr_lastPacketNs := now\<rparr>))" using p by simp
  have l1: "latch s1" using assms by (simp add: s1 pass_i_frame_def latch_def)
  then have l2: "latch (sniff v s1)" by (simp add: sniff_def Let_def latch_def)
  have "latch (fst (depth_rebuild pf t))" if "latch t" for t
  proof -
    have "latch (fst (rebuild pf False c (fst (drop_pending t)\<lparr>sr_decoderTenBit := b\<rparr>)))"
      if "\<not> sr_forceSoftware t" for b c
      using that by (intro latch_rebuild) (simp add: drop_pending_def)
    with that show ?thesis by (auto simp: depth_rebuild_def latch_def)
  qed
  with l1 l2 p assms latch_decode show ?thesis by (simp add: onVideoData_def)
qed

lemma latch_meta: "latch s \<Longrightarrow> latch (fst (onMeta pf v s))"
  by (auto simp: onMeta_def Let_def drop_pending_def latch_def [of "s\<lparr>sr_metaW := _, sr_metaH := _\<rparr>"] intro!: latch_rebuild)
    (auto simp: latch_def)

lemma latch_render:
  assumes "latch s"
  shows "latch (fst (videoRender pf gr now s))"
proof -
  have wd: "latch (fst (watchdog now s))"
    using assms by (simp add: watchdog_def Let_def onDisconnected_def latch_def)
  have cpu: "latch (fst (show_cpu gr t))" if "latch t" for t
    using that by (simp add: show_cpu_def Let_def cpu_texture_def supersede_drawn_def drop_drawn_def draw_texture_def latch_def)
  have imp: "latch (fst (import_failed t))" if "latch t" "sr_forceSoftware t" for t
    using that by (simp add: import_failed_def latch_def)
  have pend: "latch (fst (show_pending t))" if "latch t" for t
    using that by (simp add: show_pending_def latch_def)
  have drw: "latch (fst (draw_texture gr x t))" if "latch t" for t x
    using that by (simp add: draw_texture_def)
  show ?thesis
    using wd by (auto simp: videoRender_def intro!: cpu imp pend drw latch_rebuild)
qed

lemma latch_disconnected: "latch s \<Longrightarrow> latch (fst (onDisconnected s))"
  by (rule latch_same [OF same_latch_basic(4)])

interpretation src_latch: trace_system src_step latch
proof
  show "latch (fst (src_step i s))" if "latch s" for i s
    using that by (cases i) (auto simp: activate_def intro: latch_update latch_start latch_video latch_meta
        latch_reconnect latch_render latch_disconnected)
qed

lemma rebuild_force: "sr_forceSoftware (fst (rebuild pf sw c s)) = sr_forceSoftware s"
  by (auto simp: rebuild_def Let_def installDecoder_def split: option.splits)

lemma show_cpu_force: "sr_forceSoftware (fst (show_cpu gr s)) = sr_forceSoftware s"
  by (simp add: show_cpu_def Let_def cpu_texture_def supersede_drawn_def drop_drawn_def draw_texture_def)

lemma videoRender_force: "sr_forceSoftware s \<Longrightarrow> sr_forceSoftware (fst (videoRender pf gr now s))"
  by (auto simp: videoRender_def watchdog_def Let_def onDisconnected_def show_pending_def draw_texture_def
      import_failed_def rebuild_force show_cpu_force)

lemma onVideoData_force: "sr_forceSoftware s \<Longrightarrow> sr_forceSoftware (fst (onVideoData pf now res v s))"
proof -
  assume f: "sr_forceSoftware s"
  have d: "sr_forceSoftware (fst (decode_and_output pf now res t)) = sr_forceSoftware t" for t
    by (auto simp: decode_and_output_def output_software_def output_gpu_def split: option.splits decode_result.splits prod.splits)
  have "sr_forceSoftware (fst (depth_rebuild pf t)) = sr_forceSoftware t" for t
    by (simp add: depth_rebuild_def rebuild_force drop_pending_def)
  then show ?thesis
    using f d by (simp add: onVideoData_def pass_i_frame_def sniff_def Let_def split_beta)
qed

lemma onMeta_force: "sr_forceSoftware (fst (onMeta pf v s)) = sr_forceSoftware s"
  by (simp add: onMeta_def Let_def rebuild_force drop_pending_def)

lemma stop_disconnects: "sr_client s \<Longrightarrow> EvDisconnect \<in> set (snd (stop s))"
  by (simp add: stop_def teardownConnection_def)

lemma reconnect_force:
  assumes "sr_forceSoftware s" "sr_client s"
  shows "sr_forceSoftware (fst (reconnectThread now s)) \<or> EvDisconnect \<in> set (snd (reconnectThread now s))"
  using assms by (simp add: reconnectThread_def reconnectNow_def teardownConnection_def)

lemma watchdog_slots:
  "sr_hasPending (fst (watchdog now s)) = sr_hasPending s" "sr_pending (fst (watchdog now s)) = sr_pending s"
  "sr_drawn (fst (watchdog now s)) = sr_drawn s" "sr_hasCpuFrame (fst (watchdog now s)) = sr_hasCpuFrame s"
  "sr_cpuFrame (fst (watchdog now s)) = sr_cpuFrame s" "sr_cpuTex (fst (watchdog now s)) = sr_cpuTex s"
  by (simp_all add: watchdog_def Let_def onDisconnected_def)

lemma failed_import_latches:
  assumes "src_inv s" "sr_hasPending s" "\<not> gr_import gr"
  shows "sr_forceSoftware (fst (videoRender pf gr now s))"
proof -
  have "zf_avframe (sr_pending s) \<noteq> None" using assms(1,2) by (simp add: src_inv_defs)
  with assms(2,3) show ?thesis
    by (simp add: videoRender_def watchdog_slots import_failed_def rebuild_force draw_texture_def)
qed

lemma latch_until_disconnect:
  assumes "sr_forceSoftware s" "sr_running s" "sr_client s"
  shows "sr_forceSoftware (fst (src_step i s)) \<or> EvDisconnect \<in> set (snd (src_step i s))"
  using assms reconnect_force [of s] stop_disconnects [of s]
  by (cases i) (simp_all add: activate_def update_def Let_def onVideoData_force onMeta_force onDisconnected_def
      videoRender_force)


definition gpu_platform :: platform where
  "gpu_platform = \<lparr>pf_detect = (\<lambda>k c. ZC_HW_D3D11VA), pf_hw_ok = (\<lambda>k. True), pf_sw_ok = True, pf_sws_ok = (\<lambda>f w h. True)\<rparr>"

definition gpu_inputs :: "src_input list" where
  "gpu_inputs =
     [SrcUpdate 5 (zc_source_getdefaults\<lparr>st_ip := ''10.0.0.2''\<rparr>),
      SrcMeta gpu_platform \<lparr>vm_width = 4, vm_height = 2, vm_timescale = 1, vm_unit = 1, vm_gop = 1, vm_encoder = 96\<rparr>,
      SrcVideo gpu_platform 9 (DecHw 4 2 1) \<lparr>v_pts = 1, v_ntp = 2, v_frm_no = 3, v_type = 5, v_data = []\<rparr>]"

lemmas source_eval = update_def Let_def start_def connect_now_def installDecoder_def apply_settings_def
  zc_source_getdefaults_def source_new_def stop_def drop_cpu_def drop_decoder_def drop_drawn_def drop_pending_def
  teardownConnection_def joinReconnect_def onMeta_def needs_rebuild_def codec_of_def rebuild_def resolve_for_def
  zc_hw_resolve_def zc_hw_decoder_create_def default_build_def onVideoData_def pass_i_frame_def sniff_def
  zc_nal_bit_depth_def depth_rebuild_def decode_and_output_def output_gpu_def then_do_def

lemma gpu_pending: "sr_hasPending (fst (run_trace src_step gpu_inputs (source_new ''cam'' False)))"
  by (simp add: gpu_inputs_def gpu_platform_def source_eval)


subsection \<open>The stall watchdog\<close>

definition silent_since :: "source \<Rightarrow> u64" where
  "silent_since s = (if sr_lastPacketNs s \<noteq> 0 then sr_lastPacketNs s else sr_startedNs s)"

definition never_stopping :: "source \<Rightarrow> bool" where
  "never_stopping s \<longleftrightarrow> (sr_running s \<longrightarrow> \<not> sr_stopping s)"

lemma watchdog_iff:
  assumes "sr_running s" "sr_reconnectJoined s" "silent_since s \<noteq> 0"
  shows "snd (watchdog now s) = (if (now - silent_since s) div 1000000 < 10000 then [] else [EvReconnectIn 3000])"
  using assms by (simp add: watchdog_def Let_def silent_since_def onDisconnected_def ZC_STALL_TIMEOUT_MS_def)

lemma reconnect_rebuilds:
  assumes "sr_reconnect s = RtWaiting" "sr_running s" "\<not> sr_stopping s" "sr_client s" "sr_ip s \<noteq> []"
  shows "EvDisconnect \<in> set (snd (reconnectThread now s))" "EvConnect (sr_ip s) \<in> set (snd (reconnectThread now s))"
    "sr_running (fst (reconnectThread now s))" "sr_startedNs (fst (reconnectThread now s)) = now"
    "sr_reconnectJoined (fst (reconnectThread now s))"
  using assms
  by (simp_all add: reconnectThread_def reconnectNow_def teardownConnection_def start_def Let_def connect_now_def
      drop_pending_def installDecoder_def)

definition same_conn :: "source \<Rightarrow> source \<Rightarrow> bool" where
  "same_conn s s1 \<longleftrightarrow> sr_reconnect s1 = sr_reconnect s \<and> sr_running s1 = sr_running s \<and> sr_stopping s1 = sr_stopping s
     \<and> sr_client s1 = sr_client s \<and> sr_ip s1 = sr_ip s"

lemma same_conn_rebuild: "same_conn s (fst (rebuild pf sw c s))"
  by (auto simp: same_conn_def rebuild_def Let_def installDecoder_def split: option.splits)

lemma same_conn_show_cpu: "same_conn s (fst (show_cpu gr s))"
  by (simp add: same_conn_def show_cpu_def Let_def cpu_texture_def supersede_drawn_def drop_drawn_def draw_texture_def)

lemma same_conn_trans: "same_conn s s1 \<Longrightarrow> same_conn s1 s2 \<Longrightarrow> same_conn s s2"
  by (simp add: same_conn_def)

lemma same_conn_import: "same_conn s (fst (import_failed s))"
  by (simp add: same_conn_def import_failed_def)

lemma videoRender_conn: "same_conn (fst (watchdog now s)) (fst (videoRender pf gr now s))"
  using same_conn_trans [OF same_conn_import same_conn_rebuild]
  by (auto simp: videoRender_def same_conn_show_cpu)
    (simp_all add: same_conn_def show_pending_def draw_texture_def import_failed_def)

lemma never_stopping_start: "never_stopping s \<Longrightarrow> never_stopping (fst (start now s))"
  by (auto simp: never_stopping_def start_def Let_def connect_now_def installDecoder_def)

lemma never_stopping_same: "same_conn s s1 \<Longrightarrow> never_stopping s \<Longrightarrow> never_stopping s1"
  by (simp add: never_stopping_def same_conn_def)

lemma same_conn_video: "same_conn s (fst (onVideoData pf now res v s))"
proof -
  have d: "same_conn t (fst (decode_and_output pf now res t))" for t
    by (auto simp: same_conn_def decode_and_output_def output_software_def output_gpu_def
        split: option.splits decode_result.splits prod.splits)
  have r: "same_conn t (fst (depth_rebuild pf t))" for t
    using same_conn_rebuild [of "(fst (drop_pending t))\<lparr>sr_decoderTenBit := sr_streamTenBit (fst (drop_pending t))\<rparr>" pf False]
    by (auto simp: depth_rebuild_def same_conn_def drop_pending_def)
  have "same_conn s (sniff v (snd (pass_i_frame v (s\<lparr>sr_lastPacketNs := now\<rparr>))))"
    by (simp add: same_conn_def sniff_def pass_i_frame_def Let_def)
  from same_conn_trans [OF this same_conn_trans [OF r d]] show ?thesis
    by (simp add: onVideoData_def split_beta) (simp add: same_conn_def pass_i_frame_def)
qed

lemma same_conn_meta: "same_conn s (fst (onMeta pf v s))"
  using same_conn_rebuild
  by (auto simp: onMeta_def Let_def drop_pending_def same_conn_def)

interpretation src_stopping: trace_system src_step never_stopping
proof
  have wd: "never_stopping (fst (watchdog now s))" if "never_stopping s" for now s
    using that by (simp add: never_stopping_def watchdog_def Let_def onDisconnected_def)
  have upd: "never_stopping (fst (update now st s))" if "never_stopping s" for now st s
  proof -
    have "never_stopping (apply_settings ip b st (fst (stop s)))" for ip b
      by (simp add: never_stopping_def apply_settings_def stop_def drop_cpu_def drop_decoder_def installDecoder_def
          drop_drawn_def drop_pending_def teardownConnection_def)
    with that never_stopping_start show ?thesis by (simp add: update_def Let_def)
  qed
  show "never_stopping (fst (src_step i s))" if n: "never_stopping s" for i s
  proof (cases i)
    case (SrcReconnect now)
    with n show ?thesis by (simp add: reconnectThread_def never_stopping_def)
  next
    case (SrcRender pf gr now)
    with never_stopping_same [OF videoRender_conn wd [OF n]] show ?thesis by simp
  next
    case (SrcVideo pf now res v)
    with never_stopping_same [OF same_conn_video n] show ?thesis by simp
  next
    case (SrcMeta pf v)
    with never_stopping_same [OF same_conn_meta n] show ?thesis by simp
  qed (use n upd never_stopping_start in \<open>simp_all add: activate_def onDisconnected_def never_stopping_def\<close>)
qed



subsection \<open>The picture between two CPU frames\<close>

text \<open>A CPU picture that is drawn empties every slot a later render could draw from.\<close>

lemma supersede_drawn_empties:
  "(zf_texture (sr_drawn s) \<noteq> None \<longrightarrow> zf_owns_texture (sr_drawn s)) \<Longrightarrow> zf_texture (sr_drawn (fst (supersede_drawn s))) = None"
  by (cases "zf_texture (sr_drawn s)") (auto simp: supersede_drawn_def drop_drawn_def owned_defs)

lemma supersede_drawn_slots:
  "sr_hasPending (fst (supersede_drawn s)) = sr_hasPending s" "sr_hasCpuFrame (fst (supersede_drawn s)) = sr_hasCpuFrame s"
  by (simp_all add: supersede_drawn_def drop_drawn_def)

lemma cpu_texture_slots:
  "sr_hasPending (fst (cpu_texture gr s)) = sr_hasPending s" "sr_drawn (fst (cpu_texture gr s)) = sr_drawn s"
  "EvDraw t \<notin> set (snd (cpu_texture gr s))"
  by (auto simp: cpu_texture_def Let_def split: option.splits)

lemma show_cpu_empties:
  assumes "EvDraw t \<in> set (snd (show_cpu gr s))" "\<not> sr_hasPending s"
    "zf_texture (sr_drawn s) \<noteq> None \<longrightarrow> zf_owns_texture (sr_drawn s)"
  shows "\<not> sr_hasPending (fst (show_cpu gr s)) \<and> \<not> sr_hasCpuFrame (fst (show_cpu gr s))
    \<and> zf_texture (sr_drawn (fst (show_cpu gr s))) = None"
  using assms
  by (auto simp: show_cpu_def Let_def draw_texture_def cpu_texture_slots supersede_drawn_slots supersede_drawn_empties
      split: if_splits)

text \<open>
  A CPU picture is drawn once: after a render that showed a software frame, a render without
  a new frame draws nothing at all, for every reachable state. The comment in \<^verbatim>\<open>videoRender\<close> promises
  that the last decoded picture stays on screen; that holds for GPU pictures only.
\<close>

theorem source_cpu_picture_blanks:
  fixes inputs :: "src_input list" and name :: string and async :: bool
  defines "s \<equiv> fst (run_trace src_step inputs (source_new name async))"
  assumes "\<not> sr_hasPending s" and "sr_hasCpuFrame s" and "EvDraw t \<in> set (snd (videoRender pf gr now s))"
  shows "EvDraw t' \<notin> set (snd (videoRender pf' gr' later (fst (videoRender pf gr now s))))"
proof -
  let ?w = "fst (watchdog now s)"
  have nodraw: "EvDraw x \<notin> set (snd (watchdog n u))" for x n u
    by (simp add: watchdog_def Let_def onDisconnected_def)
  have r: "videoRender pf gr now s = then_do (watchdog now s) (show_cpu gr)"
    using assms(2,3) by (simp add: videoRender_def then_do_def watchdog_slots split_beta)
  have drawn: "EvDraw t \<in> set (snd (show_cpu gr ?w))" using assms(4) nodraw r by simp
  have "src_inv s" unfolding s_def by (rule src.run_inv) (rule src_inv_new)
  then have "zf_texture (sr_drawn ?w) \<noteq> None \<longrightarrow> zf_owns_texture (sr_drawn ?w)"
    by (simp add: src_inv_defs watchdog_slots)
  from show_cpu_empties [OF drawn _ this]
  have "\<not> sr_hasPending (fst (show_cpu gr ?w))" "\<not> sr_hasCpuFrame (fst (show_cpu gr ?w))"
      "zf_texture (sr_drawn (fst (show_cpu gr ?w))) = None"
    using assms(2) by (simp_all add: watchdog_slots)
  then show ?thesis
    using nodraw by (simp add: r videoRender_def [of pf'] watchdog_slots draw_texture_def)
qed

definition cpu_inputs :: "src_input list" where
  "cpu_inputs =
     [SrcUpdate 5 (zc_source_getdefaults\<lparr>st_ip := ''10.0.0.2''\<rparr>),
      SrcMeta plain_platform \<lparr>vm_width = 4, vm_height = 2, vm_timescale = 1, vm_unit = 1, vm_gop = 1, vm_encoder = 96\<rparr>,
      SrcVideo plain_platform 9 (DecCpu \<lparr>of_format = VIDEO_FORMAT_NV12, of_width = 4, of_height = 2, of_full_range = False,
         of_data0 = True, of_linesize = (\<lambda>i. 8)\<rparr> 1) \<lparr>v_pts = 1, v_ntp = 2, v_frm_no = 3, v_type = 5, v_data = []\<rparr>]"

lemmas cpu_eval = cpu_inputs_def plain_platform_def source_eval output_software_def output_cpu_def cpu_init_def cpu_clear_def
  alloc_rgba_def setup_sws_def split_beta

definition all_ok :: graphics where
  "all_ok = \<lparr>gr_import = True, gr_texture = True, gr_effect = True\<rparr>"

lemma cpu_run:
  "\<not> sr_hasPending (fst (run_trace src_step cpu_inputs (source_new ''cam'' False)))"
  "sr_hasCpuFrame (fst (run_trace src_step cpu_inputs (source_new ''cam'' False)))"
  "EvDraw 0 \<in> set (snd (videoRender plain_platform all_ok 10 (fst (run_trace src_step cpu_inputs (source_new ''cam'' False)))))"
  by (simp_all add: cpu_eval videoRender_def watchdog_def onDisconnected_def ZC_STALL_TIMEOUT_MS_def show_cpu_def
      cpu_texture_def supersede_drawn_def draw_texture_def all_ok_def frame_none_def)

theorem source_cpu_picture_blanks_witness:
  "EvDraw 0 \<notin> set (snd (videoRender plain_platform all_ok 11 (fst (videoRender plain_platform all_ok 10
     (fst (run_trace src_step cpu_inputs (source_new ''cam'' False)))))))"
  by (rule source_cpu_picture_blanks [OF cpu_run])

end
