(* ===== verification/Source_Threads.thy ===== *)
theory Source_Threads
  imports Ssp_Source
begin

text \<open>
  \<^verbatim>\<open>stop\<close>, the reconnect thread and the receive thread of \<^verbatim>\<open>ZcSspSource\<close>, interleaved. The other theories
  treat the methods of the source as atomic; here \<^verbatim>\<open>stop\<close> and \<^verbatim>\<open>reconnectThread\<close> are cut at the points
  where they release their mutexes, and a disconnect can be reported by the receive thread of the
  current client at any time. Each step holds the mutex its source lines hold
  (\<^verbatim>\<open>lifecycleMutex_\<close> in a teardown and in \<^verbatim>\<open>start\<close>, \<^verbatim>\<open>cvMutex_\<close> around \<^verbatim>\<open>stopping_\<close>); a teardown
  joins the receive thread, so a disconnect in progress finishes before it.
\<close>

datatype reconnect_pc = REntry | RWait | RCheck | RTeardown | RCheckStop | RStart | REnd | RExited

datatype stopper_pc = SIdle | STeardown1 | SJoin | STeardown2 | SDone

record lifecycle =
  lc_running :: bool
  lc_stopping :: bool
  lc_client :: bool
  lc_joined :: bool
  lc_thread :: "reconnect_pc option"
  lc_stop :: stopper_pc

definition lc_connected :: lifecycle where
  "lc_connected = \<lparr>lc_running = True, lc_stopping = False, lc_client = True, lc_joined = True, lc_thread = None,
     lc_stop = SIdle\<rparr>"

definition lc_teardown :: "lifecycle \<Rightarrow> lifecycle" where
  "lc_teardown c = c\<lparr>lc_running := False, lc_client := False\<rparr>"

definition lc_start :: "lifecycle \<Rightarrow> lifecycle" where
  "lc_start c = (if lc_running c then c else c\<lparr>lc_running := True, lc_client := True, lc_stopping := False\<rparr>)"

text \<open>The next step of \<^verbatim>\<open>stop\<close>; \<open>None\<close> while the join has to wait.\<close>

definition stop_step :: "lifecycle \<Rightarrow> lifecycle option" where
  "stop_step c =
     (case lc_stop c of
        SIdle \<Rightarrow> Some (c\<lparr>lc_stopping := True, lc_stop := STeardown1\<rparr>)
      | STeardown1 \<Rightarrow> Some ((lc_teardown c)\<lparr>lc_stop := SJoin\<rparr>)
      | SJoin \<Rightarrow>
          (case lc_thread c of
             None \<Rightarrow> Some (c\<lparr>lc_stop := STeardown2\<rparr>)
           | Some pc \<Rightarrow> if pc = RExited then Some (c\<lparr>lc_thread := None, lc_joined := True, lc_stop := STeardown2\<rparr>) else None)
      | STeardown2 \<Rightarrow> Some ((lc_teardown c)\<lparr>lc_stop := SDone\<rparr>)
      | SDone \<Rightarrow> None)"

text \<open>The next step of the reconnect thread; a wait that is not woken by \<^verbatim>\<open>stopping_\<close> ends by its timeout.\<close>

definition thread_step :: "lifecycle \<Rightarrow> lifecycle option" where
  "thread_step c =
     (case lc_thread c of
        None \<Rightarrow> None
      | Some REntry \<Rightarrow> Some (c\<lparr>lc_thread := Some (if lc_running c then RWait else REnd)\<rparr>)
      | Some RWait \<Rightarrow> Some (c\<lparr>lc_thread := Some (if lc_stopping c then REnd else RCheck)\<rparr>)
      | Some RCheck \<Rightarrow> Some (c\<lparr>lc_thread := Some (if \<not> lc_running c \<or> lc_stopping c then REnd else RTeardown)\<rparr>)
      | Some RTeardown \<Rightarrow> Some ((lc_teardown c)\<lparr>lc_thread := Some RCheckStop\<rparr>)
      | Some RCheckStop \<Rightarrow> Some (c\<lparr>lc_thread := Some (if lc_stopping c then REnd else RStart)\<rparr>)
      | Some RStart \<Rightarrow> Some ((lc_start c)\<lparr>lc_thread := Some REnd\<rparr>)
      | Some REnd \<Rightarrow> Some (c\<lparr>lc_stopping := False, lc_joined := True, lc_thread := Some RExited\<rparr>)
      | Some RExited \<Rightarrow> None)"

text \<open>\<^verbatim>\<open>onDisconnected\<close> on the receive thread of the current client.\<close>

definition disconnect_step :: "lifecycle \<Rightarrow> lifecycle option" where
  "disconnect_step c =
     (if lc_client c \<and> lc_running c \<and> lc_joined c then Some (c\<lparr>lc_joined := False, lc_thread := Some REntry\<rparr>) else None)"

datatype lc_label = LcStop | LcThread | LcDisconnect

inductive lc_step :: "lc_label \<Rightarrow> lifecycle \<Rightarrow> lifecycle \<Rightarrow> bool" where
  stopper: "stop_step c = Some c' \<Longrightarrow> lc_step LcStop c c'"
| reconnect: "thread_step c = Some c' \<Longrightarrow> lc_step LcThread c c'"
| disconnect: "disconnect_step c = Some c' \<Longrightarrow> lc_step LcDisconnect c c'"

inductive lc_run :: "(lc_label \<times> lifecycle) list \<Rightarrow> lifecycle \<Rightarrow> lifecycle \<Rightarrow> bool" where
  lc_refl: "lc_run [] c c"
| lc_more: "lc_step l c c1 \<Longrightarrow> lc_run ls c1 c2 \<Longrightarrow> lc_run ((l, c) # ls) c c2"

inductive_simps lc_step_stop: "lc_step LcStop c c'"
inductive_simps lc_step_thread: "lc_step LcThread c c'"
inductive_simps lc_step_disconnect: "lc_step LcDisconnect c c'"

lemmas lc_defs = lc_teardown_def lc_start_def stop_step_def thread_step_def disconnect_step_def

subsection \<open>Invariants\<close>

text \<open>The flag tells whether a reconnect thread is at work, and there is a client iff running.\<close>

definition lc_inv :: "lifecycle \<Rightarrow> bool" where
  "lc_inv c \<longleftrightarrow> (lc_joined c \<longleftrightarrow> lc_thread c = None \<or> lc_thread c = Some RExited) \<and> lc_client c = lc_running c"

definition quiet_after_join :: "lifecycle \<Rightarrow> bool" where
  "quiet_after_join c \<longleftrightarrow> (lc_stop c = STeardown2 \<longrightarrow> lc_thread c = None)
     \<and> (lc_stop c = SDone \<longrightarrow> lc_thread c = None \<and> \<not> lc_running c \<and> \<not> lc_client c)"

lemma lc_step_inv: "lc_step l c c' \<Longrightarrow> lc_inv c \<Longrightarrow> lc_inv c'"
  by (induction rule: lc_step.induct)
    (auto simp: lc_defs lc_inv_def split: stopper_pc.splits reconnect_pc.splits option.splits if_splits)

lemma lc_step_quiet:
  "lc_step l c c' \<Longrightarrow> quiet_after_join c \<Longrightarrow> \<not> (l = LcDisconnect \<and> lc_stop c = STeardown2) \<Longrightarrow> quiet_after_join c'"
  by (induction rule: lc_step.induct)
    (auto simp: lc_defs quiet_after_join_def split: stopper_pc.splits reconnect_pc.splits option.splits if_splits)

lemma lc_run_inv: "lc_run ls c c' \<Longrightarrow> lc_inv c \<Longrightarrow> lc_inv c'"
  by (induction rule: lc_run.induct) (auto intro: lc_step_inv)

lemma lc_run_quiet:
  "lc_run ls c c' \<Longrightarrow> quiet_after_join c \<Longrightarrow> \<forall>(l, d) \<in> set ls. \<not> (l = LcDisconnect \<and> lc_stop d = STeardown2) \<Longrightarrow>
   quiet_after_join c'"
  by (induction rule: lc_run.induct) (auto intro: lc_step_quiet)


fun lc_exec :: "lc_label list \<Rightarrow> lifecycle \<Rightarrow> lifecycle option" where
  "lc_exec [] c = Some c"
| "lc_exec (LcStop # ls) c = (case stop_step c of None \<Rightarrow> None | Some c1 \<Rightarrow> lc_exec ls c1)"
| "lc_exec (LcThread # ls) c = (case thread_step c of None \<Rightarrow> None | Some c1 \<Rightarrow> lc_exec ls c1)"
| "lc_exec (LcDisconnect # ls) c = (case disconnect_step c of None \<Rightarrow> None | Some c1 \<Rightarrow> lc_exec ls c1)"

fun lc_trace :: "lc_label list \<Rightarrow> lifecycle \<Rightarrow> (lc_label \<times> lifecycle) list" where
  "lc_trace [] c = []"
| "lc_trace (l # ls) c = (l, c) # (case lc_exec [l] c of None \<Rightarrow> [] | Some c1 \<Rightarrow> lc_trace ls c1)"

lemma lc_exec_run: "lc_exec ls c = Some c' \<Longrightarrow> lc_run (lc_trace ls c) c c'"
  by (induction ls c rule: lc_exec.induct)
    (auto split: option.splits intro: lc_refl lc_more stopper reconnect disconnect)

definition late_reconnect :: "lc_label list" where
  "late_reconnect = [LcDisconnect, LcThread, LcThread, LcThread, LcThread, LcThread, LcStop, LcStop, LcThread, LcThread,
     LcStop, LcStop]"


text \<open>
  The hypothesis above is needed: there is an interleaving in which \<^verbatim>\<open>stop\<close> returns and leaves a
  reconnect thread behind. The reconnect brings the connection up while \<^verbatim>\<open>stop\<close> waits for its
  thread, and the new connection reports a disconnect before the second teardown. In the
  destructor the joinable thread object then ends the process.
\<close>

theorem stop_may_leave_thread:
  "\<exists>ls c. lc_run ls lc_connected c \<and> lc_stop c = SDone \<and> lc_thread c = Some REntry"
proof -
  let ?ls = "[LcDisconnect, LcThread, LcThread, LcThread, LcThread, LcThread, LcStop, LcStop, LcThread, LcThread,
    LcStop, LcDisconnect, LcStop]"
  obtain c where "lc_exec ?ls lc_connected = Some c" "lc_stop c = SDone" "lc_thread c = Some REntry"
    by (simp add: lc_connected_def lc_defs)
  then show ?thesis using lc_exec_run by blast
qed

subsection \<open>Termination of stop\<close>

fun pc_rank :: "reconnect_pc \<Rightarrow> nat" where
  "pc_rank REntry = 7"
| "pc_rank RWait = 6"
| "pc_rank RCheck = 5"
| "pc_rank RTeardown = 4"
| "pc_rank RCheckStop = 3"
| "pc_rank RStart = 2"
| "pc_rank REnd = 1"
| "pc_rank RExited = 0"

lemma thread_progress:
  assumes "lc_thread c = Some pc" "pc \<noteq> RExited"
  shows "\<exists>c1 pc1. thread_step c = Some c1 \<and> lc_thread c1 = Some pc1 \<and> pc_rank pc1 < pc_rank pc \<and> lc_stop c1 = lc_stop c"
  using assms by (cases pc) (auto simp: lc_defs)

lemma thread_exits:
  "lc_thread c = Some pc \<Longrightarrow>
   \<exists>ls c1. lc_run ls c c1 \<and> length ls \<le> pc_rank pc \<and> fst ` set ls \<subseteq> {LcThread} \<and> lc_thread c1 = Some RExited \<and> lc_stop c1 = lc_stop c"
proof (induction "pc_rank pc" arbitrary: c pc rule: less_induct)
  case less
  show ?case
  proof (cases "pc = RExited")
    case True
    with less.prems show ?thesis by (intro exI [of _ "[]"] exI [of _ c]) (auto intro: lc_refl)
  next
    case False
    obtain c1 pc1 where st: "thread_step c = Some c1" "lc_thread c1 = Some pc1" "pc_rank pc1 < pc_rank pc"
      "lc_stop c1 = lc_stop c"
      using thread_progress [OF less.prems False] by blast
    obtain ls c2 where "lc_run ls c1 c2" "length ls \<le> pc_rank pc1" "fst ` set ls \<subseteq> {LcThread}"
      "lc_thread c2 = Some RExited" "lc_stop c2 = lc_stop c1"
      using less.hyps [OF st(3,2)] by blast
    with st show ?thesis
      by (intro exI [of _ "(LcThread, c) # ls"] exI [of _ c2]) (auto intro: lc_more reconnect)
  qed
qed

lemma lc_run_append: "lc_run xs a b \<Longrightarrow> lc_run ys b c \<Longrightarrow> lc_run (xs @ ys) a c"
  by (induction rule: lc_run.induct) (auto intro: lc_more)

lemma join_and_finish:
  assumes "lc_stop c = SJoin" "lc_thread c = None \<or> lc_thread c = Some RExited"
  shows "\<exists>ls c'. lc_run ls c c' \<and> length ls = 2 \<and> fst ` set ls \<subseteq> {LcStop} \<and> lc_stop c' = SDone"
proof -
  obtain c' where "lc_exec [LcStop, LcStop] c = Some c'" "lc_stop c' = SDone" using assms by (auto simp: lc_defs)
  with lc_exec_run [OF this(1)] show ?thesis
    using assms by (intro exI [of _ "lc_trace [LcStop, LcStop] c"] exI [of _ c']) (auto simp: lc_defs)
qed



end
