(* ===== verification/Stream_Path.thy ===== *)
theory Stream_Path
  imports Source_Ownership Settings_Schema
begin

text \<open>
  The path of a video stream through three components: the connector writes messages, the receive
  thread of the SSP client reads them and calls the callbacks of the source, the source decodes. The
  lemmas count the decode calls of a source that has a connection and a decoder.
\<close>

fun is_decode :: "src_event \<Rightarrow> bool" where
  "is_decode (EvDecode d) = True"
| "is_decode _ = False"

definition decodes :: "src_event list \<Rightarrow> nat" where
  "decodes es = length (filter is_decode es)"

lemma decodes_simps [simp]:
  "decodes [] = 0" "decodes (e # es) = (if is_decode e then 1 else 0) + decodes es" "decodes (xs @ ys) = decodes xs + decodes ys"
  by (simp_all add: decodes_def)

definition live :: "source \<Rightarrow> bool" where
  "live s \<longleftrightarrow> sr_running s \<and> sr_decoder s \<noteq> None \<and> \<not> sr_waitIFrame s"

lemma decodes_release: "decodes (release_frame_direct f) = 0"
  by (auto simp: release_frame_direct_def decodes_def filter_empty_conv)

lemma create_succeeds: "\<exists>k. zc_hw_decoder_create default_build hw True b = Some k"
  by (simp add: zc_hw_decoder_create_def default_build_def)

lemma rebuild_live:
  assumes "pf_sw_ok pf" "sr_running s" "\<not> sr_waitIFrame s"
  shows "live (fst (rebuild pf sw c s))" "decodes (snd (rebuild pf sw c s)) = 0"
proof -
  obtain k where k: "zc_hw_decoder_create default_build (pf_hw_ok pf) True (resolve_for pf sw c s) = Some k"
    using create_succeeds by blast
  show "live (fst (rebuild pf sw c s))"
    using assms by (simp add: rebuild_def Let_def k installDecoder_def live_def)
  show "decodes (snd (rebuild pf sw c s)) = 0"
    using assms(2) by (simp add: rebuild_def Let_def k installDecoder_def split: option.split)
qed

lemma drop_pending_live:
  "sr_running (fst (drop_pending s)) = sr_running s" "sr_waitIFrame (fst (drop_pending s)) = sr_waitIFrame s"
  "decodes (snd (drop_pending s)) = 0"
  by (simp_all add: drop_pending_def decodes_release)

lemma depth_rebuild_live:
  assumes "pf_sw_ok pf" "live s"
  shows "live (fst (depth_rebuild pf s))" "decodes (snd (depth_rebuild pf s)) = 0"
proof -
  have r: "sr_running s" "\<not> sr_waitIFrame s" using assms(2) by (simp_all add: live_def)
  show "live (fst (depth_rebuild pf s))" "decodes (snd (depth_rebuild pf s)) = 0"
    using assms r by (simp_all add: depth_rebuild_def rebuild_live drop_pending_live)
qed

lemma decode_and_output_live:
  assumes "live s"
  shows "live (fst (decode_and_output pf now res s))" "decodes (snd (decode_and_output pf now res s)) = 1"
proof -
  obtain d k where d: "sr_decoder s = Some (d, k)" using assms by (auto simp: live_def)
  have cpu: "filter is_decode (map EvCpu es) = []" for es by (simp add: filter_empty_conv)
  show "live (fst (decode_and_output pf now res s))"
    using assms d
    by (cases res) (simp_all add: decode_and_output_def live_def output_gpu_def output_software_def split_beta)
  show "decodes (snd (decode_and_output pf now res s)) = 1"
    using d
    by (cases res) (simp_all add: decode_and_output_def output_gpu_def output_software_def decodes_release split_beta,
        simp add: decodes_def cpu)
qed

lemma onVideoData_live:
  assumes "pf_sw_ok pf" "live s"
  shows "live (fst (onVideoData pf now res v s))" "decodes (snd (onVideoData pf now res v s)) = 1"
proof -
  let ?s = "sniff v (s\<lparr>sr_lastPacketNs := now\<rparr>)"
  have l: "live ?s" using assms(2) by (simp add: sniff_def live_def Let_def)
  have v: "onVideoData pf now res v s = then_do (depth_rebuild pf ?s) (decode_and_output pf now res)"
    using assms(2) by (simp add: onVideoData_def pass_i_frame_def live_def)
  note r = depth_rebuild_live [OF assms(1) l]
  show "live (fst (onVideoData pf now res v s))" "decodes (snd (onVideoData pf now res v s)) = 1"
    using r decode_and_output_live [OF r(1)] by (simp_all add: v)
qed

lemma onMeta_live:
  assumes "pf_sw_ok pf" "sr_running s" "\<not> sr_waitIFrame s"
  shows "live (fst (onMeta pf vm s))" "decodes (snd (onMeta pf vm s)) = 0"
  using assms by (auto simp: onMeta_def Let_def rebuild_live drop_pending_live) (simp add: needs_rebuild_def live_def)

lemma videos_decoded:
  assumes "pf_sw_ok pf" "live s"
  shows "decodes (snd (run_trace src_step (client_inputs pf env k (map (\<lambda>v. RxCallback (SspVideo v)) vs)) s)) = length vs"
  using assms(2)
proof (induction vs arbitrary: k s)
  case (Cons v vs)
  note l = onVideoData_live [OF assms(1) Cons.prems]
  show ?case using Cons.IH [OF l(1)] by (simp add: split_beta l(2))
qed simp

end
