(* ===== verification/Ffmpeg_Decode.thy ===== *)
theory Ffmpeg_Decode
  imports Resources Cpu_Frame Hw_Decode
begin

text \<open>
  The FFmpeg wrapper \<^verbatim>\<open>src/ffmpeg-decode.c\<close> and the software backend \<^verbatim>\<open>src/hwdecode/hw_decode_sw.cpp\<close>
  that uses it. What libavcodec answers is an input of each call: whether an allocation succeeds,
  what sending a packet and receiving a frame return, and the frame. Allocations and releases are
  events; a null pointer that the code does not test is the event \<open>AvCrash\<close>.
\<close>

subsection \<open>Data\<close>

datatype av_pix_fmt =
    AV_PIX_FMT_NONE | AV_PIX_FMT_GRAY8 | AV_PIX_FMT_YUV420P | AV_PIX_FMT_YUVJ420P | AV_PIX_FMT_NV12
  | AV_PIX_FMT_YUYV422 | AV_PIX_FMT_YVYU422 | AV_PIX_FMT_UYVY422 | AV_PIX_FMT_YUV422P | AV_PIX_FMT_YUVJ422P
  | AV_PIX_FMT_RGBA | AV_PIX_FMT_BGRA | AV_PIX_FMT_BGR0 | AV_PIX_FMT_YUV420P10LE | AV_PIX_FMT_YUV420P10BE
  | AV_PIX_FMT_P010LE | AV_PIX_FMT_P010BE | AV_PIX_FMT_D3D11 | AV_PIX_FMT_CUDA | AV_PIX_FMT_VIDEOTOOLBOX
  | AV_PIX_FMT_DXVA2_VLD | AV_PIX_FMT_QSV | AV_PIX_FMT_OTHER nat

datatype av_hw_type =
    AV_HWDEVICE_TYPE_NONE | AV_HWDEVICE_TYPE_QSV | AV_HWDEVICE_TYPE_CUDA | AV_HWDEVICE_TYPE_DXVA2
  | AV_HWDEVICE_TYPE_D3D11VA | AV_HWDEVICE_TYPE_VIDEOTOOLBOX

datatype av_color_space =
    AVCOL_SPC_BT709 | AVCOL_SPC_FCC | AVCOL_SPC_BT470BG | AVCOL_SPC_SMPTE170M | AVCOL_SPC_SMPTE240M
  | AVCOL_SPC_BT2020_NCL | AVCOL_SPC_BT2020_CL | AVCOL_SPC_OTHER nat

datatype av_color_trc =
    AVCOL_TRC_BT709 | AVCOL_TRC_GAMMA22 | AVCOL_TRC_GAMMA28 | AVCOL_TRC_SMPTE170M | AVCOL_TRC_SMPTE240M
  | AVCOL_TRC_IEC61966_2_1 | AVCOL_TRC_SMPTE2084 | AVCOL_TRC_ARIB_STD_B67 | AVCOL_TRC_OTHER nat

datatype video_colorspace =
    VIDEO_CS_DEFAULT | VIDEO_CS_601 | VIDEO_CS_709 | VIDEO_CS_SRGB | VIDEO_CS_2100_PQ | VIDEO_CS_2100_HLG

datatype video_range_type = VIDEO_RANGE_DEFAULT | VIDEO_RANGE_PARTIAL | VIDEO_RANGE_FULL

datatype video_trc = VIDEO_TRC_DEFAULT | VIDEO_TRC_SRGB | VIDEO_TRC_PQ | VIDEO_TRC_HLG

record av_frame =
  fr_format :: av_pix_fmt
  fr_width :: u32
  fr_height :: u32
  fr_jpeg_range :: bool
  fr_colorspace :: av_color_space
  fr_color_trc :: av_color_trc
  fr_bt2020 :: bool
  fr_pts :: u64
  fr_data0 :: bool
  fr_linesize :: "nat \<Rightarrow> u32"

text \<open>The frame handed to OBS, with the fields the source does not read.\<close>

record sw_picture = obs_source_frame2 +
  sp_trc :: video_trc
  sp_timestamp :: u64

text \<open>The decoder owns one reference to the hardware device, its codec context another one.\<close>

record ffmpeg_decode =
  fd_device :: bool
  fd_decoder :: "bool option"
  fd_frame :: bool
  fd_hw_frame :: bool
  fd_hw :: bool
  fd_buffer :: "nat option"
  fd_packet_size :: u64

definition fd_zero :: ffmpeg_decode where
  "fd_zero = \<lparr>fd_device = False, fd_decoder = None, fd_frame = False, fd_hw_frame = False, fd_hw = False,
     fd_buffer = None, fd_packet_size = 0\<rparr>"

datatype av_kind = AkContext | AkDeviceRef | AkFramesRef | AkFrame | AkBuffer | AkPacket

text \<open>A write is an offset, a length and the capacity of the buffer.\<close>

datatype av_event = AvNew av_kind | AvFree av_kind | AvWrite nat nat nat | AvCrash | AvPicture sw_picture

subsection \<open>Conversions\<close>

fun convert_pixel_format :: "av_pix_fmt \<Rightarrow> video_format" where
  "convert_pixel_format AV_PIX_FMT_NONE = VIDEO_FORMAT_NONE"
| "convert_pixel_format AV_PIX_FMT_GRAY8 = VIDEO_FORMAT_Y800"
| "convert_pixel_format AV_PIX_FMT_YUV420P = VIDEO_FORMAT_I420"
| "convert_pixel_format AV_PIX_FMT_YUVJ420P = VIDEO_FORMAT_I420"
| "convert_pixel_format AV_PIX_FMT_NV12 = VIDEO_FORMAT_NV12"
| "convert_pixel_format AV_PIX_FMT_YUYV422 = VIDEO_FORMAT_YUY2"
| "convert_pixel_format AV_PIX_FMT_YVYU422 = VIDEO_FORMAT_YVYU"
| "convert_pixel_format AV_PIX_FMT_UYVY422 = VIDEO_FORMAT_UYVY"
| "convert_pixel_format AV_PIX_FMT_YUV422P = VIDEO_FORMAT_I422"
| "convert_pixel_format AV_PIX_FMT_YUVJ422P = VIDEO_FORMAT_I422"
| "convert_pixel_format AV_PIX_FMT_RGBA = VIDEO_FORMAT_RGBA"
| "convert_pixel_format AV_PIX_FMT_BGRA = VIDEO_FORMAT_BGRA"
| "convert_pixel_format AV_PIX_FMT_YUV420P10LE = VIDEO_FORMAT_I010"
| "convert_pixel_format AV_PIX_FMT_BGR0 = VIDEO_FORMAT_BGRX"
| "convert_pixel_format AV_PIX_FMT_P010LE = VIDEO_FORMAT_P010"
| "convert_pixel_format _ = VIDEO_FORMAT_NONE"

definition hlg_or_pq :: "av_color_trc \<Rightarrow> video_colorspace" where
  "hlg_or_pq trc = (if trc = AVCOL_TRC_ARIB_STD_B67 then VIDEO_CS_2100_HLG else VIDEO_CS_2100_PQ)"

fun convert_color_space :: "av_color_space \<Rightarrow> av_color_trc \<Rightarrow> bool \<Rightarrow> video_colorspace" where
  "convert_color_space AVCOL_SPC_BT709 trc bt2020 = (if trc = AVCOL_TRC_IEC61966_2_1 then VIDEO_CS_SRGB else VIDEO_CS_709)"
| "convert_color_space AVCOL_SPC_FCC trc bt2020 = VIDEO_CS_601"
| "convert_color_space AVCOL_SPC_BT470BG trc bt2020 = VIDEO_CS_601"
| "convert_color_space AVCOL_SPC_SMPTE170M trc bt2020 = VIDEO_CS_601"
| "convert_color_space AVCOL_SPC_SMPTE240M trc bt2020 = VIDEO_CS_601"
| "convert_color_space AVCOL_SPC_BT2020_NCL trc bt2020 = hlg_or_pq trc"
| "convert_color_space AVCOL_SPC_BT2020_CL trc bt2020 = (if bt2020 then hlg_or_pq trc else VIDEO_CS_DEFAULT)"
| "convert_color_space (AVCOL_SPC_OTHER n) trc bt2020 = (if bt2020 then hlg_or_pq trc else VIDEO_CS_DEFAULT)"

fun convert_trc :: "av_color_trc \<Rightarrow> video_trc" where
  "convert_trc AVCOL_TRC_SMPTE2084 = VIDEO_TRC_PQ"
| "convert_trc AVCOL_TRC_ARIB_STD_B67 = VIDEO_TRC_HLG"
| "convert_trc (AVCOL_TRC_OTHER n) = VIDEO_TRC_DEFAULT"
| "convert_trc _ = VIDEO_TRC_SRGB"

subsection \<open>Opening and closing\<close>

text \<open>What the library answers while a decoder is opened.\<close>

record av_open_env =
  ao_find :: bool
  ao_context :: bool
  ao_hw_config :: "av_hw_type \<Rightarrow> bool"
  ao_device :: "av_hw_type \<Rightarrow> bool"
  ao_open :: bool

definition hw_priority :: "av_hw_type list" where
  "hw_priority = [AV_HWDEVICE_TYPE_QSV, AV_HWDEVICE_TYPE_CUDA, AV_HWDEVICE_TYPE_DXVA2, AV_HWDEVICE_TYPE_D3D11VA,
     AV_HWDEVICE_TYPE_VIDEOTOOLBOX]"

definition init_hw_decoder :: "av_open_env \<Rightarrow> ffmpeg_decode \<Rightarrow> ffmpeg_decode \<times> av_event list" where
  "init_hw_decoder env d =
     (if list_ex (\<lambda>t. ao_hw_config env t \<and> ao_device env t) hw_priority
      then (d\<lparr>fd_device := True, fd_decoder := Some True, fd_hw := True\<rparr>, [AvNew AkDeviceRef, AvNew AkDeviceRef])
      else (d, []))"

definition free_context :: "bool option \<Rightarrow> av_event list" where
  "free_context c = (case c of None \<Rightarrow> [] | Some dev \<Rightarrow> (if dev then [AvFree AkDeviceRef] else []) @ [AvFree AkContext])"

definition ffmpeg_decode_free :: "ffmpeg_decode \<Rightarrow> ffmpeg_decode \<times> av_event list" where
  "ffmpeg_decode_free d =
     (fd_zero,
      (if fd_hw_frame d then [AvFree AkFrame] else []) @ free_context (fd_decoder d)
      @ (if fd_frame d then [AvFree AkFrame] else []) @ (if fd_device d then [AvFree AkDeviceRef] else [])
      @ (if fd_buffer d \<noteq> None then [AvFree AkBuffer] else []))"

text \<open>The Boolean is whether \<^verbatim>\<open>ffmpeg_decode_init\<close> returns a non-negative value.\<close>

definition ffmpeg_decode_init :: "av_open_env \<Rightarrow> bool \<Rightarrow> bool \<times> (ffmpeg_decode \<times> av_event list)" where
  "ffmpeg_decode_init env use_hw =
     (if \<not> ao_find env then (False, fd_zero, [])
      else if \<not> ao_context env then (False, fd_zero, [AvCrash])
      else
        (let r = then_do (fd_zero\<lparr>fd_decoder := Some False\<rparr>, [AvNew AkContext])
                   (if use_hw then init_hw_decoder env else (\<lambda>d. (d, []))) in
         if ao_open env then (True, r) else (False, then_do r ffmpeg_decode_free)))"

subsection \<open>Decoding\<close>

text \<open>\<open>pad\<close> is \<^verbatim>\<open>AV_INPUT_BUFFER_PADDING_SIZE\<close> of libavcodec.\<close>

definition copy_data :: "u64 \<Rightarrow> u64 \<Rightarrow> ffmpeg_decode \<Rightarrow> ffmpeg_decode \<times> av_event list" where
  "copy_data pad sz d =
     (let new_size = sz + pad;
          grow = fd_packet_size d < new_size;
          d1 = (if grow then d\<lparr>fd_buffer := Some (unat new_size), fd_packet_size := new_size\<rparr> else d);
          cap = (case fd_buffer d1 of None \<Rightarrow> 0 | Some n \<Rightarrow> n) in
      (d1, (if grow \<and> fd_buffer d = None then [AvNew AkBuffer] else [])
           @ [AvWrite (unat sz) (unat pad) cap, AvWrite 0 (unat sz) cap]))"

datatype av_ret = AvOk | AvAgain | AvEof | AvError

record av_decode_env =
  ad_frame :: bool
  ad_hw_frame :: bool
  ad_packet :: bool
  ad_send :: av_ret
  ad_receive :: av_ret
  ad_transfer :: bool
  ad_params :: "video_colorspace \<Rightarrow> video_range_type \<Rightarrow> video_format \<Rightarrow> bool"
  ad_picture :: av_frame

text \<open>The frames are allocated by the first call; \<open>False\<close> is the early return. The hardware frame is only
  tried when the other one is missing.\<close>

definition alloc_frames :: "av_decode_env \<Rightarrow> ffmpeg_decode \<Rightarrow> bool \<times> (ffmpeg_decode \<times> av_event list)" where
  "alloc_frames env d =
     (if fd_frame d then (True, d, [])
      else if \<not> ad_frame env then (False, d, [])
      else
        (let d1 = d\<lparr>fd_frame := True\<rparr> in
         if fd_hw d \<and> \<not> fd_hw_frame d
         then (if ad_hw_frame env then (True, d1\<lparr>fd_hw_frame := True\<rparr>, [AvNew AkFrame, AvNew AkFrame])
               else (False, d1, [AvNew AkFrame]))
         else (True, d1, [AvNew AkFrame])))"

text \<open>\<^verbatim>\<open>avcodec_send_packet\<close> and \<^verbatim>\<open>avcodec_receive_frame\<close> in turn, the latter only after a success.\<close>

definition codec_result :: "av_decode_env \<Rightarrow> av_ret" where
  "codec_result env = (if ad_send env = AvOk then ad_receive env else ad_send env)"

text \<open>The picture taken over from the decoded frame, the range and colour space settled by the
  parameters unless they are defaults.\<close>

definition settle_range :: "video_range_type \<Rightarrow> av_frame \<Rightarrow> video_range_type" where
  "settle_range rng f =
     (if rng = VIDEO_RANGE_DEFAULT then (if fr_jpeg_range f then VIDEO_RANGE_FULL else VIDEO_RANGE_PARTIAL) else rng)"

definition settle_cs :: "video_colorspace \<Rightarrow> av_frame \<Rightarrow> video_colorspace" where
  "settle_cs cs f = (if cs = VIDEO_CS_DEFAULT then convert_color_space (fr_colorspace f) (fr_color_trc f) (fr_bt2020 f) else cs)"

definition take_planes :: "av_frame \<Rightarrow> sw_picture \<Rightarrow> sw_picture" where
  "take_planes f p = p\<lparr>of_data0 := fr_data0 f, of_linesize := fr_linesize f, of_format := convert_pixel_format (fr_format f)\<rparr>"

definition take_picture :: "video_range_type \<Rightarrow> av_frame \<Rightarrow> sw_picture \<Rightarrow> sw_picture" where
  "take_picture rng f p =
     p\<lparr>of_full_range := (rng = VIDEO_RANGE_FULL), of_width := fr_width f, of_height := fr_height f,
       sp_trc := convert_trc (fr_color_trc f)\<rparr>"

text \<open>The result is the returned Boolean, \<^verbatim>\<open>got_output\<close>, the time stamp and the picture.\<close>

definition deliver_picture ::
  "av_decode_env \<Rightarrow> u64 \<Rightarrow> video_colorspace \<Rightarrow> video_range_type \<Rightarrow> bool \<Rightarrow> sw_picture \<Rightarrow> (bool \<times> bool) \<times> u64 \<times> sw_picture" where
  "deliver_picture env ts cs rng hw p =
     (let f = ad_picture env in
      case codec_result env of
        AvError \<Rightarrow> ((False, False), ts, p)
      | AvAgain \<Rightarrow> ((True, False), ts, p)
      | AvEof \<Rightarrow> ((True, False), ts, p)
      | AvOk \<Rightarrow>
          if hw \<and> \<not> ad_transfer env then ((False, False), ts, p)
          else
            (let p1 = take_planes f p; rng' = settle_range rng f in
             if \<not> ad_params env (settle_cs cs f) rng' (of_format p1) then ((False, False), ts, p1)
             else
               (let p2 = take_picture rng' f p1 in
                if of_format p2 = VIDEO_FORMAT_NONE then ((False, False), fr_pts f, p2)
                else ((True, True), fr_pts f, p2))))"

definition decode_packet :: "av_decode_env \<Rightarrow> ffmpeg_decode \<Rightarrow> ffmpeg_decode \<times> av_event list" where
  "decode_packet env d =
     (d, if \<not> ad_packet env \<or> (ad_send env = AvOk \<and> fd_hw d \<and> \<not> fd_hw_frame d) then [AvCrash]
         else [AvNew AkPacket, AvFree AkPacket])"

definition ffmpeg_decode_video ::
  "u64 \<Rightarrow> av_decode_env \<Rightarrow> u64 \<Rightarrow> u64 \<Rightarrow> video_colorspace \<Rightarrow> video_range_type \<Rightarrow> sw_picture \<Rightarrow> ffmpeg_decode
    \<Rightarrow> ((bool \<times> bool) \<times> u64 \<times> sw_picture) \<times> (ffmpeg_decode \<times> av_event list)" where
  "ffmpeg_decode_video pad env sz ts cs rng p d =
     (case copy_data pad sz d of
        (d1, es) \<Rightarrow>
          (case alloc_frames env d1 of
             (ok, d2, es2) \<Rightarrow>
               if \<not> ok then (((False, False), ts, p), d2, es @ es2)
               else (deliver_picture env ts cs rng (fd_hw d2) p, then_do (d2, es @ es2) (decode_packet env))))"

subsection \<open>Audio\<close>

datatype av_sample_fmt =
    AV_SAMPLE_FMT_U8 | AV_SAMPLE_FMT_S16 | AV_SAMPLE_FMT_S32 | AV_SAMPLE_FMT_FLT | AV_SAMPLE_FMT_U8P
  | AV_SAMPLE_FMT_S16P | AV_SAMPLE_FMT_S32P | AV_SAMPLE_FMT_FLTP | AV_SAMPLE_FMT_OTHER nat

datatype audio_format =
    AUDIO_FORMAT_UNKNOWN | AUDIO_FORMAT_U8BIT | AUDIO_FORMAT_16BIT | AUDIO_FORMAT_32BIT | AUDIO_FORMAT_FLOAT
  | AUDIO_FORMAT_U8BIT_PLANAR | AUDIO_FORMAT_16BIT_PLANAR | AUDIO_FORMAT_32BIT_PLANAR | AUDIO_FORMAT_FLOAT_PLANAR

datatype speaker_layout =
    SPEAKERS_UNKNOWN | SPEAKERS_MONO | SPEAKERS_STEREO | SPEAKERS_2POINT1 | SPEAKERS_4POINT0 | SPEAKERS_4POINT1
  | SPEAKERS_5POINT1 | SPEAKERS_7POINT1

fun convert_sample_format :: "av_sample_fmt \<Rightarrow> audio_format" where
  "convert_sample_format AV_SAMPLE_FMT_U8 = AUDIO_FORMAT_U8BIT"
| "convert_sample_format AV_SAMPLE_FMT_S16 = AUDIO_FORMAT_16BIT"
| "convert_sample_format AV_SAMPLE_FMT_S32 = AUDIO_FORMAT_32BIT"
| "convert_sample_format AV_SAMPLE_FMT_FLT = AUDIO_FORMAT_FLOAT"
| "convert_sample_format AV_SAMPLE_FMT_U8P = AUDIO_FORMAT_U8BIT_PLANAR"
| "convert_sample_format AV_SAMPLE_FMT_S16P = AUDIO_FORMAT_16BIT_PLANAR"
| "convert_sample_format AV_SAMPLE_FMT_S32P = AUDIO_FORMAT_32BIT_PLANAR"
| "convert_sample_format AV_SAMPLE_FMT_FLTP = AUDIO_FORMAT_FLOAT_PLANAR"
| "convert_sample_format (AV_SAMPLE_FMT_OTHER n) = AUDIO_FORMAT_UNKNOWN"

definition convert_speaker_layout :: "u8 \<Rightarrow> speaker_layout" where
  "convert_speaker_layout channels =
     (if channels = 1 then SPEAKERS_MONO
      else if channels = 2 then SPEAKERS_STEREO
      else if channels = 3 then SPEAKERS_2POINT1
      else if channels = 4 then SPEAKERS_4POINT0
      else if channels = 5 then SPEAKERS_4POINT1
      else if channels = 6 then SPEAKERS_5POINT1
      else if channels = 8 then SPEAKERS_7POINT1
      else SPEAKERS_UNKNOWN)"

record sound =
  so_samples_per_sec :: u32
  so_format :: audio_format
  so_speakers :: speaker_layout
  so_frames :: u32

record av_sound =
  as_sample_rate :: u32
  as_format :: av_sample_fmt
  as_channels :: u32
  as_nb_samples :: u32

text \<open>\<open>has_data\<close> is whether the data pointer is set; without data nothing is sent and the decoder is only
  drained.\<close>

definition audio_result :: "bool \<Rightarrow> av_decode_env \<Rightarrow> av_ret" where
  "audio_result sends env = (if sends \<and> ad_send env \<noteq> AvOk then ad_send env else ad_receive env)"

definition ffmpeg_decode_audio ::
  "u64 \<Rightarrow> av_decode_env \<Rightarrow> av_sound \<Rightarrow> bool \<Rightarrow> u64 \<Rightarrow> sound \<Rightarrow> ffmpeg_decode
    \<Rightarrow> ((bool \<times> bool) \<times> sound) \<times> (ffmpeg_decode \<times> av_event list)" where
  "ffmpeg_decode_audio pad env f has_data sz a d =
     (case copy_data pad sz d of
        (d1, es) \<Rightarrow>
          if \<not> fd_frame d1 \<and> \<not> ad_frame env then (((False, False), a), d1, es)
          else
            (let sends = (has_data \<and> sz \<noteq> 0);
                 out = (d1\<lparr>fd_frame := True\<rparr>, es @ (if fd_frame d1 then [] else [AvNew AkFrame])
                        @ (if \<not> sends then [] else if ad_packet env then [AvNew AkPacket, AvFree AkPacket] else [AvCrash]));
                 a1 = \<lparr>so_samples_per_sec = as_sample_rate f, so_format = convert_sample_format (as_format f),
                       so_speakers = convert_speaker_layout (ucast (as_channels f)), so_frames = as_nb_samples f\<rparr> in
             case audio_result sends env of
               AvError \<Rightarrow> (((False, False), a), out)
             | AvAgain \<Rightarrow> (((True, False), a), out)
             | AvEof \<Rightarrow> (((True, False), a), out)
             | AvOk \<Rightarrow> if so_format a1 = AUDIO_FORMAT_UNKNOWN then (((False, False), a1), out) else (((True, True), a1), out)))"

subsection \<open>The software backend\<close>

record zc_hw_sw =
  sw_decoder :: ffmpeg_decode
  sw_valid :: bool
  sw_codec :: zc_codec_id
  sw_width :: int
  sw_height :: int
  sw_cs :: video_colorspace
  sw_range :: video_range_type
  sw_trc :: video_trc
  sw_frame :: sw_picture

definition picture_zero :: sw_picture where
  "picture_zero = \<lparr>of_format = VIDEO_FORMAT_NONE, of_width = 0, of_height = 0, of_full_range = False, of_data0 = False,
     of_linesize = (\<lambda>_. 0), sp_trc = VIDEO_TRC_DEFAULT, sp_timestamp = 0\<rparr>"

definition zc_hw_sw_create :: "zc_codec_id \<Rightarrow> zc_hw_sw" where
  "zc_hw_sw_create codec =
     \<lparr>sw_decoder = fd_zero, sw_valid = False, sw_codec = codec, sw_width = 0, sw_height = 0, sw_cs = VIDEO_CS_DEFAULT,
      sw_range = VIDEO_RANGE_PARTIAL, sw_trc = VIDEO_TRC_DEFAULT, sw_frame = picture_zero\<rparr>"

definition sw_set_params ::
  "int \<Rightarrow> int \<Rightarrow> video_colorspace \<Rightarrow> video_range_type \<Rightarrow> video_trc \<Rightarrow> zc_hw_sw \<Rightarrow> zc_hw_sw" where
  "sw_set_params width height cs rng trc s =
     s\<lparr>sw_width := width, sw_height := height, sw_cs := cs, sw_range := rng, sw_trc := trc\<rparr>"

text \<open>The library decoder is opened by the first access unit; \<open>Some\<close> is the picture handed to the
  source, which stays in the decoder.\<close>

definition sw_open :: "av_open_env \<Rightarrow> zc_hw_sw \<Rightarrow> bool \<times> (zc_hw_sw \<times> av_event list)" where
  "sw_open env s =
     (if sw_valid s then (True, s, [])
      else (case ffmpeg_decode_init env False of
              (ok, d, es) \<Rightarrow> (ok, s\<lparr>sw_decoder := d, sw_valid := ok\<rparr>, es)))"

definition sw_decode ::
  "u64 \<Rightarrow> av_open_env \<Rightarrow> av_decode_env \<Rightarrow> u64 \<Rightarrow> u64 \<Rightarrow> zc_hw_sw
    \<Rightarrow> (bool \<times> sw_picture option) \<times> (zc_hw_sw \<times> av_event list)" where
  "sw_decode pad oenv env sz pts s =
     (case sw_open oenv s of
        (opened, s1, es) \<Rightarrow>
          if \<not> opened then ((False, None), s1, es)
          else
            (case ffmpeg_decode_video pad env sz pts (sw_cs s1) (sw_range s1) (sw_frame s1) (sw_decoder s1) of
               (((ok, got), ts, p), d, es1) \<Rightarrow>
                 (let p1 = (if ok \<and> got then p\<lparr>sp_timestamp := ts * 1000\<rparr> else p) in
                  ((ok, if ok \<and> got then Some p1 else None), s1\<lparr>sw_decoder := d, sw_frame := p1\<rparr>, es @ es1))))"

definition sw_destroy :: "zc_hw_sw \<Rightarrow> zc_hw_sw \<times> av_event list" where
  "sw_destroy s =
     (if sw_valid s
      then (case ffmpeg_decode_free (sw_decoder s) of (d, es) \<Rightarrow> (s\<lparr>sw_decoder := d, sw_valid := False\<rparr>, es))
      else (s, []))"

end
