(* ===== verification/Sw_Backend.thy ===== *)
theory Sw_Backend
  imports Ffmpeg_Decode
begin

text \<open>
  Properties of the software backend: a monitor counts the library objects its events create and
  release, and the pictures it hands to the source are characterised.
\<close>

subsection \<open>The backend as a state machine\<close>

datatype sw_input =
    SwDecode av_open_env av_decode_env u64 u64
  | SwParams int int video_colorspace video_range_type video_trc

fun sw_step :: "u64 \<Rightarrow> sw_input \<Rightarrow> zc_hw_sw \<Rightarrow> zc_hw_sw \<times> av_event list" where
  "sw_step pad (SwDecode oenv env sz pts) s =
     (case sw_decode pad oenv env sz pts s of
        ((ok, out), s1, es) \<Rightarrow> (s1, es @ (case out of None \<Rightarrow> [] | Some p \<Rightarrow> [AvPicture p])))"
| "sw_step pad (SwParams w h cs rng trc) s = (sw_set_params w h cs rng trc s, [])"

text \<open>The code assumes that contexts and packets can be allocated; a size near the end of the address
  space would wrap.\<close>

fun sw_ok :: "u64 \<Rightarrow> sw_input \<Rightarrow> bool" where
  "sw_ok pad (SwDecode oenv env sz pts) \<longleftrightarrow> ao_context oenv \<and> ad_packet env \<and> unat sz + unat pad < 2 ^ 64"
| "sw_ok pad (SwParams w h cs rng trc) \<longleftrightarrow> True"

subsection \<open>Library objects\<close>

type_synonym av_count = "av_kind \<Rightarrow> nat"

fun av_monitor :: "av_event \<Rightarrow> av_count \<Rightarrow> av_count option" where
  "av_monitor (AvNew k) m = Some (m(k := m k + 1))"
| "av_monitor (AvFree k) m = (if m k = 0 then None else Some (m(k := m k - 1)))"
| "av_monitor (AvWrite off n cap) m = (if off + n \<le> cap then Some m else None)"
| "av_monitor AvCrash m = None"
| "av_monitor (AvPicture p) m = (if m AkFrame = 0 then None else Some m)"

definition none_left :: av_count where
  "none_left k = 0"

fun fd_view :: "ffmpeg_decode \<Rightarrow> av_count" where
  "fd_view d AkContext = (if fd_decoder d = None then 0 else 1)"
| "fd_view d AkDeviceRef = (if fd_device d then 1 else 0) + (if fd_decoder d = Some True then 1 else 0)"
| "fd_view d AkFrame = (if fd_frame d then 1 else 0) + (if fd_hw_frame d then 1 else 0)"
| "fd_view d AkBuffer = (if fd_buffer d = None then 0 else 1)"
| "fd_view d AkFramesRef = 0"
| "fd_view d AkPacket = 0"

definition fd_inv :: "ffmpeg_decode \<Rightarrow> bool" where
  "fd_inv d \<longleftrightarrow> \<not> fd_hw d \<and> (case fd_buffer d of None \<Rightarrow> fd_packet_size d = 0 | Some n \<Rightarrow> n = unat (fd_packet_size d))"

definition fd_ok :: "ffmpeg_decode \<Rightarrow> ffmpeg_decode \<times> av_event list \<Rightarrow> bool" where
  "fd_ok d r \<longleftrightarrow> fd_inv (fst r) \<and> tracked av_monitor fd_view d r"

text \<open>Two counts agree when they agree on each of the six kinds.\<close>

lemma av_count_eq:
  "(m :: av_count) = n \<longleftrightarrow> m AkContext = n AkContext \<and> m AkDeviceRef = n AkDeviceRef \<and> m AkFramesRef = n AkFramesRef
     \<and> m AkFrame = n AkFrame \<and> m AkBuffer = n AkBuffer \<and> m AkPacket = n AkPacket"
proof (intro iffI ext)
  fix k
  assume "m AkContext = n AkContext \<and> m AkDeviceRef = n AkDeviceRef \<and> m AkFramesRef = n AkFramesRef
    \<and> m AkFrame = n AkFrame \<and> m AkBuffer = n AkBuffer \<and> m AkPacket = n AkPacket"
  then show "m k = n k" by (cases k) simp_all
qed simp

lemma fd_ok_then: "fd_ok d r \<Longrightarrow> (fd_inv (fst r) \<Longrightarrow> fd_ok (fst r) (f (fst r))) \<Longrightarrow> fd_ok d (then_do r f)"
  by (simp add: fd_ok_def tracked_then)

lemma fd_view_zero: "fd_view fd_zero = none_left"
  by (simp add: av_count_eq fd_zero_def none_left_def)

lemma fd_zero_inv: "fd_inv fd_zero"
  by (simp add: fd_inv_def fd_zero_def)

lemma free_tracked: "tracked av_monitor fd_view d (ffmpeg_decode_free d)"
  unfolding tracked_def ffmpeg_decode_free_def free_context_def
  by (cases "fd_decoder d") (simp_all add: fd_view_zero none_left_def av_count_eq)

lemma free_inv: "fst (ffmpeg_decode_free d) = fd_zero"
  by (simp add: ffmpeg_decode_free_def)

lemma init_ok:
  assumes "ao_context env" "ffmpeg_decode_init env False = (ok, r)"
  shows "fd_ok fd_zero r" "\<not> ok \<Longrightarrow> fst r = fd_zero"
proof -
  let ?d = "fd_zero\<lparr>fd_decoder := Some False\<rparr>"
  have new: "fd_ok fd_zero (?d, [AvNew AkContext])"
    by (simp add: fd_ok_def tracked_def fd_inv_def av_count_eq fd_zero_def)
  have "fd_ok fd_zero (then_do (?d, [AvNew AkContext]) ffmpeg_decode_free)"
    by (rule fd_ok_then [OF new]) (simp add: fd_ok_def free_tracked free_inv fd_zero_inv)
  moreover have "fd_ok fd_zero (fd_zero, [])" by (simp add: fd_ok_def tracked_silent fd_zero_inv)
  moreover have "then_do (?d, [AvNew AkContext]) (\<lambda>d. (d, [])) = (?d, [AvNew AkContext])"
    by (simp add: then_do_def)
  ultimately show "fd_ok fd_zero r" "\<not> ok \<Longrightarrow> fst r = fd_zero"
    using assms new by (auto simp: ffmpeg_decode_init_def Let_def free_inv split: if_splits)
qed

lemma copy_data_ok:
  assumes "fd_inv d" "unat sz + unat pad < 2 ^ 64"
  shows "fd_ok d (copy_data pad sz d)"
proof -
  have new: "unat (sz + pad) = unat sz + unat pad"
    using assms(2) by (simp add: unat_word_ariths(1))
  have grow: "fd_packet_size d < sz + pad \<longleftrightarrow> unat (fd_packet_size d) < unat sz + unat pad"
    by (simp add: word_less_nat_alt new)
  show ?thesis
    using assms(1) grow
    by (cases "fd_buffer d") (auto simp: fd_ok_def tracked_def copy_data_def Let_def fd_inv_def new av_count_eq)
qed

lemma alloc_frames_ok: "fd_inv d \<Longrightarrow> alloc_frames env d = (ok, r) \<Longrightarrow> fd_ok d r"
  by (cases "fd_buffer d")
    (auto simp: alloc_frames_def fd_ok_def tracked_def fd_inv_def Let_def av_count_eq split: if_splits)

lemma alloc_frames_frame: "alloc_frames env d = (True, r) \<Longrightarrow> fd_frame (fst r)"
  by (auto simp: alloc_frames_def Let_def split: if_splits)

lemma decode_packet_ok: "fd_inv d \<Longrightarrow> ad_packet env \<Longrightarrow> fd_ok d (decode_packet env d)"
  by (auto simp: decode_packet_def fd_ok_def tracked_def fd_inv_def av_count_eq)

lemma decode_video_ok:
  assumes "fd_inv d" "ad_packet env" "unat sz + unat pad < 2 ^ 64"
    and "ffmpeg_decode_video pad env sz ts cs rng p d = (((ok, got), ts', p'), r)"
  shows "fd_ok d r" "got \<Longrightarrow> fd_frame (fst r)"
proof -
  obtain d1 es where c: "copy_data pad sz d = (d1, es)" by fastforce
  obtain fine d2 es2 where a: "alloc_frames env d1 = (fine, d2, es2)" by (metis prod.collapse)
  have ok1: "fd_ok d (d1, es)" using copy_data_ok [OF assms(1,3)] c by simp
  then have "fd_inv d1" by (simp add: fd_ok_def)
  from alloc_frames_ok [OF this a] have ok2: "fd_ok d1 (d2, es2)" .
  then have "fd_ok d (then_do (d1, es) (\<lambda>_. (d2, es2)))" using ok1 fd_ok_then by fastforce
  then have both: "fd_ok d (d2, es @ es2)" by (simp add: then_do_def)
  have "fd_inv d2" using ok2 by (simp add: fd_ok_def)
  from fd_ok_then [OF both] decode_packet_ok [OF this assms(2)]
  have "fd_ok d (then_do (d2, es @ es2) (decode_packet env))" by simp
  with both show "fd_ok d r" using assms(4) c a by (auto simp: ffmpeg_decode_video_def split: if_splits)
  have "fst (then_do (d2, es @ es2) (decode_packet env)) = d2" by (simp add: decode_packet_def)
  then show "fd_frame (fst r)" if "got"
    using that assms(4) c a alloc_frames_frame by (fastforce simp: ffmpeg_decode_video_def split: if_splits)
qed

subsection \<open>The software backend is monitored\<close>

definition sw_view :: "zc_hw_sw \<Rightarrow> av_count" where
  "sw_view s = fd_view (sw_decoder s)"

definition sw_inv :: "zc_hw_sw \<Rightarrow> bool" where
  "sw_inv s \<longleftrightarrow> fd_inv (sw_decoder s) \<and> (\<not> sw_valid s \<longrightarrow> sw_decoder s = fd_zero)"

lemma sw_open_ok:
  assumes "sw_inv s" "ao_context env" "sw_open env s = (ok, s1, es)"
  shows "sw_inv s1" "mon_run av_monitor es (sw_view s) = Some (sw_view s1)" "ok = sw_valid s1"
proof -
  obtain fine r where i: "ffmpeg_decode_init env False = (fine, r)" by (metis surj_pair)
  from init_ok [OF assms(2) i] assms(1,3) i
  show "sw_inv s1" "mon_run av_monitor es (sw_view s) = Some (sw_view s1)" "ok = sw_valid s1"
    by (auto simp: sw_open_def sw_inv_def sw_view_def fd_ok_def tracked_def split: if_splits prod.splits)
qed

lemma sw_step_ok:
  assumes "sw_inv s" "sw_ok pad i"
  shows "sw_inv (fst (sw_step pad i s)) \<and> tracked av_monitor sw_view s (sw_step pad i s)"
proof (cases i)
  case (SwParams w h cs rng trc)
  with assms show ?thesis by (simp add: sw_inv_def sw_view_def sw_set_params_def tracked_def)
next
  case (SwDecode oenv env sz pts)
  obtain opened s1 es where o: "sw_open oenv s = (opened, s1, es)" by (metis prod.collapse)
  have "ao_context oenv" "ad_packet env" "unat sz + unat pad < 2 ^ 64" using assms(2) SwDecode by simp_all
  note step = this
  note o1 = sw_open_ok [OF assms(1) step(1) o]
  show ?thesis
  proof (cases opened)
    case False
    with o1 o SwDecode show ?thesis by (simp add: sw_decode_def tracked_def)
  next
    case True
    obtain ok got ts p d es1 where
      v: "ffmpeg_decode_video pad env sz pts (sw_cs s1) (sw_range s1) (sw_frame s1) (sw_decoder s1) = (((ok, got), ts, p), d, es1)"
      by (metis prod.collapse)
    have "fd_inv (sw_decoder s1)" using o1(1) by (simp add: sw_inv_def)
    note dv = decode_video_ok [OF this step(2,3) v]
    have run: "mon_run av_monitor (es @ es1) (sw_view s) = Some (fd_view d)"
      using dv(1) o1(2) by (simp add: fd_ok_def tracked_def sw_view_def)
    have "got \<Longrightarrow> fd_view d AkFrame \<noteq> 0" using dv(2) by simp
    with run dv(1) o1 o True SwDecode v show ?thesis
      by (auto simp: sw_decode_def tracked_def sw_inv_def sw_view_def fd_ok_def Let_def split: option.splits)
  qed
qed

interpretation swb: monitored "guarded (sw_ok pad) (sw_step pad)" sw_inv av_monitor sw_view for pad
  by unfold_locales (use sw_step_ok in \<open>auto simp: guarded_def tracked_def\<close>)

lemma sw_destroy_empties:
  assumes "sw_inv s"
  shows "mon_run av_monitor (snd (sw_destroy s)) (sw_view s) = Some none_left"
proof (cases "sw_valid s")
  case True
  with free_tracked [of "sw_decoder s"] show ?thesis
    by (simp add: sw_destroy_def sw_view_def tracked_def free_inv fd_view_zero split_beta)
next
  case False
  with assms show ?thesis by (simp add: sw_destroy_def sw_inv_def sw_view_def fd_view_zero)
qed

text \<open>
  C35. The software decoder neither leaks nor overruns: whatever access units it is given and whatever
  libavcodec answers, every padded copy of an access unit fits the packet buffer, every library
  object is released exactly once, also when the decoder cannot be opened, and after the destroy
  nothing is left.
\<close>

theorem sw_decoder_resources:
  assumes "list_all (sw_ok pad) inputs"
  shows "mon_run av_monitor
     (snd (run_trace (sw_step pad) inputs (zc_hw_sw_create codec))
      @ snd (sw_destroy (fst (run_trace (sw_step pad) inputs (zc_hw_sw_create codec))))) none_left = Some none_left"
proof -
  have init: "sw_inv (zc_hw_sw_create codec)" "sw_view (zc_hw_sw_create codec) = none_left"
    by (simp_all add: zc_hw_sw_create_def sw_inv_def sw_view_def fd_view_zero fd_zero_inv)
  from swb.run_accepted [OF init(1), of pad inputs] swb.run_inv [OF init(1), of pad inputs] show ?thesis
    using sw_destroy_empties by (simp add: run_trace_guarded [OF assms] init(2))
qed

definition open_fine :: av_open_env where
  "open_fine = \<lparr>ao_find = True, ao_context = True, ao_hw_config = (\<lambda>_. False), ao_device = (\<lambda>_. False), ao_open = True\<rparr>"

definition full_range_frame :: av_frame where
  "full_range_frame = \<lparr>fr_format = AV_PIX_FMT_YUVJ420P, fr_width = 4, fr_height = 2, fr_jpeg_range = True,
     fr_colorspace = AVCOL_SPC_BT709, fr_color_trc = AVCOL_TRC_BT709, fr_bt2020 = False, fr_pts = 7, fr_data0 = True,
     fr_linesize = (\<lambda>_. 8)\<rparr>"

definition decode_fine :: av_decode_env where
  "decode_fine = \<lparr>ad_frame = True, ad_hw_frame = True, ad_packet = True, ad_send = AvOk, ad_receive = AvOk,
     ad_transfer = True, ad_params = (\<lambda>_ _ _. True), ad_picture = full_range_frame\<rparr>"

theorem sw_decoder_resources_witness:
  "mon_run av_monitor
     (snd (run_trace (sw_step 64) [SwDecode open_fine decode_fine 100 5, SwDecode open_fine decode_fine 200 6] (zc_hw_sw_create ZC_CODEC_H264))
      @ snd (sw_destroy (fst (run_trace (sw_step 64) [SwDecode open_fine decode_fine 100 5, SwDecode open_fine decode_fine 200 6]
          (zc_hw_sw_create ZC_CODEC_H264))))) none_left = Some none_left"
  by (rule sw_decoder_resources) (simp add: open_fine_def decode_fine_def)

subsection \<open>The pictures\<close>

text \<open>The only caller of \<^verbatim>\<open>set_video_params\<close> is \<^verbatim>\<open>onMeta\<close>, which always passes the partial range.\<close>

fun partial_input :: "sw_input \<Rightarrow> bool" where
  "partial_input (SwParams w h cs rng trc) \<longleftrightarrow> rng = VIDEO_RANGE_PARTIAL"
| "partial_input (SwDecode oenv env sz pts) \<longleftrightarrow> True"

fun labelled_partial :: "av_event \<Rightarrow> bool" where
  "labelled_partial (AvPicture p) \<longleftrightarrow> \<not> of_full_range p \<and> of_format p \<noteq> VIDEO_FORMAT_NONE"
| "labelled_partial _ \<longleftrightarrow> True"

lemma deliver_picture_partial:
  "deliver_picture env ts cs VIDEO_RANGE_PARTIAL hw p = ((ok, True), ts', p') \<Longrightarrow> \<not> of_full_range p' \<and> of_format p' \<noteq> VIDEO_FORMAT_NONE"
  by (auto simp: deliver_picture_def Let_def settle_range_def take_picture_def take_planes_def split: av_ret.splits if_splits)

lemma got_delivered:
  assumes "ffmpeg_decode_video pad env sz ts cs rng p d = (((ok, True), ts', p'), r)"
  shows "deliver_picture env ts cs rng (fd_hw (fst (snd (alloc_frames env (fst (copy_data pad sz d)))))) p = ((ok, True), ts', p')"
  using assms by (auto simp: ffmpeg_decode_video_def split: prod.splits if_splits)

lemma sw_decode_partial:
  assumes "sw_range s = VIDEO_RANGE_PARTIAL" "sw_decode pad oenv env sz pts s = ((ok, Some p), r)"
  shows "\<not> of_full_range p \<and> of_format p \<noteq> VIDEO_FORMAT_NONE"
proof -
  obtain opened s1 es where o: "sw_open oenv s = (opened, s1, es)" by (metis prod.collapse)
  have rng: "sw_range s1 = VIDEO_RANGE_PARTIAL"
    using o assms(1) by (auto simp: sw_open_def split: if_splits prod.splits)
  obtain ok1 got ts q r1 where
    v: "ffmpeg_decode_video pad env sz pts (sw_cs s1) (sw_range s1) (sw_frame s1) (sw_decoder s1) = (((ok1, got), ts, q), r1)"
    by (metis prod.collapse)
  with o assms(2) have p: "ok1" "got" "p = q\<lparr>sp_timestamp := ts * 1000\<rparr>"
    by (auto simp: sw_decode_def Let_def split: if_splits prod.splits)
  from got_delivered v p(2) rng have "\<not> of_full_range q \<and> of_format q \<noteq> VIDEO_FORMAT_NONE"
    using deliver_picture_partial by (metis (full_types))
  with p(3) show ?thesis by simp
qed

lemma sw_range_kept: "sw_range (fst (snd (sw_decode pad oenv env sz pts s))) = sw_range s"
  by (auto simp: sw_decode_def sw_open_def Let_def split: prod.splits if_splits)

interpretation swp: trace_system "guarded partial_input (sw_step pad)" "\<lambda>s. sw_range s = VIDEO_RANGE_PARTIAL" for pad
proof
  fix s :: zc_hw_sw and i :: sw_input
  assume "sw_range s = VIDEO_RANGE_PARTIAL"
  then show "sw_range (fst (guarded partial_input (sw_step pad) i s)) = VIDEO_RANGE_PARTIAL"
    using sw_range_kept by (cases i) (auto simp: guarded_def sw_set_params_def split: prod.split, metis fst_conv snd_conv)
qed

lemma no_picture_events:
  "AvPicture p \<notin> set (snd (copy_data pad sz d))" "AvPicture p \<notin> set (snd (snd (alloc_frames env d)))"
  "AvPicture p \<notin> set (snd (decode_packet env d))" "AvPicture p \<notin> set (snd (snd (ffmpeg_decode_init oenv hw)))"
  by (auto simp: copy_data_def alloc_frames_def decode_packet_def ffmpeg_decode_init_def init_hw_decoder_def
      ffmpeg_decode_free_def free_context_def Let_def split: option.splits if_splits)

lemma decode_no_picture: "AvPicture p \<notin> set (snd (snd (sw_decode pad oenv env sz pts s)))"
proof -
  have "AvPicture p \<notin> set (snd (snd (ffmpeg_decode_video pad env sz pts cs rng q d)))" for cs rng q d
    by (simp add: ffmpeg_decode_video_def split_beta no_picture_events)
  moreover have "AvPicture p \<notin> set (snd (snd (sw_open oenv s)))"
    using no_picture_events(4) [of p oenv False] by (simp add: sw_open_def split_beta)
  ultimately show ?thesis by (simp add: sw_decode_def Let_def split_beta)
qed

lemma sw_step_partial:
  assumes "sw_range s = VIDEO_RANGE_PARTIAL" "e \<in> set (snd (guarded partial_input (sw_step pad) i s))"
  shows "labelled_partial e"
proof (cases e)
  case (AvPicture p)
  then obtain oenv env sz pts where i: "i = SwDecode oenv env sz pts"
    using assms(2) by (cases i) (auto simp: guarded_def split: if_splits)
  obtain ok out s1 es where d: "sw_decode pad oenv env sz pts s = ((ok, out), s1, es)" by (metis prod.collapse)
  have "out = Some p"
    using assms(2) AvPicture i d decode_no_picture [of p pad oenv env sz pts s]
    by (auto simp: guarded_def split: option.splits)
  with sw_decode_partial [OF assms(1)] d AvPicture show ?thesis by simp
qed simp_all

text \<open>
  Every picture of the software decoder has a known format and is labelled partial range: with the
  parameters the source passes, whatever the stream declares, \<^verbatim>\<open>frame2.range\<close> is never full. The
  conversion to RGBA therefore never sees a full-range picture as one, although it is written to
  tell swscale the range of the source.
\<close>

theorem sw_pictures_partial:
  assumes "list_all partial_input inputs"
  shows "list_all labelled_partial (snd (run_trace (sw_step pad) inputs (zc_hw_sw_create codec)))"
proof -
  have "sw_range (zc_hw_sw_create codec) = VIDEO_RANGE_PARTIAL" by (simp add: zc_hw_sw_create_def)
  then have "labelled_partial e" if "e \<in> set (snd (run_trace (guarded partial_input (sw_step pad)) inputs (zc_hw_sw_create codec)))" for e
    by (rule swp.run_events [where P = labelled_partial, OF _ _ that]) (use sw_step_partial in blast)+
  then show ?thesis by (simp add: list_all_iff run_trace_guarded [OF assms])
qed

theorem sw_pictures_partial_witness:
  "list_all labelled_partial (snd (run_trace (sw_step 64)
     [SwParams 4 2 VIDEO_CS_DEFAULT VIDEO_RANGE_PARTIAL VIDEO_TRC_DEFAULT, SwDecode open_fine decode_fine 100 5] (zc_hw_sw_create ZC_CODEC_H264)))
   \<and> (\<exists>p. AvPicture p \<in> set (snd (run_trace (sw_step 64)
     [SwParams 4 2 VIDEO_CS_DEFAULT VIDEO_RANGE_PARTIAL VIDEO_TRC_DEFAULT, SwDecode open_fine decode_fine 100 5] (zc_hw_sw_create ZC_CODEC_H264))))"
proof -
  let ?in = "[SwParams 4 2 VIDEO_CS_DEFAULT VIDEO_RANGE_PARTIAL VIDEO_TRC_DEFAULT, SwDecode open_fine decode_fine 100 5]"
  have "\<exists>p. AvPicture p \<in> set (snd (run_trace (sw_step 64) ?in (zc_hw_sw_create ZC_CODEC_H264)))"
    by (simp add: zc_hw_sw_create_def sw_set_params_def sw_decode_def sw_open_def ffmpeg_decode_init_def open_fine_def
        decode_fine_def fd_zero_def ffmpeg_decode_video_def copy_data_def alloc_frames_def decode_packet_def
        deliver_picture_def codec_result_def take_planes_def take_picture_def full_range_frame_def settle_range_def then_do_def Let_def)
  then show ?thesis using sw_pictures_partial [of ?in 64 ZC_CODEC_H264] by simp
qed

subsection \<open>What the source shows\<close>

text \<open>The picture in the CPU frame of the source after one access unit, when there is one.\<close>

definition shown :: "(video_format \<Rightarrow> u32 \<Rightarrow> u32 \<Rightarrow> bool) \<Rightarrow> cpu_frame \<Rightarrow> (bool \<times> sw_picture option) \<Rightarrow> bool" where
  "shown sws_ok c r = (case r of (ok, None) \<Rightarrow> False | (ok, Some p) \<Rightarrow> ok \<and> fst (fst (output_cpu sws_ok (obs_source_frame2.truncate p) c)))"

text \<open>
  Which streams the software path can show: after the library has decoded a picture into planes, the source
  shows it exactly when it is 4:2:0 with 8 bits, or with 10 bits in little endian; every other pixel format, 4:2:2
  among them, leaves the source without a picture.
\<close>

theorem sw_shown_formats:
  assumes "sw_valid s" "fd_frame (sw_decoder s)" "\<not> fd_hw (sw_decoder s)" "codec_result env = AvOk"
    and "\<And>cs rng fmt. fmt \<noteq> VIDEO_FORMAT_NONE \<Longrightarrow> ad_params env cs rng fmt"
    and "fr_data0 (ad_picture env)" "fr_linesize (ad_picture env) 0 \<noteq> 0" "\<And>fmt w h. sws_ok fmt w h"
  shows "shown sws_ok c (fst (sw_decode pad oenv env sz pts s)) \<longleftrightarrow>
    fr_format (ad_picture env) \<in> {AV_PIX_FMT_YUV420P, AV_PIX_FMT_YUVJ420P, AV_PIX_FMT_NV12, AV_PIX_FMT_YUV420P10LE, AV_PIX_FMT_P010LE}"
proof -
  let ?fmt = "convert_pixel_format (fr_format (ad_picture env))"
  let ?range = "settle_range (sw_range s) (ad_picture env)"
  let ?p = "(take_picture ?range (ad_picture env) (take_planes (ad_picture env) (sw_frame s)))\<lparr>sp_timestamp := fr_pts (ad_picture env) * 1000\<rparr>"
  have kept: "fd_frame (fst (copy_data pad sz d)) = fd_frame d" "fd_hw (fst (copy_data pad sz d)) = fd_hw d" for d
    by (simp_all add: copy_data_def Let_def)
  have "alloc_frames env (fst (copy_data pad sz (sw_decoder s))) = (True, fst (copy_data pad sz (sw_decoder s)), [])"
    using assms(2) by (simp add: alloc_frames_def kept)
  then have dec: "fst (sw_decode pad oenv env sz pts s) = (?fmt \<noteq> VIDEO_FORMAT_NONE, if ?fmt \<noteq> VIDEO_FORMAT_NONE then Some ?p else None)"
    using assms(1,3,4,5)
    by (simp add: sw_decode_def sw_open_def ffmpeg_decode_video_def deliver_picture_def Let_def kept split_beta
        take_planes_def take_picture_def)
  have "fst (fst (output_cpu sws_ok (obs_source_frame2.truncate ?p) c)) = planar ?fmt"
    using assms(6,7,8)
    by (simp add: output_cpu_def Let_def split_beta take_planes_def take_picture_def obs_source_frame2.defs setup_sws_def)
  then have "shown sws_ok c (fst (sw_decode pad oenv env sz pts s)) \<longleftrightarrow> ?fmt \<noteq> VIDEO_FORMAT_NONE \<and> planar ?fmt"
    by (simp add: dec shown_def)
  then show ?thesis by (cases "fr_format (ad_picture env)") simp_all
qed

theorem sw_shown_formats_witness:
  "shown (\<lambda>_ _ _. True) cpu_init (fst (sw_decode 64 open_fine decode_fine 100 5
     ((zc_hw_sw_create ZC_CODEC_H264)\<lparr>sw_valid := True, sw_decoder := fd_zero\<lparr>fd_decoder := Some False, fd_frame := True\<rparr>\<rparr>)))"
  by (subst sw_shown_formats) (simp_all add: fd_zero_def decode_fine_def codec_result_def full_range_frame_def)

end
