(* ===== verification/Hw_Ffmpeg.thy ===== *)
theory Hw_Ffmpeg
  imports Sw_Backend
begin

text \<open>
  The hardware decoder on FFmpeg, \<^verbatim>\<open>src/hwdecode/hw_decode_ffmpeg.cpp\<close>: detection of a device, the
  callback that picks a pixel format, creation with all its failure paths, decoding and
  destruction. The answers of libavcodec and of the graphics system are records; the operating
  system selects the preprocessor branches. Import of the surfaces has its own theory.
\<close>

datatype os = Windows | MacOS | Linux

subsection \<open>Formats and devices\<close>

fun zc_av_to_obs_format :: "av_pix_fmt \<Rightarrow> video_format" where
  "zc_av_to_obs_format AV_PIX_FMT_NONE = VIDEO_FORMAT_NONE"
| "zc_av_to_obs_format AV_PIX_FMT_NV12 = VIDEO_FORMAT_NV12"
| "zc_av_to_obs_format AV_PIX_FMT_YUV420P = VIDEO_FORMAT_I420"
| "zc_av_to_obs_format AV_PIX_FMT_YUVJ420P = VIDEO_FORMAT_I420"
| "zc_av_to_obs_format AV_PIX_FMT_YUV420P10LE = VIDEO_FORMAT_I010"
| "zc_av_to_obs_format AV_PIX_FMT_YUV420P10BE = VIDEO_FORMAT_I010"
| "zc_av_to_obs_format AV_PIX_FMT_P010LE = VIDEO_FORMAT_P010"
| "zc_av_to_obs_format AV_PIX_FMT_P010BE = VIDEO_FORMAT_P010"
| "zc_av_to_obs_format AV_PIX_FMT_YUYV422 = VIDEO_FORMAT_YUY2"
| "zc_av_to_obs_format AV_PIX_FMT_YUV422P = VIDEO_FORMAT_I422"
| "zc_av_to_obs_format AV_PIX_FMT_YUVJ422P = VIDEO_FORMAT_I422"
| "zc_av_to_obs_format AV_PIX_FMT_RGBA = VIDEO_FORMAT_RGBA"
| "zc_av_to_obs_format AV_PIX_FMT_BGRA = VIDEO_FORMAT_BGRA"
| "zc_av_to_obs_format _ = VIDEO_FORMAT_NV12"

definition zc_to_hw_type :: "os \<Rightarrow> zc_hw_backend \<Rightarrow> av_hw_type" where
  "zc_to_hw_type os backend =
     (if os = Windows \<and> backend = ZC_HW_CUDA then AV_HWDEVICE_TYPE_CUDA
      else if os = Windows \<and> backend = ZC_HW_D3D11VA then AV_HWDEVICE_TYPE_D3D11VA
      else if os = MacOS \<and> backend = ZC_HW_VIDEOTOOLBOX then AV_HWDEVICE_TYPE_VIDEOTOOLBOX
      else AV_HWDEVICE_TYPE_NONE)"

fun zc_hw_ffmpeg_type_name :: "av_hw_type \<Rightarrow> string" where
  "zc_hw_ffmpeg_type_name AV_HWDEVICE_TYPE_CUDA = ''CUDA (NVDEC)''"
| "zc_hw_ffmpeg_type_name AV_HWDEVICE_TYPE_D3D11VA = ''D3D11VA''"
| "zc_hw_ffmpeg_type_name AV_HWDEVICE_TYPE_VIDEOTOOLBOX = ''VideoToolbox''"
| "zc_hw_ffmpeg_type_name AV_HWDEVICE_TYPE_QSV = ''Intel QSV''"
| "zc_hw_ffmpeg_type_name AV_HWDEVICE_TYPE_DXVA2 = ''DXVA2''"
| "zc_hw_ffmpeg_type_name AV_HWDEVICE_TYPE_NONE = ''unknown''"

text \<open>What the library answers about a codec: whether there is a decoder, its hardware configurations (whether
  the device-context method is offered, and the device type), and which devices can be opened.\<close>

record hw_probe =
  hp_decoder :: "zc_codec_id \<Rightarrow> bool"
  hp_configs :: "zc_codec_id \<Rightarrow> (bool \<times> av_hw_type) list"
  hp_opens :: "av_hw_type \<Rightarrow> bool"

text \<open>The array of priorities of each platform, as it is written: on Windows and macOS it has no
  terminating \<^verbatim>\<open>AV_HWDEVICE_TYPE_NONE\<close>.\<close>

fun hw_priorities :: "os \<Rightarrow> av_hw_type list" where
  "hw_priorities Windows = [AV_HWDEVICE_TYPE_D3D11VA]"
| "hw_priorities MacOS = [AV_HWDEVICE_TYPE_VIDEOTOOLBOX]"
| "hw_priorities Linux = [AV_HWDEVICE_TYPE_NONE]"

text \<open>The loop over the priorities; \<open>None\<close> is a read behind the end of the array. The first configuration
  of the type decides.\<close>

fun pick_priority :: "hw_probe \<Rightarrow> zc_codec_id \<Rightarrow> av_hw_type list \<Rightarrow> av_hw_type option" where
  "pick_priority pr codec [] = None"
| "pick_priority pr codec (t # ts) =
     (if t = AV_HWDEVICE_TYPE_NONE then Some AV_HWDEVICE_TYPE_NONE
      else if (True, t) \<in> set (hp_configs pr codec) \<and> hp_opens pr t then Some t
      else pick_priority pr codec ts)"

definition pick_hw_device :: "os \<Rightarrow> hw_probe \<Rightarrow> zc_hw_backend \<Rightarrow> zc_codec_id \<Rightarrow> av_hw_type option" where
  "pick_hw_device os pr requested codec =
     (if \<not> hp_decoder pr codec then Some AV_HWDEVICE_TYPE_NONE
      else if zc_to_hw_type os requested \<noteq> AV_HWDEVICE_TYPE_NONE then Some (zc_to_hw_type os requested)
      else pick_priority pr codec (hw_priorities os))"

fun backend_of :: "av_hw_type \<Rightarrow> zc_hw_backend" where
  "backend_of AV_HWDEVICE_TYPE_CUDA = ZC_HW_CUDA"
| "backend_of AV_HWDEVICE_TYPE_D3D11VA = ZC_HW_D3D11VA"
| "backend_of AV_HWDEVICE_TYPE_VIDEOTOOLBOX = ZC_HW_VIDEOTOOLBOX"
| "backend_of _ = ZC_HW_SOFTWARE"

definition zc_hw_ffmpeg_detect :: "os \<Rightarrow> hw_probe \<Rightarrow> zc_hw_backend \<Rightarrow> zc_codec_id \<Rightarrow> zc_hw_backend option" where
  "zc_hw_ffmpeg_detect os pr requested codec = map_option backend_of (pick_hw_device os pr requested codec)"

subsection \<open>The pixel format callback\<close>

text \<open>The log line of the first call: the names go to a buffer of 256 chars. A write is its offset and its
  length with the terminator, cut to the size that \<^verbatim>\<open>snprintf\<close> is given, which is computed in
  64 bits from a position that counts the full names.\<close>

fun log_names :: "string list \<Rightarrow> nat \<Rightarrow> (nat \<times> nat) list" where
  "log_names [] pos = []"
| "log_names (nm # nms) pos =
     (let n = length nm + (if pos \<noteq> 0 then 1 else 0);
          room = unat (256 - of_nat pos :: u64) in
      (pos, min (n + 1) room) # (if n = 0 then [] else log_names nms (pos + n)))"

fun find_format :: "av_pix_fmt \<Rightarrow> av_pix_fmt list \<Rightarrow> bool" where
  "find_format hw [] = True"
| "find_format hw (p # ps) = (if p = hw then True else if ps = [] then False else find_format hw ps)"

text \<open>The offered formats without their terminator, which is what an empty list is; the Boolean is the flag that
  admits the baseline profile.\<close>

definition zc_get_format :: "av_pix_fmt \<Rightarrow> zc_codec_id \<Rightarrow> bool \<Rightarrow> av_pix_fmt list \<Rightarrow> av_pix_fmt \<times> bool" where
  "zc_get_format hw_fmt codec baseline offered =
     (let first = (case offered of [] \<Rightarrow> AV_PIX_FMT_NONE | p # _ \<Rightarrow> p) in
      if hw_fmt = AV_PIX_FMT_NONE then (first, False)
      else if \<not> find_format hw_fmt offered then (first, False)
      else (hw_fmt, hw_fmt = AV_PIX_FMT_D3D11 \<and> codec = ZC_CODEC_H264 \<and> baseline))"

subsection \<open>Creation\<close>

text \<open>The context of the codec owns a device reference and possibly a frames context; the decoder owns a
  device reference, the context and its frame.\<close>

record hw_ffmpeg =
  hf_backend :: zc_hw_backend
  hf_codec :: zc_codec_id
  hf_device :: bool
  hf_context :: "(bool \<times> bool) option"
  hf_frame :: bool
  hf_pix_fmt :: av_pix_fmt
  hf_sw_fmt :: av_pix_fmt
  hf_width :: int
  hf_height :: int
  hf_cuda_device :: int
  hf_open :: bool

definition hf_new :: "zc_hw_backend \<Rightarrow> int \<Rightarrow> int \<Rightarrow> zc_codec_id \<Rightarrow> hw_ffmpeg" where
  "hf_new backend width height codec =
     \<lparr>hf_backend = backend, hf_codec = codec, hf_device = False, hf_context = None, hf_frame = False,
      hf_pix_fmt = AV_PIX_FMT_NONE, hf_sw_fmt = AV_PIX_FMT_NV12, hf_width = width, hf_height = height,
      hf_cuda_device = - 1, hf_open = False\<rparr>"

record hw_create_env =
  hc_new :: bool
  hc_obs_device :: bool
  hc_ctx_alloc :: bool
  hc_ctx_d3d :: bool
  hc_ctx_init :: bool
  hc_cuda_device :: int
  hc_device_create :: bool
  hc_find :: bool
  hc_context :: bool
  hc_frame :: bool
  hc_frames_alloc :: bool
  hc_frames_init :: bool
  hc_open :: bool

definition ffmpeg_free_context :: "(bool \<times> bool) option \<Rightarrow> av_event list" where
  "ffmpeg_free_context c =
     (case c of None \<Rightarrow> []
      | Some (dev, frames) \<Rightarrow> (if frames then [AvFree AkFramesRef] else []) @ (if dev then [AvFree AkDeviceRef] else []) @ [AvFree AkContext])"

definition ffmpeg_destroy :: "hw_ffmpeg \<Rightarrow> av_event list" where
  "ffmpeg_destroy f =
     (if hf_frame f then [AvFree AkFrame] else []) @ ffmpeg_free_context (hf_context f)
     @ (if hf_device f then [AvFree AkDeviceRef] else [])"

text \<open>Binding the OBS device: on failure the fresh context is released again.\<close>

definition bind_obs_device :: "hw_create_env \<Rightarrow> hw_ffmpeg \<Rightarrow> hw_ffmpeg \<times> av_event list" where
  "bind_obs_device env f =
     (if hc_obs_device env \<and> hc_ctx_alloc env
      then (if hc_ctx_d3d env \<and> hc_ctx_init env then (f\<lparr>hf_device := True\<rparr>, [AvNew AkDeviceRef])
            else (f, [AvNew AkDeviceRef, AvFree AkDeviceRef]))
      else (f, []))"

text \<open>\<open>None\<close>: the decoder is deleted and the null pointer returned.\<close>

definition open_device :: "os \<Rightarrow> hw_create_env \<Rightarrow> av_hw_type \<Rightarrow> hw_ffmpeg \<Rightarrow> hw_ffmpeg option \<times> av_event list" where
  "open_device os env t f =
     (case (if os = Windows \<and> t = AV_HWDEVICE_TYPE_D3D11VA then bind_obs_device env f else (f, [])) of
        (f1, es) \<Rightarrow>
          if hf_device f1 then (Some f1, es)
          else
            (let cuda = (os = Windows \<and> t = AV_HWDEVICE_TYPE_CUDA);
                 f2 = (if cuda then f1\<lparr>hf_cuda_device := hc_cuda_device env\<rparr> else f1) in
             if cuda \<and> hf_cuda_device f2 < 0 then (None, es)
             else if \<not> hc_device_create env then (None, es)
             else (Some (f2\<lparr>hf_device := True\<rparr>), es @ [AvNew AkDeviceRef])))"

definition pix_fmt_of :: "os \<Rightarrow> av_hw_type \<Rightarrow> av_pix_fmt" where
  "pix_fmt_of os t =
     (if os = Windows \<and> t = AV_HWDEVICE_TYPE_D3D11VA then AV_PIX_FMT_D3D11
      else if os = Windows \<and> t = AV_HWDEVICE_TYPE_CUDA then AV_PIX_FMT_CUDA
      else if os = Windows \<and> t = AV_HWDEVICE_TYPE_DXVA2 then AV_PIX_FMT_DXVA2_VLD
      else if os = Windows \<and> t = AV_HWDEVICE_TYPE_QSV then AV_PIX_FMT_QSV
      else if os = MacOS \<and> t = AV_HWDEVICE_TYPE_VIDEOTOOLBOX then AV_PIX_FMT_VIDEOTOOLBOX
      else AV_PIX_FMT_NONE)"

text \<open>The frames context of D3D11VA. \<^verbatim>\<open>av_hwframe_ctx_alloc\<close> makes a device reference of its own and leaves
  the one it is passed to the caller, which here is a fresh one that nobody keeps.\<close>

definition wants_frames :: "os \<Rightarrow> av_hw_type \<Rightarrow> hw_ffmpeg \<Rightarrow> bool" where
  "wants_frames os t f \<longleftrightarrow> os = Windows \<and> t = AV_HWDEVICE_TYPE_D3D11VA \<and> hf_width f > 0 \<and> hf_height f > 0"

definition build_frames :: "os \<Rightarrow> hw_create_env \<Rightarrow> av_hw_type \<Rightarrow> bool \<Rightarrow> hw_ffmpeg \<Rightarrow> hw_ffmpeg \<times> av_event list" where
  "build_frames os env t ten_bit f =
     (if wants_frames os t f
      then (if hc_frames_alloc env
            then (let f1 = f\<lparr>hf_sw_fmt := (if ten_bit then AV_PIX_FMT_P010LE else AV_PIX_FMT_NV12)\<rparr> in
                  if hc_frames_init env
                  then (f1\<lparr>hf_context := Some (True, True)\<rparr>, [AvNew AkDeviceRef, AvNew AkFramesRef])
                  else (f1, [AvNew AkDeviceRef, AvNew AkFramesRef, AvFree AkFramesRef]))
            else (f, [AvNew AkDeviceRef]))
      else (f, []))"

definition open_codec :: "os \<Rightarrow> hw_create_env \<Rightarrow> av_hw_type \<Rightarrow> bool \<Rightarrow> hw_ffmpeg \<Rightarrow> hw_ffmpeg option \<times> av_event list" where
  "open_codec os env t ten_bit f =
     (if \<not> hc_find env \<or> \<not> hc_context env then (None, ffmpeg_destroy f)
      else
        (let f1 = f\<lparr>hf_context := Some (True, False)\<rparr>; es = [AvNew AkContext, AvNew AkDeviceRef] in
         if \<not> hc_frame env then (None, es @ ffmpeg_destroy f1)
         else
           (case build_frames os env t ten_bit (f1\<lparr>hf_frame := True, hf_pix_fmt := pix_fmt_of os t\<rparr>) of
              (f2, es2) \<Rightarrow>
                if hc_open env then (Some (f2\<lparr>hf_open := True\<rparr>), es @ [AvNew AkFrame] @ es2)
                else (None, es @ [AvNew AkFrame] @ es2 @ ffmpeg_destroy f2))))"

definition zc_hw_ffmpeg_create ::
  "os \<Rightarrow> hw_probe \<Rightarrow> hw_create_env \<Rightarrow> zc_hw_backend \<Rightarrow> int \<Rightarrow> int \<Rightarrow> zc_codec_id \<Rightarrow> bool
    \<Rightarrow> (hw_ffmpeg option \<times> av_event list) option" where
  "zc_hw_ffmpeg_create os pr env backend width height codec ten_bit =
     (if \<not> hc_new env then Some (None, [])
      else
        (case pick_hw_device os pr backend codec of
           None \<Rightarrow> None
         | Some t \<Rightarrow>
             if t = AV_HWDEVICE_TYPE_NONE then Some (None, [])
             else
               (case open_device os env t (hf_new backend width height codec) of
                  (None, es) \<Rightarrow> Some (None, es)
                | (Some f, es) \<Rightarrow> (case open_codec os env t ten_bit f of (r, es2) \<Rightarrow> Some (r, es @ es2)))))"

subsection \<open>Decoding\<close>

record hw_decode_env =
  hd_packet :: bool
  hd_packet_data :: bool
  hd_send :: av_ret
  hd_receive :: av_ret
  hd_owned :: bool
  hd_width :: u32
  hd_height :: u32
  hd_format :: av_pix_fmt
  hd_sw_format :: "av_pix_fmt option"

record hw_out =
  ho_backend :: zc_hw_backend
  ho_width :: u32
  ho_height :: u32
  ho_format :: video_format
  ho_timestamp :: u64

text \<open>The result is the returned Boolean and the frame handed out. A decoder that asks to be drained first
  (\<open>AvAgain\<close>) has not taken the packet, which is gone then.\<close>

definition ffmpeg_decode_hw :: "hw_decode_env \<Rightarrow> u64 \<Rightarrow> hw_ffmpeg \<Rightarrow> (bool \<times> hw_out option) \<times> av_event list" where
  "ffmpeg_decode_hw env pts f =
     (if hf_context f = None then ((False, None), [])
      else if \<not> hd_packet env then ((False, None), [])
      else
        (let es = [AvNew AkPacket, AvFree AkPacket] in
         if \<not> hd_packet_data env then ((False, None), es)
         else if hd_send env \<noteq> AvOk \<and> hd_send env \<noteq> AvAgain then ((False, None), es)
         else if hd_receive env = AvAgain \<or> hd_receive env = AvEof then ((True, None), es)
         else if hd_receive env \<noteq> AvOk then ((False, None), es)
         else if \<not> hd_owned env then ((False, None), es)
         else
           ((True, Some
              \<lparr>ho_backend = hf_backend f,
               ho_width = (if hd_width env \<noteq> 0 then hd_width env else of_int (hf_width f)),
               ho_height = (if hd_height env \<noteq> 0 then hd_height env else of_int (hf_height f)),
               ho_format = zc_av_to_obs_format (case hd_sw_format env of None \<Rightarrow> hd_format env | Some g \<Rightarrow> g),
               ho_timestamp = (if sint pts \<ge> 0 then pts else 0) * 1000\<rparr>),
            es @ [AvNew AkFrame])))"

definition ffmpeg_set_params :: "int \<Rightarrow> int \<Rightarrow> hw_ffmpeg \<Rightarrow> hw_ffmpeg" where
  "ffmpeg_set_params width height f = f\<lparr>hf_width := width, hf_height := height\<rparr>"

subsection \<open>Detection\<close>

definition auto_device :: "os \<Rightarrow> av_hw_type" where
  "auto_device os = (if os = Windows then AV_HWDEVICE_TYPE_D3D11VA else AV_HWDEVICE_TYPE_VIDEOTOOLBOX)"

lemma pick_None_iff:
  "pick_hw_device os pr requested codec = None \<longleftrightarrow>
     os \<noteq> Linux \<and> hp_decoder pr codec \<and> zc_to_hw_type os requested = AV_HWDEVICE_TYPE_NONE
     \<and> \<not> ((True, auto_device os) \<in> set (hp_configs pr codec) \<and> hp_opens pr (auto_device os))"
  by (cases os) (simp_all add: pick_hw_device_def auto_device_def)


subsection \<open>The pixel format callback\<close>

lemma find_format_iff: "ps \<noteq> [] \<Longrightarrow> find_format hw ps \<longleftrightarrow> hw \<in> set ps"
  by (induction ps) auto

text \<open>
  The format callback never invents a format: out of a non-empty offer it returns the hardware format when it is
  offered and the first format otherwise, and it admits the baseline profile only when it returns
  the D3D11 format of an H.264 stream.
\<close>

theorem get_format_offered:
  assumes "offered \<noteq> []"
  shows "fst (zc_get_format hw codec baseline offered) = (if hw \<noteq> AV_PIX_FMT_NONE \<and> hw \<in> set offered then hw else hd offered)
    \<and> fst (zc_get_format hw codec baseline offered) \<in> set offered
    \<and> (snd (zc_get_format hw codec baseline offered) \<longrightarrow>
         fst (zc_get_format hw codec baseline offered) = AV_PIX_FMT_D3D11 \<and> codec = ZC_CODEC_H264 \<and> baseline)"
  using assms by (cases offered) (auto simp: zc_get_format_def Let_def find_format_iff)

theorem get_format_offered_witness:
  "fst (zc_get_format AV_PIX_FMT_D3D11 ZC_CODEC_H264 True [AV_PIX_FMT_CUDA, AV_PIX_FMT_D3D11, AV_PIX_FMT_YUV420P]) = AV_PIX_FMT_D3D11
    \<and> fst (zc_get_format AV_PIX_FMT_D3D11 ZC_CODEC_H264 True [AV_PIX_FMT_YUV420P]) = AV_PIX_FMT_YUV420P"
  using get_format_offered [of "[AV_PIX_FMT_CUDA, AV_PIX_FMT_D3D11, AV_PIX_FMT_YUV420P]" AV_PIX_FMT_D3D11 ZC_CODEC_H264 True]
    get_format_offered [of "[AV_PIX_FMT_YUV420P]" AV_PIX_FMT_D3D11 ZC_CODEC_H264 True]
  by simp

text \<open>The log buffer is overrun when some name starts behind its end.\<close>

lemma log_names_overrun:
  "(\<exists>w \<in> set (log_names [replicate 300 (CHR ''x''), ''nv12''] 0). fst w + snd w > 256)"
  by (simp add: eval_nat_numeral)

subsection \<open>References\<close>

text \<open>What a decoder holds, and \<open>n\<close> device references that nobody owns.\<close>

fun hf_count :: "nat \<Rightarrow> hw_ffmpeg \<Rightarrow> av_count" where
  "hf_count n f AkDeviceRef = n + (if hf_device f then 1 else 0) + (case hf_context f of Some (True, _) \<Rightarrow> 1 | _ \<Rightarrow> 0)"
| "hf_count n f AkContext = (if hf_context f = None then 0 else 1)"
| "hf_count n f AkFramesRef = (case hf_context f of Some (_, True) \<Rightarrow> 1 | _ \<Rightarrow> 0)"
| "hf_count n f AkFrame = (if hf_frame f then 1 else 0)"
| "hf_count n f AkBuffer = 0"
| "hf_count n f AkPacket = 0"

definition unowned :: "nat \<Rightarrow> av_count" where
  "unowned n = none_left(AkDeviceRef := n)"

lemma destroy_refs: "mon_run av_monitor (ffmpeg_destroy f) (hf_count n f) = Some (unowned n)"
  by (cases "hf_context f")
    (auto simp: ffmpeg_destroy_def ffmpeg_free_context_def unowned_def none_left_def av_count_eq split: bool.splits)

lemma open_device_refs:
  assumes "open_device os env t (hf_new backend width height codec) = (r, es)"
  shows "mon_run av_monitor es none_left = Some (case r of None \<Rightarrow> none_left | Some f \<Rightarrow> hf_count 0 f)"
    and "r = Some f \<Longrightarrow> hf_device f \<and> hf_context f = None \<and> \<not> hf_frame f \<and> hf_width f = width \<and> hf_height f = height"
  using assms
  by (auto simp: open_device_def bind_obs_device_def hf_new_def Let_def none_left_def av_count_eq split: if_splits)

lemma build_frames_refs:
  assumes "build_frames os env t ten_bit f = (f1, es)" "hf_context f = Some (True, False)"
  shows "mon_run av_monitor es (hf_count 0 f) = Some (hf_count (if wants_frames os t f then 1 else 0) f1)"
  using assms by (auto simp: build_frames_def Let_def av_count_eq split: if_splits)

lemma open_codec_refs:
  assumes "open_codec os env t ten_bit f = (r, es)" "hf_device f" "hf_context f = None" "\<not> hf_frame f"
  shows "\<exists>n \<le> (if wants_frames os t f then 1 else 0).
     mon_run av_monitor es (hf_count 0 f) = Some (case r of None \<Rightarrow> unowned n | Some f' \<Rightarrow> hf_count n f')
     \<and> (r \<noteq> None \<longrightarrow> n = (if wants_frames os t f then 1 else 0))"
proof -
  let ?f1 = "f\<lparr>hf_context := Some (True, False)\<rparr>"
  let ?f2 = "?f1\<lparr>hf_frame := True, hf_pix_fmt := pix_fmt_of os t\<rparr>"
  let ?es = "[AvNew AkContext, AvNew AkDeviceRef]"
  have ctx: "mon_run av_monitor ?es (hf_count 0 f) = Some (hf_count 0 ?f1)"
    using assms(2-4) by (simp add: av_count_eq)
  have frame: "mon_run av_monitor [AvNew AkFrame] (hf_count 0 ?f1) = Some (hf_count 0 ?f2)"
    using assms(4) by (simp add: av_count_eq)
  obtain f3 es3 where b: "build_frames os env t ten_bit ?f2 = (f3, es3)" by fastforce
  have w: "wants_frames os t ?f2 = wants_frames os t f" by (simp add: wants_frames_def)
  have built: "mon_run av_monitor es3 (hf_count 0 ?f2) = Some (hf_count (if wants_frames os t f then 1 else 0) f3)"
    using build_frames_refs [OF b] by (simp add: w)
  have same: "hf_count n (f3\<lparr>hf_open := True\<rparr>) = hf_count n f3" for n by (simp add: av_count_eq)
  consider "\<not> hc_find env \<or> \<not> hc_context env" | "hc_find env" "hc_context env" "\<not> hc_frame env"
    | "hc_find env" "hc_context env" "hc_frame env" by blast
  then show ?thesis
  proof cases
    case 1
    with assms(1) destroy_refs [of f 0] show ?thesis by (auto simp: open_codec_def)
  next
    case 2
    with assms(1) have "r = None" and es: "es = ?es @ ffmpeg_destroy ?f1" by (auto simp: open_codec_def Let_def)
    moreover have "mon_run av_monitor es (hf_count 0 f) = Some (unowned 0)"
      unfolding es mon_run_then [OF ctx] by (rule destroy_refs)
    ultimately show ?thesis by (intro exI [of _ 0]) simp
  next
    case 3
    let ?n = "if wants_frames os t f then 1 else 0"
    have r: "r = (if hc_open env then Some (f3\<lparr>hf_open := True\<rparr>) else None)"
      and es: "es = ?es @ [AvNew AkFrame] @ es3 @ (if hc_open env then [] else ffmpeg_destroy f3)"
      using 3 assms(1) b by (auto simp: open_codec_def Let_def)
    have "mon_run av_monitor es (hf_count 0 f) = Some (case r of None \<Rightarrow> unowned ?n | Some f' \<Rightarrow> hf_count ?n f')"
      unfolding es r mon_run_then [OF ctx] mon_run_then [OF frame] mon_run_then [OF built]
      using destroy_refs [of f3 ?n] by (simp add: same)
    then show ?thesis by (intro exI [of _ ?n]) simp
  qed
qed

text \<open>
  C37. The references of a hardware decoder: creation, on success or any of its failures, followed by the
  destroy releases every context, frame and frames context exactly once and no reference too many. What is not
  released is one reference to the device for each decoder built with its own frames
  context, that is for every D3D11VA decoder of a known size.
\<close>

theorem hw_create_references:
  assumes "zc_hw_ffmpeg_create os pr env backend width height codec ten_bit = Some (r, es)"
  defines "leaky \<equiv> os = Windows \<and> pick_hw_device os pr backend codec = Some AV_HWDEVICE_TYPE_D3D11VA \<and> width > 0 \<and> height > 0"
  shows "\<exists>n. mon_run av_monitor (es @ (case r of None \<Rightarrow> [] | Some f \<Rightarrow> ffmpeg_destroy f)) none_left = Some (unowned n)
    \<and> n \<le> (if leaky then 1 else 0) \<and> (r \<noteq> None \<longrightarrow> n = (if leaky then 1 else 0))"
proof -
  have none: "none_left = unowned 0" by (simp add: unowned_def none_left_def av_count_eq)
  show ?thesis
  proof (cases "es = [] \<and> r = None")
    case True
    then show ?thesis by (intro exI [of _ 0]) (simp add: none)
  next
    case False
    with assms(1) obtain t where t: "pick_hw_device os pr backend codec = Some t" "t \<noteq> AV_HWDEVICE_TYPE_NONE"
      by (auto simp: zc_hw_ffmpeg_create_def split: if_splits option.splits)
    obtain o1 es1 where o: "open_device os env t (hf_new backend width height codec) = (o1, es1)" by fastforce
    note dev = open_device_refs [OF o]
    show ?thesis
    proof (cases o1)
      case None
      with False t o assms(1) have "r = None" "es = es1"
        by (auto simp: zc_hw_ffmpeg_create_def split: if_splits)
      with dev(1) None show ?thesis by (intro exI [of _ 0]) (simp add: none)
    next
      case (Some f)
      obtain r2 es2 where c: "open_codec os env t ten_bit f = (r2, es2)" by fastforce
      have new: "hc_new env" using False assms(1) by (cases "hc_new env") (simp_all add: zc_hw_ffmpeg_create_def)
      have "zc_hw_ffmpeg_create os pr env backend width height codec ten_bit = Some (r2, es1 @ es2)"
        unfolding zc_hw_ffmpeg_create_def using t new by (simp add: o c Some)
      with assms(1) have r: "r = r2" "es = es1 @ es2" by simp_all
      have leaky: "wants_frames os t f = leaky"
        using dev(2) [OF Some] t(1) by (simp add: wants_frames_def leaky_def)
      from dev(2) [OF Some] have f: "hf_device f" "hf_context f = None" "\<not> hf_frame f" by simp_all
      from open_codec_refs [OF c f, unfolded leaky] obtain n where n: "n \<le> (if leaky then 1 else 0)"
          "mon_run av_monitor es2 (hf_count 0 f) = Some (case r2 of None \<Rightarrow> unowned n | Some f' \<Rightarrow> hf_count n f')"
          "r2 \<noteq> None \<longrightarrow> n = (if leaky then 1 else 0)"
        by auto
      have "mon_run av_monitor es1 none_left = Some (hf_count 0 f)" using dev(1) Some by simp
      then have "mon_run av_monitor (es @ (case r of None \<Rightarrow> [] | Some f' \<Rightarrow> ffmpeg_destroy f')) none_left = Some (unowned n)"
        using n(2) destroy_refs [of _ n] by (cases r2) (simp_all add: r)
      with n show ?thesis by (auto simp: r(1))
    qed
  qed
qed

definition probe_d3d11 :: hw_probe where
  "probe_d3d11 = \<lparr>hp_decoder = (\<lambda>_. True), hp_configs = (\<lambda>_. [(True, AV_HWDEVICE_TYPE_D3D11VA)]), hp_opens = (\<lambda>_. True)\<rparr>"

definition create_fine :: hw_create_env where
  "create_fine = \<lparr>hc_new = True, hc_obs_device = True, hc_ctx_alloc = True, hc_ctx_d3d = True, hc_ctx_init = True,
     hc_cuda_device = 0, hc_device_create = True, hc_find = True, hc_context = True, hc_frame = True,
     hc_frames_alloc = True, hc_frames_init = True, hc_open = True\<rparr>"

lemma create_fine_run:
  "\<exists>f es. zc_hw_ffmpeg_create Windows probe_d3d11 create_fine ZC_HW_AUTO 1920 1080 ZC_CODEC_H264 False = Some (Some f, es)"
  by (simp add: zc_hw_ffmpeg_create_def create_fine_def probe_d3d11_def pick_hw_device_def zc_to_hw_type_def open_device_def
      bind_obs_device_def hf_new_def open_codec_def build_frames_def wants_frames_def Let_def)

theorem hw_create_references_witness:
  "\<exists>f es. zc_hw_ffmpeg_create Windows probe_d3d11 create_fine ZC_HW_AUTO 1920 1080 ZC_CODEC_H264 False = Some (Some f, es)
    \<and> mon_run av_monitor (es @ ffmpeg_destroy f) none_left = Some (unowned 1)"
proof -
  obtain f es where c: "zc_hw_ffmpeg_create Windows probe_d3d11 create_fine ZC_HW_AUTO 1920 1080 ZC_CODEC_H264 False = Some (Some f, es)"
    using create_fine_run by blast
  have "pick_hw_device Windows probe_d3d11 ZC_HW_AUTO ZC_CODEC_H264 = Some AV_HWDEVICE_TYPE_D3D11VA"
    by (simp add: pick_hw_device_def probe_d3d11_def zc_to_hw_type_def)
  with c hw_create_references [OF c] show ?thesis by auto
qed

end
