(* ===== verification/Gpu_Cache.thy ===== *)
theory Gpu_Cache
  imports Resources
begin

text \<open>
  Caches of GPU objects. An importer builds a chain of objects, gives up at the first one that cannot be
  created, and releases what it holds in a fixed order. A cache is the list of the objects whose
  pointers are not null, newest first; the monitor rejects a second creation, a release or a use
  of an object that is not held, and a copy that does not fit its destination.
\<close>

datatype 'o gpu_event = GpuNew 'o | GpuFree 'o | GpuUse 'o | GpuCopy nat nat nat nat | GpuOpen

text \<open>A copy is the bytes of a row and the number of rows, then those of the destination.\<close>

fun gpu_monitor :: "'o gpu_event \<Rightarrow> 'o set \<Rightarrow> 'o set option" where
  "gpu_monitor (GpuNew x) m = (if x \<in> m then None else Some (insert x m))"
| "gpu_monitor (GpuFree x) m = (if x \<in> m then Some (m - {x}) else None)"
| "gpu_monitor (GpuUse x) m = (if x \<in> m then Some m else None)"
| "gpu_monitor (GpuCopy w h row rows) m = (if w \<le> row \<and> h \<le> rows then Some m else None)"
| "gpu_monitor GpuOpen m = Some m"

fun acquire :: "('o \<Rightarrow> bool) \<Rightarrow> 'o list \<Rightarrow> 'o list \<Rightarrow> bool \<times> 'o list \<times> 'o gpu_event list" where
  "acquire ok [] held = (True, held, [])"
| "acquire ok (x # xs) held =
     (if ok x then (case acquire ok xs (x # held) of (b, held', es) \<Rightarrow> (b, held', GpuNew x # es))
      else (False, held, []))"

definition release :: "'o list \<Rightarrow> 'o list \<Rightarrow> 'o gpu_event list" where
  "release order held = map GpuFree (filter (\<lambda>x. x \<in> set held) order)"

lemma acquire_ok:
  "acquire ok xs held = (b, held', es) \<Longrightarrow> distinct xs \<Longrightarrow> set xs \<inter> set held = {} \<Longrightarrow>
     mon_run gpu_monitor es (set held) = Some (set held') \<and> set held' \<subseteq> set held \<union> set xs
     \<and> (b \<longrightarrow> set held' = set held \<union> set xs)"
proof (induction xs arbitrary: held b held' es)
  case (Cons x xs)
  show ?case
  proof (cases "ok x")
    case True
    obtain b1 held1 es1 where r: "acquire ok xs (x # held) = (b1, held1, es1)" by (metis prod.collapse)
    have "distinct xs" "set xs \<inter> set (x # held) = {}" using Cons.prems(2,3) by auto
    from Cons.IH [OF r this] have ih: "mon_run gpu_monitor es1 (insert x (set held)) = Some (set held1)"
        "set held1 \<subseteq> insert x (set held) \<union> set xs" "b1 \<longrightarrow> set held1 = insert x (set held) \<union> set xs"
      by simp_all
    have "x \<notin> set held" using Cons.prems(3) by auto
    moreover have "b = b1" "held' = held1" "es = GpuNew x # es1" using Cons.prems(1) True r by simp_all
    ultimately show ?thesis using ih by auto
  next
    case False
    with Cons.prems(1) show ?thesis by auto
  qed
qed simp

lemma acquire_mono: "acquire ok xs held = (b, held', es) \<Longrightarrow> set held \<subseteq> set held'"
proof (induction xs arbitrary: held b held' es)
  case (Cons x xs)
  show ?case
  proof (cases "ok x")
    case True
    obtain b1 held1 es1 where r: "acquire ok xs (x # held) = (b1, held1, es1)" by (metis prod.collapse)
    from Cons.IH [OF r] Cons.prems True r show ?thesis by simp
  next
    case False
    with Cons.prems show ?thesis by simp
  qed
qed simp

text \<open>Objects that are alive beside the cache are not touched.\<close>

lemma acquire_frame:
  "acquire ok xs held = (b, held', es) \<Longrightarrow> distinct xs \<Longrightarrow> set xs \<inter> (set held \<union> E) = {} \<Longrightarrow>
     mon_run gpu_monitor es (set held \<union> E) = Some (set held' \<union> E)"
proof (induction xs arbitrary: held b held' es)
  case (Cons x xs)
  show ?case
  proof (cases "ok x")
    case True
    obtain b1 held1 es1 where r: "acquire ok xs (x # held) = (b1, held1, es1)" by (metis prod.collapse)
    have "distinct xs" "set xs \<inter> (set (x # held) \<union> E) = {}" using Cons.prems(2,3) by auto
    from Cons.IH [OF r this] have "mon_run gpu_monitor es1 (insert x (set held \<union> E)) = Some (set held1 \<union> E)" by simp
    moreover have "x \<notin> set held \<union> E" using Cons.prems(3) by auto
    moreover have "held' = held1" "es = GpuNew x # es1" using Cons.prems(1) True r by simp_all
    ultimately show ?thesis by simp
  next
    case False
    with Cons.prems(1) show ?thesis by auto
  qed
qed simp

lemma release_filtered:
  "distinct xs \<Longrightarrow> set xs \<inter> A \<subseteq> m \<Longrightarrow> mon_run gpu_monitor (map GpuFree (filter (\<lambda>x. x \<in> A) xs)) m = Some (m - (set xs \<inter> A))"
proof (induction xs arbitrary: m)
  case (Cons x xs)
  show ?case
  proof (cases "x \<in> A")
    case True
    then have "set xs \<inter> A \<subseteq> m - {x}" using Cons.prems by auto
    with Cons.IH [of "m - {x}"] Cons.prems True show ?thesis by auto
  next
    case False
    with Cons show ?thesis by simp
  qed
qed simp

text \<open>The release order of an importer: every cached object is named once.\<close>

locale gpu_cache =
  fixes order :: "'o list" and temporary :: "'o set"
  assumes order_distinct: "distinct order" and order_complete: "set order = - temporary"
begin

lemma release_all:
  assumes "set held \<inter> temporary = {}"
  shows "mon_run gpu_monitor (release order held) (set held) = Some {}"
proof -
  have "set order \<inter> set held = set held" using assms order_complete by auto
  with release_filtered [OF order_distinct, of "set held" "set held"] show ?thesis by (simp add: release_def)
qed

end

end
