(* ===== verification/D3d11_Import.thy ===== *)
theory D3d11_Import
  imports Gpu_Cache Ffmpeg_Decode
begin

text \<open>
  The D3D11VA importer, \<^verbatim>\<open>src/hwdecode/hw_decode_d3d11_win.cpp\<close>: a decoded array slice is blitted by a video
  processor into a shared BGRA texture, which OBS opens. The processor and the texture are cached
  and rebuilt when the size changes. Which calls succeed is an input.
\<close>

subsection \<open>The importer\<close>

datatype vp_obj =
    VpDevice | VpContext | VpVideoDevice | VpVideoContext | VpEnumerator | VpProcessor | VpOutTexture | VpOutView
  | VpDxgiResource | VpInputView

definition vp_order :: "vp_obj list" where
  "vp_order = [VpOutView, VpOutTexture, VpProcessor, VpEnumerator, VpVideoContext, VpVideoDevice, VpContext, VpDevice]"

record d3d11_import =
  vi_held :: "vp_obj list"
  vi_shared :: bool
  vi_width :: u32
  vi_height :: u32
  vi_unavailable :: bool

definition vi_new :: d3d11_import where
  "vi_new = \<lparr>vi_held = [], vi_shared = False, vi_width = 0, vi_height = 0, vi_unavailable = False\<rparr>"

text \<open>What the driver answers: which object is created, whether NV12 is accepted by the processor and whether the
  texture has a shared handle.\<close>

record vp_env =
  ve_ok :: "vp_obj \<Rightarrow> bool"
  ve_nv12 :: bool
  ve_handle :: bool

definition vp_clear :: "d3d11_import \<Rightarrow> d3d11_import \<times> vp_obj gpu_event list" where
  "vp_clear imp =
     (imp\<lparr>vi_held := [], vi_shared := False, vi_width := 0, vi_height := 0\<rparr>, release vp_order (vi_held imp))"

definition vp_setup :: "vp_env \<Rightarrow> u32 \<Rightarrow> u32 \<Rightarrow> d3d11_import \<Rightarrow> bool \<times> d3d11_import \<times> vp_obj gpu_event list" where
  "vp_setup env width height imp =
     (case acquire (ve_ok env) [VpDevice, VpContext, VpVideoDevice, VpVideoContext, VpEnumerator] (vi_held imp) of
        (b, held, es) \<Rightarrow>
          if \<not> b \<or> \<not> ve_nv12 env then (False, imp\<lparr>vi_held := held\<rparr>, es)
          else
            (case acquire (ve_ok env) [VpProcessor, VpOutTexture, VpOutView] held of
               (b2, held2, es2) \<Rightarrow>
                 if \<not> b2 \<or> \<not> ve_ok env VpDxgiResource then (False, imp\<lparr>vi_held := held2\<rparr>, es @ es2)
                 else
                   (let imp2 = imp\<lparr>vi_held := held2, vi_shared := ve_handle env\<rparr>;
                        es3 = es @ es2 @ [GpuNew VpDxgiResource, GpuFree VpDxgiResource] in
                    if \<not> ve_handle env then (False, imp2, es3)
                    else (True, imp2\<lparr>vi_width := width, vi_height := height\<rparr>, es3))))"

text \<open>A decoded surface: the texture it is in, with its description, and the slice.\<close>

record d3d_surface =
  su_texture :: bool
  su_nv12 :: bool
  su_width :: u32
  su_height :: u32
  su_array :: u32
  su_slice :: int

record slice_env =
  sl_new :: bool
  sl_setup :: vp_env
  sl_view :: bool
  sl_blt :: bool
  sl_open :: bool

text \<open>The cached processor, built or rebuilt when it is missing or the size differs.\<close>

definition vp_ready :: "slice_env \<Rightarrow> d3d_surface \<Rightarrow> d3d11_import \<Rightarrow> bool \<times> d3d11_import \<times> vp_obj gpu_event list" where
  "vp_ready env s imp =
     (let missing = (VpProcessor \<notin> set (vi_held imp)) in
      if missing \<or> su_width s \<noteq> vi_width imp \<or> su_height s \<noteq> vi_height imp
      then
        (case (if missing then (imp, []) else vp_clear imp) of
           (imp1, es) \<Rightarrow>
             (case vp_setup (sl_setup env) (su_width s) (su_height s) imp1 of
                (b, imp2, es2) \<Rightarrow>
                  if b then (True, imp2, es @ es2)
                  else (case vp_clear (imp2\<lparr>vi_unavailable := True\<rparr>) of (imp3, es3) \<Rightarrow> (False, imp3, es @ es2 @ es3))))
      else (True, imp, []))"

definition blit_slice :: "slice_env \<Rightarrow> vp_obj gpu_event list \<times> bool" where
  "blit_slice env =
     (if \<not> sl_view env then ([GpuUse VpVideoDevice, GpuUse VpEnumerator], False)
      else
        ([GpuUse VpVideoDevice, GpuUse VpEnumerator, GpuNew VpInputView, GpuUse VpProcessor, GpuUse VpOutView,
          GpuUse VpInputView, GpuFree VpInputView] @ (if sl_blt env \<and> sl_open env then [GpuOpen] else []),
         sl_blt env \<and> sl_open env))"

text \<open>The Boolean is whether a texture is returned; the slot is \<open>None\<close> until the first surface.\<close>

definition zc_hw_import_d3d11_slice ::
  "slice_env \<Rightarrow> d3d_surface \<Rightarrow> d3d11_import option \<Rightarrow> bool \<times> d3d11_import option \<times> vp_obj gpu_event list" where
  "zc_hw_import_d3d11_slice env s slot =
     (if slot \<noteq> None \<and> vi_unavailable (the slot) then (False, slot, [])
      else if \<not> su_texture s then (False, slot, [])
      else if slot = None \<and> \<not> sl_new env then (False, slot, [])
      else
        (let imp = (case slot of None \<Rightarrow> vi_new | Some i \<Rightarrow> i) in
         if \<not> su_nv12 s then (False, Some (imp\<lparr>vi_unavailable := True\<rparr>), [])
         else if su_slice s < 0 \<or> (of_int (su_slice s) :: u32) \<ge> su_array s then (False, Some imp, [])
         else
           (case vp_ready env s imp of
              (b, imp1, es) \<Rightarrow>
                if \<not> b then (False, Some imp1, es)
                else (case blit_slice env of (es2, out) \<Rightarrow> (out, Some imp1, es @ es2)))))"

definition zc_hw_d3d11_import_free :: "d3d11_import option \<Rightarrow> vp_obj gpu_event list" where
  "zc_hw_d3d11_import_free slot = (case slot of None \<Rightarrow> [] | Some imp \<Rightarrow> snd (vp_clear imp))"

subsection \<open>Ownership\<close>

definition vp_temporary :: "vp_obj set" where
  "vp_temporary = {VpDxgiResource, VpInputView}"

interpretation vp: gpu_cache vp_order vp_temporary
proof
  show "distinct vp_order" by (simp add: vp_order_def)
  show "set vp_order = - vp_temporary"
    by (auto simp: vp_order_def vp_temporary_def) (metis vp_obj.exhaust)
qed

text \<open>The cache is empty or complete, and it is empty once it is marked unavailable by a failed setup.\<close>

definition vi_inv :: "d3d11_import \<Rightarrow> bool" where
  "vi_inv imp \<longleftrightarrow> set (vi_held imp) = {} \<or> set (vi_held imp) = - vp_temporary \<and> vi_shared imp"

fun slot_view :: "d3d11_import option \<Rightarrow> vp_obj set" where
  "slot_view None = {}"
| "slot_view (Some imp) = set (vi_held imp)"

fun slot_inv :: "d3d11_import option \<Rightarrow> bool" where
  "slot_inv None = True"
| "slot_inv (Some imp) = vi_inv imp"

lemma vp_clear_ok:
  assumes "set (vi_held imp) \<inter> vp_temporary = {}" "vp_clear imp = (imp1, es)"
  shows "vi_held imp1 = []" "mon_run gpu_monitor es (set (vi_held imp)) = Some {}" "vi_unavailable imp1 = vi_unavailable imp"
  using assms vp.release_all by (auto simp: vp_clear_def)

lemma vp_setup_ok:
  assumes "vi_held imp = []" "vp_setup env w h imp = (b, imp1, es)"
  shows "mon_run gpu_monitor es {} = Some (set (vi_held imp1))" "set (vi_held imp1) \<inter> vp_temporary = {}"
    "b \<Longrightarrow> vi_inv imp1 \<and> set (vi_held imp1) = - vp_temporary"
proof -
  let ?xs = "[VpDevice, VpContext, VpVideoDevice, VpVideoContext, VpEnumerator]"
  let ?ys = "[VpProcessor, VpOutTexture, VpOutView]"
  obtain b1 held1 es1 where a1: "acquire (ve_ok env) ?xs [] = (b1, held1, es1)" by (metis prod.collapse)
  obtain b2 held2 es2 where a2: "acquire (ve_ok env) ?ys held1 = (b2, held2, es2)" by (metis prod.collapse)
  have i1: "mon_run gpu_monitor es1 {} = Some (set held1)" "set held1 \<subseteq> set ?xs" "b1 \<longrightarrow> set held1 = set ?xs"
    using acquire_ok [OF a1] by auto
  have "set ?ys \<inter> set held1 = {}" using i1(2) by auto
  from acquire_ok [OF a2 _ this]
  have i2: "mon_run gpu_monitor es2 (set held1) = Some (set held2)" "set held2 \<subseteq> set held1 \<union> set ?ys"
    "b2 \<longrightarrow> set held2 = set held1 \<union> set ?ys" by auto
  have sub: "set held2 \<inter> vp_temporary = {}" "set held1 \<inter> vp_temporary = {}"
    using i1(2) i2(2) by (auto simp: vp_temporary_def)
  have full: "b1 \<Longrightarrow> b2 \<Longrightarrow> set held2 = - vp_temporary"
    using i1(3) i2(3) vp.order_complete by (auto simp: vp_order_def)
  have dxgi: "VpDxgiResource \<notin> set held2" using sub(1) by (auto simp: vp_temporary_def)
  note facts = assms(2) [unfolded vp_setup_def assms(1) a1, simplified, unfolded a2, simplified]
  show "mon_run gpu_monitor es {} = Some (set (vi_held imp1))" "set (vi_held imp1) \<inter> vp_temporary = {}"
    "b \<Longrightarrow> vi_inv imp1 \<and> set (vi_held imp1) = - vp_temporary"
    using facts i1(1) i2(1) sub full dxgi by (auto simp: Let_def vi_inv_def a2 split: if_splits)
qed

lemma vi_inv_temporary: "vi_inv imp \<Longrightarrow> set (vi_held imp) \<inter> vp_temporary = {}"
  by (auto simp: vi_inv_def)

lemma vp_ready_ok:
  assumes "vi_inv imp" "vp_ready env s imp = (b, imp1, es)"
  shows "vi_inv imp1" "mon_run gpu_monitor es (set (vi_held imp)) = Some (set (vi_held imp1))"
    "b \<Longrightarrow> set (vi_held imp1) = - vp_temporary"
proof -
  let ?missing = "VpProcessor \<notin> set (vi_held imp)"
  have proc: "VpProcessor \<in> - vp_temporary" by (simp add: vp_temporary_def)
  obtain imp0 es0 where c: "(if ?missing then (imp, []) else vp_clear imp) = (imp0, es0)" by (metis prod.collapse)
  have empty: "vi_held imp0 = []" and clear: "mon_run gpu_monitor es0 (set (vi_held imp)) = Some {}"
    using c assms(1) proc vp_clear_ok [OF vi_inv_temporary [OF assms(1)]]
    by (auto simp: vi_inv_def split: if_splits)
  obtain b2 imp2 es2 where st: "vp_setup (sl_setup env) (su_width s) (su_height s) imp0 = (b2, imp2, es2)" by (metis prod.collapse)
  note constructed = vp_setup_ok [OF empty st]
  obtain imp3 es3 where cl: "vp_clear (imp2\<lparr>vi_unavailable := True\<rparr>) = (imp3, es3)" by fastforce
  have gone: "vi_held imp3 = []" "mon_run gpu_monitor es3 (set (vi_held imp2)) = Some {}"
    using vp_clear_ok [OF _ cl] constructed(2) by simp_all
  let ?stale = "?missing \<or> su_width s \<noteq> vi_width imp \<or> su_height s \<noteq> vi_height imp"
  have "vp_ready env s imp =
    (if ?stale then (if b2 then (True, imp2, es0 @ es2) else (False, imp3, es0 @ es2 @ es3)) else (True, imp, []))"
    unfolding vp_ready_def Let_def c prod.case st cl by (rule refl)
  then have res: "(b, imp1, es) = (if ?stale then (if b2 then (True, imp2, es0 @ es2) else (False, imp3, es0 @ es2 @ es3)) else (True, imp, []))"
    by (rule trans [OF assms(2) [symmetric]])
  consider (kept) "\<not> ?missing" "b" "imp1 = imp" "es = []" | (built) "b2" "b" "imp1 = imp2" "es = es0 @ es2"
    | (failed) "\<not> b" "imp1 = imp3" "es = es0 @ es2 @ es3"
  proof (cases ?stale)
    case True
    then show ?thesis using res that(2,3) by (cases b2) simp_all
  next
    case False
    then show ?thesis using res that(1) by simp
  qed
  then have "vi_inv imp1 \<and> mon_run gpu_monitor es (set (vi_held imp)) = Some (set (vi_held imp1))
    \<and> (b \<longrightarrow> set (vi_held imp1) = - vp_temporary)"
  proof cases
    case kept
    with assms(1) proc show ?thesis by (auto simp: vi_inv_def)
  next
    case built
    with constructed clear show ?thesis by (simp add: mon_run_then)
  next
    case failed
    with constructed(1) clear gone show ?thesis by (simp add: mon_run_then vi_inv_def)
  qed
  then show "vi_inv imp1" "mon_run gpu_monitor es (set (vi_held imp)) = Some (set (vi_held imp1))"
    "b \<Longrightarrow> set (vi_held imp1) = - vp_temporary"
    by simp_all
qed

lemma blit_slice_ok:
  assumes "m = - vp_temporary"
  shows "mon_run gpu_monitor (fst (blit_slice env)) m = Some m"
  using assms by (auto simp: blit_slice_def vp_temporary_def)

lemma import_slice_ok:
  assumes "slot_inv slot" "zc_hw_import_d3d11_slice env s slot = (out, slot1, es)"
  shows "slot_inv slot1 \<and> mon_run gpu_monitor es (slot_view slot) = Some (slot_view slot1)"
proof -
  let ?imp = "case slot of None \<Rightarrow> vi_new | Some i \<Rightarrow> i"
  have imp: "vi_inv ?imp" "set (vi_held ?imp) = slot_view slot"
    using assms(1) by (cases slot; simp add: vi_new_def vi_inv_def)+
  obtain b imp1 es1 where r: "vp_ready env s ?imp = (b, imp1, es1)" by (metis prod.collapse)
  note ready = vp_ready_ok [OF imp(1) r]
  obtain es2 t where bl: "blit_slice env = (es2, t)" by fastforce
  have blit: "b \<Longrightarrow> mon_run gpu_monitor es2 (set (vi_held imp1)) = Some (set (vi_held imp1))"
    using blit_slice_ok [OF ready(3), of env] bl by simp
  consider (same) "slot1 = slot" "es = []" | (kept) i where "slot1 = Some i" "vi_held i = vi_held ?imp" "vi_shared i = vi_shared ?imp" "es = []"
    | (failed) "\<not> b" "slot1 = Some imp1" "es = es1" | (built) "b" "slot1 = Some imp1" "es = es1 @ es2"
    using assms(2) r bl unfolding zc_hw_import_d3d11_slice_def Let_def by (auto split: if_splits)
  then show ?thesis
  proof cases
    case kept
    with imp show ?thesis by (simp add: vi_inv_def)
  next
    case failed
    with ready imp(2) show ?thesis by simp
  next
    case built
    with ready(1,2) blit imp(2) show ?thesis by (simp add: mon_run_then)
  qed (use assms(1) in simp)
qed

fun d3d_step :: "slice_env \<times> d3d_surface \<Rightarrow> d3d11_import option \<Rightarrow> d3d11_import option \<times> vp_obj gpu_event list" where
  "d3d_step (env, s) slot = snd (zc_hw_import_d3d11_slice env s slot)"

interpretation d3d: monitored d3d_step slot_inv gpu_monitor slot_view
proof
  fix slot i
  assume "slot_inv slot"
  then show "slot_inv (fst (d3d_step i slot))" "tracked gpu_monitor slot_view slot (d3d_step i slot)"
    by (cases i, metis d3d_step.simps import_slice_ok prod.collapse tracked_def)+
qed

lemma import_free_ok: "slot_inv slot \<Longrightarrow> mon_run gpu_monitor (zc_hw_d3d11_import_free slot) (slot_view slot) = Some {}"
  using vp_clear_ok(2) [OF vi_inv_temporary]
  by (cases slot) (auto simp: zc_hw_d3d11_import_free_def, metis prod.collapse)

text \<open>
  C28. The D3D11 importer owns its objects: for every sequence of surfaces, of any size and format and whatever
  call of the driver fails, no object is created twice, used or released while it is not held, a failed setup
  and a change of size release everything that was built, and after the free nothing is left.
\<close>

theorem d3d11_import_resources:
  "mon_run gpu_monitor (snd (run_trace d3d_step inputs None) @ zc_hw_d3d11_import_free (fst (run_trace d3d_step inputs None))) {} = Some {}"
  using d3d.run_accepted [of None inputs] d3d.run_inv [of None inputs] import_free_ok by simp

subsection \<open>Formats\<close>

definition vi_dead :: "d3d11_import option \<Rightarrow> bool" where
  "vi_dead slot \<longleftrightarrow> (\<exists>imp. slot = Some imp \<and> vi_unavailable imp)"

lemma dead_stays: "vi_dead slot \<Longrightarrow> d3d_step i slot = (slot, [])"
  by (cases i) (auto simp: vi_dead_def zc_hw_import_d3d11_slice_def)

lemma dead_run: "vi_dead slot \<Longrightarrow> run_trace d3d_step inputs slot = (slot, [])"
  by (induction inputs) (simp_all add: dead_stays)

text \<open>
  A 10-bit surface ends the import for good: the first surface that is not NV12 is not imported and
  neither is any surface after it, whatever its format, so a stream decoded to P010 surfaces, which the
  decoder builds for every 10-bit stream, always falls back to software.
\<close>

theorem d3d11_ten_bit_falls_back:
  assumes "su_texture s" "\<not> su_nv12 s" "sl_new env"
  shows "snd (run_trace d3d_step ((env, s) # inputs) slot) = []"
proof -
  have "vi_dead (fst (d3d_step (env, s) slot)) \<and> snd (d3d_step (env, s) slot) = []"
    using assms by (auto simp: zc_hw_import_d3d11_slice_def vi_dead_def Let_def split: option.splits)
  then show ?thesis using dead_run by (simp add: split_beta del: d3d_step.simps)
qed

definition vp_fine :: vp_env where
  "vp_fine = \<lparr>ve_ok = (\<lambda>_. True), ve_nv12 = True, ve_handle = True\<rparr>"

definition slice_fine :: slice_env where
  "slice_fine = \<lparr>sl_new = True, sl_setup = vp_fine, sl_view = True, sl_blt = True, sl_open = True\<rparr>"

definition surface :: "bool \<Rightarrow> d3d_surface" where
  "surface nv12 = \<lparr>su_texture = True, su_nv12 = nv12, su_width = 1920, su_height = 1080, su_array = 8, su_slice = 3\<rparr>"

theorem d3d11_ten_bit_falls_back_witness:
  "snd (run_trace d3d_step [(slice_fine, surface False), (slice_fine, surface True)] None) = []"
  by (rule d3d11_ten_bit_falls_back) (simp_all add: surface_def slice_fine_def)

lemma eight_bit_imported: "GpuOpen \<in> set (snd (d3d_step (slice_fine, surface True) None))"
  by (simp add: zc_hw_import_d3d11_slice_def surface_def slice_fine_def vi_new_def vp_ready_def vp_setup_def vp_fine_def
      blit_slice_def Let_def)

end
