(* ===== verification/Cuda_Import.thy ===== *)
theory Cuda_Import
  imports Gpu_Cache Ffmpeg_Decode
begin

text \<open>
  The CUDA importer, \<^verbatim>\<open>src/hwdecode/hw_decode_cuda_win.cpp\<close>: the two planes of a decoded frame are copied
  to textures registered with CUDA and converted by a shader into a shared texture. The
  importer owns a CUDA context. \<^verbatim>\<open>cuCtxCreate\<close> leaves the new context current on the thread and
  \<^verbatim>\<open>cuCtxDestroy\<close> removes it again; the other calls act on the context that is current. Which
  calls succeed is an input; a push of the own context is taken to succeed where the code does
  not test it.
\<close>

subsection \<open>Driver entry points\<close>

definition cuda_entries :: "string list list" where
  "cuda_entries =
     [[''cuInit''], [''cuDeviceGetCount''], [''cuDeviceGet''], [''cuDeviceGetLuid''],
      [''cuCtxCreate_v2'', ''cuCtxCreate''], [''cuCtxDestroy_v2'', ''cuCtxDestroy''],
      [''cuCtxPushCurrent_v2'', ''cuCtxPushCurrent''], [''cuCtxPopCurrent_v2'', ''cuCtxPopCurrent''],
      [''cuCtxSynchronize'', ''cuCtxSynchronize_v2''], [''cuGraphicsD3D11RegisterResource''],
      [''cuGraphicsMapResources''], [''cuGraphicsUnmapResources''], [''cuGraphicsSubResourceGetMappedArray''],
      [''cuMemcpy2D_v2'', ''cuMemcpy2D''], [''cuGraphicsUnregisterResource'']]"

text \<open>\<open>None\<close>: the library is not there. The result is whether the interface is usable.\<close>

definition zc_cuda_api_get :: "(string \<Rightarrow> bool) option \<Rightarrow> bool" where
  "zc_cuda_api_get lib = (case lib of None \<Rightarrow> False | Some exports \<Rightarrow> list_all (list_ex exports) cuda_entries)"

text \<open>The devices in the order of their ordinals: the identifier, or \<open>None\<close> where a query fails.\<close>

fun match_luid :: "bytes \<Rightarrow> bytes option list \<Rightarrow> int \<Rightarrow> int" where
  "match_luid luid [] i = - 1"
| "match_luid luid (d # ds) i = (if d = Some luid then i else match_luid luid ds (i + 1))"

definition zc_hw_cuda_device_for_d3d11 :: "bytes option \<Rightarrow> bytes option list option \<Rightarrow> int" where
  "zc_hw_cuda_device_for_d3d11 adapter devices =
     (case (adapter, devices) of (Some luid, Some ds) \<Rightarrow> match_luid luid ds 0 | _ \<Rightarrow> - 1)"

subsection \<open>The importer\<close>

datatype cu_obj =
    CuDevice | CuContext | CuCtx | CuYTex | CuUvTex | CuYSrv | CuUvSrv | CuOutTex | CuOutRtv | CuVs | CuPs | CuSamp
  | CuParams | CuYRes | CuUvRes | CuDxgiResource | CuVsBlob | CuPsBlob | CuErrorBlob

datatype cu_event = CuGpu "cu_obj gpu_event" | CuCreate | CuDestroy | CuPush | CuPop | CuCall "cu_obj gpu_event"

record cuda_import =
  ci_held :: "cu_obj list"
  ci_shared :: bool
  ci_width :: u32
  ci_height :: u32
  ci_tex_width :: u32
  ci_tex_height :: u32
  ci_unavailable :: bool

definition ci_new :: cuda_import where
  "ci_new = \<lparr>ci_held = [], ci_shared = False, ci_width = 0, ci_height = 0, ci_tex_width = 0, ci_tex_height = 0,
     ci_unavailable = False\<rparr>"

record cuda_env =
  ce_ok :: "cu_obj \<Rightarrow> bool"
  ce_init :: bool
  ce_handle :: bool
  ce_compile_vs :: bool
  ce_compile_ps :: bool
  ce_messages :: bool
  ce_push :: bool
  ce_map :: bool
  ce_arrays :: bool
  ce_copy_y :: bool
  ce_copy_uv :: bool
  ce_sync :: bool
  ce_open :: bool

definition d3d_order :: "cu_obj list" where
  "d3d_order = [CuParams, CuSamp, CuPs, CuVs, CuOutRtv, CuOutTex, CuUvSrv, CuYSrv, CuUvTex, CuYTex, CuContext, CuDevice]"

definition cuda_clear :: "cuda_import \<Rightarrow> cuda_import \<times> cu_event list" where
  "cuda_clear imp =
     (imp\<lparr>ci_held := [], ci_shared := False, ci_width := 0, ci_height := 0\<rparr>,
      (if CuCtx \<in> set (ci_held imp)
       then [CuPush] @ map CuCall (release [CuYRes, CuUvRes] (ci_held imp)) @ [CuPop, CuDestroy] else [])
      @ map CuGpu (release d3d_order (ci_held imp)))"

definition error_blob :: "cuda_env \<Rightarrow> cu_obj gpu_event list" where
  "error_blob env = (if ce_messages env then [GpuNew CuErrorBlob, GpuFree CuErrorBlob] else [])"

definition cuda_compile_shaders :: "cuda_env \<Rightarrow> cu_obj list \<Rightarrow> bool \<times> cu_obj list \<times> cu_obj gpu_event list" where
  "cuda_compile_shaders env held =
     (if \<not> ce_compile_vs env then (False, held, error_blob env)
      else if \<not> ce_compile_ps env
      then (False, held, [GpuNew CuVsBlob] @ error_blob env @ [GpuFree CuVsBlob] @ error_blob env)
      else
        (case acquire (ce_ok env) [CuVs, CuPs] held of
           (b, held1, es) \<Rightarrow>
             (b, held1, [GpuNew CuVsBlob] @ error_blob env @ [GpuNew CuPsBlob] @ error_blob env @ es
                @ [GpuFree CuVsBlob, GpuFree CuPsBlob])))"

text \<open>The stages of \<^verbatim>\<open>cuda_setup\<close>; each one ends the function when it fails.\<close>

definition setup_context :: "cuda_env \<Rightarrow> bool \<times> cu_obj list \<times> cu_event list" where
  "setup_context env =
     (if \<not> ce_ok env CuContext then (False, [CuDevice], [CuGpu (GpuNew CuDevice)])
      else if \<not> ce_init env \<or> \<not> ce_ok env CuCtx
      then (False, [CuContext, CuDevice], [CuGpu (GpuNew CuDevice), CuGpu (GpuNew CuContext)])
      else (True, [CuCtx, CuContext, CuDevice], [CuGpu (GpuNew CuDevice), CuGpu (GpuNew CuContext), CuCreate]))"

definition setup_textures :: "cuda_env \<Rightarrow> cu_obj list \<Rightarrow> bool \<times> cu_obj list \<times> cu_obj gpu_event list" where
  "setup_textures env held =
     (case acquire (ce_ok env) [CuYTex, CuUvTex, CuYSrv, CuUvSrv, CuOutTex, CuOutRtv] held of
        (b, held1, es) \<Rightarrow>
          if \<not> b \<or> \<not> ce_ok env CuDxgiResource then (False, held1, es)
          else (ce_handle env, held1, es @ [GpuNew CuDxgiResource, GpuFree CuDxgiResource]))"

definition setup_pass :: "cuda_env \<Rightarrow> cu_obj list \<Rightarrow> bool \<times> cu_obj list \<times> cu_obj gpu_event list" where
  "setup_pass env held =
     (case cuda_compile_shaders env held of
        (b, held1, es) \<Rightarrow>
          if \<not> b then (False, held1, es)
          else (case acquire (ce_ok env) [CuSamp, CuParams] held1 of (b2, held2, es2) \<Rightarrow> (b2, held2, es @ es2)))"

definition setup_register :: "cuda_env \<Rightarrow> cu_obj list \<Rightarrow> bool \<times> cu_obj list \<times> cu_event list" where
  "setup_register env held =
     (case acquire (ce_ok env) [CuYRes, CuUvRes] held of
        (b, held1, es) \<Rightarrow> (b, held1, [CuPush] @ map CuCall es @ [CuPop]))"

definition cuda_setup :: "cuda_env \<Rightarrow> u32 \<Rightarrow> u32 \<Rightarrow> cuda_import \<Rightarrow> bool \<times> cuda_import \<times> cu_event list" where
  "cuda_setup env width height imp =
     (case setup_context env of
        (b, held, es) \<Rightarrow>
          if \<not> b then (False, imp\<lparr>ci_held := held\<rparr>, es)
          else
            (case setup_textures env held of
               (b1, held1, es1) \<Rightarrow>
                 (let imp1 = imp\<lparr>ci_held := held1, ci_tex_width := width, ci_tex_height := height, ci_shared := b1\<rparr> in
                  if \<not> b1 then (False, imp1, es @ map CuGpu es1)
                  else
                    (case setup_pass env held1 of
                       (b2, held2, es2) \<Rightarrow>
                         if \<not> b2 then (False, imp1\<lparr>ci_held := held2\<rparr>, es @ map CuGpu es1 @ map CuGpu es2)
                         else
                           (case setup_register env held2 of
                              (b3, held3, es3) \<Rightarrow>
                                (b3, (if b3 then imp1\<lparr>ci_held := held3, ci_width := width, ci_height := height\<rparr>
                                      else imp1\<lparr>ci_held := held3\<rparr>),
                                 es @ map CuGpu es1 @ map CuGpu es2 @ es3))))))"

text \<open>The copies: a row of the luma texture has a byte for each pixel, one of the chroma texture two bytes for
  each of half as many pixels.\<close>

definition cuda_copy_planes :: "cuda_env \<Rightarrow> cuda_import \<Rightarrow> bool \<times> cu_event list" where
  "cuda_copy_planes env imp =
     (let w = unat (ci_width imp); h = unat (ci_height imp);
          tw = unat (ci_tex_width imp); th = unat (ci_tex_height imp);
          luma = CuCall (GpuCopy w h tw th);
          chroma = CuCall (GpuCopy w (h div 2) (tw div 2 * 2) (th div 2));
          mapped = [CuCall (GpuUse CuYRes), CuCall (GpuUse CuUvRes)];
          copies = (if \<not> ce_arrays env then [] else if \<not> ce_copy_y env then [luma] else [luma, chroma]) in
      if \<not> ce_push env then (False, [])
      else if \<not> ce_map env then (False, [CuPush, CuPop])
      else (ce_arrays env \<and> ce_copy_y env \<and> ce_copy_uv env \<and> ce_sync env, [CuPush] @ mapped @ copies @ mapped @ [CuPop]))"

text \<open>The parameters of the conversion pass: BT.709 and full range.\<close>

definition render_params :: "av_color_space \<Rightarrow> bool \<Rightarrow> bool \<times> bool" where
  "render_params cs jpeg = (cs = AVCOL_SPC_BT709 \<or> cs = AVCOL_SPC_BT2020_NCL \<or> cs = AVCOL_SPC_BT2020_CL, jpeg)"

definition cuda_render :: "cu_event list" where
  "cuda_render = map (CuGpu o GpuUse) [CuContext, CuParams, CuOutRtv, CuVs, CuPs, CuYSrv, CuUvSrv, CuSamp]"

record cuda_frame =
  cu_is_cuda :: bool
  cu_planes :: bool
  cu_width :: u32
  cu_height :: u32

text \<open>The cache, rebuilt for the first frame and for a change of size.\<close>

definition cuda_ready :: "cuda_env \<Rightarrow> u32 \<Rightarrow> u32 \<Rightarrow> cuda_import \<Rightarrow> bool \<times> cuda_import \<times> cu_event list" where
  "cuda_ready env w h imp =
     (if ci_width imp \<noteq> w \<or> ci_height imp \<noteq> h
      then
        (case cuda_clear imp of
           (imp1, es1) \<Rightarrow>
             (case cuda_setup env w h imp1 of
                (b, imp2, es2) \<Rightarrow>
                  if b then (True, imp2, es1 @ es2)
                  else (case cuda_clear (imp2\<lparr>ci_unavailable := True\<rparr>) of
                          (imp3, es3) \<Rightarrow> (False, imp3, es1 @ es2 @ es3))))
      else (True, imp, []))"

definition cuda_draw :: "cuda_env \<Rightarrow> cuda_import \<Rightarrow> bool \<times> cu_event list" where
  "cuda_draw env imp =
     (case cuda_copy_planes env imp of
        (copied, es) \<Rightarrow>
          if \<not> copied then (False, es)
          else (ce_open env, es @ cuda_render @ (if ce_open env then [CuGpu GpuOpen] else [])))"

text \<open>\<open>lib\<close> is the driver library, \<open>device\<close> whether OBS has a D3D11 device, \<open>fresh\<close> whether the importer can be
  allocated.\<close>

definition zc_hw_cuda_import_frame ::
  "(string \<Rightarrow> bool) option \<Rightarrow> cuda_env \<Rightarrow> bool \<Rightarrow> int \<Rightarrow> bool \<Rightarrow> cuda_frame \<Rightarrow> cuda_import option
    \<Rightarrow> bool \<times> cuda_import option \<times> cu_event list" where
  "zc_hw_cuda_import_frame lib env fresh cuda_device device f slot =
     (let latched = map_option (\<lambda>i. i\<lparr>ci_unavailable := True\<rparr>) slot in
      if slot \<noteq> None \<and> ci_unavailable (the slot) then (False, slot, [])
      else if cuda_device < 0 \<or> \<not> device then (False, latched, [])
      else if \<not> cu_is_cuda f \<or> \<not> cu_planes f then (False, slot, [])
      else if cu_width f = 0 \<or> cu_height f = 0 \<or> odd (cu_width f) \<or> odd (cu_height f) then (False, slot, [])
      else if \<not> zc_cuda_api_get lib then (False, latched, [])
      else if slot = None \<and> \<not> fresh then (False, slot, [])
      else
        (case cuda_ready env (cu_width f) (cu_height f) (case slot of None \<Rightarrow> ci_new | Some i \<Rightarrow> i) of
           (b, imp1, es) \<Rightarrow>
             if \<not> b then (False, Some imp1, es)
             else (case cuda_draw env imp1 of (out, es2) \<Rightarrow> (out, Some imp1, es @ es2))))"

definition zc_hw_cuda_import_free :: "cuda_import option \<Rightarrow> cu_event list" where
  "zc_hw_cuda_import_free slot = (case slot of None \<Rightarrow> [] | Some imp \<Rightarrow> snd (cuda_clear imp))"

subsection \<open>Ownership\<close>

text \<open>The objects alive, and how often the own context is on the stack of the thread. Calls into CUDA need it to be
  current, and a context is destroyed when nothing is registered with it any more.\<close>

type_synonym cu_mon = "cu_obj set \<times> nat"

definition on_objects :: "cu_obj gpu_event \<Rightarrow> cu_mon \<Rightarrow> cu_mon option" where
  "on_objects e m = (case gpu_monitor e (fst m) of None \<Rightarrow> None | Some x \<Rightarrow> Some (x, snd m))"

fun cu_monitor :: "cu_event \<Rightarrow> cu_mon \<Rightarrow> cu_mon option" where
  "cu_monitor (CuGpu e) m = on_objects e m"
| "cu_monitor (CuCall e) m = (if snd m = 0 then None else on_objects e m)"
| "cu_monitor CuCreate m = (if CuCtx \<in> fst m then None else Some (insert CuCtx (fst m), snd m + 1))"
| "cu_monitor CuDestroy m =
     (if CuCtx \<in> fst m \<and> CuYRes \<notin> fst m \<and> CuUvRes \<notin> fst m \<and> snd m = 1 then Some (fst m - {CuCtx}, 0) else None)"
| "cu_monitor CuPush m = (if CuCtx \<in> fst m then Some (fst m, snd m + 1) else None)"
| "cu_monitor CuPop m = (if snd m = 0 then None else Some (fst m, snd m - 1))"

lemma run_objects: "mon_run gpu_monitor es m = Some m1 \<Longrightarrow> mon_run cu_monitor (map CuGpu es) (m, d) = Some (m1, d)"
  by (induction es arbitrary: m) (auto simp: on_objects_def split: option.splits)

lemma run_calls: "mon_run gpu_monitor es m = Some m1 \<Longrightarrow> d > 0 \<Longrightarrow> mon_run cu_monitor (map CuCall es) (m, d) = Some (m1, d)"
  by (induction es arbitrary: m) (auto simp: on_objects_def split: option.splits)

definition cu_temporary :: "cu_obj set" where
  "cu_temporary = {CuDxgiResource, CuVsBlob, CuPsBlob, CuErrorBlob}"

definition ci_view :: "cuda_import \<Rightarrow> cu_mon" where
  "ci_view imp = (set (ci_held imp), if CuCtx \<in> set (ci_held imp) then 1 else 0)"

text \<open>What a setup may leave behind when it stops half way.\<close>

definition ci_partial :: "cuda_import \<Rightarrow> bool" where
  "ci_partial imp \<longleftrightarrow> set (ci_held imp) \<inter> cu_temporary = {}
     \<and> (CuYRes \<in> set (ci_held imp) \<or> CuUvRes \<in> set (ci_held imp) \<longrightarrow> CuCtx \<in> set (ci_held imp))"

lemma release_part:
  assumes "distinct xs" "set xs \<inter> set held \<subseteq> m"
  shows "mon_run gpu_monitor (release xs held) m = Some (m - (set xs \<inter> set held))"
  using release_filtered [OF assms] by (simp add: release_def)

lemma cu_obj_cases: "(UNIV :: cu_obj set) = {CuCtx, CuYRes, CuUvRes} \<union> set d3d_order \<union> cu_temporary"
proof -
  have "x \<in> {CuCtx, CuYRes, CuUvRes} \<union> set d3d_order \<union> cu_temporary" for x
    by (cases x) (simp_all add: d3d_order_def cu_temporary_def)
  then show ?thesis by blast
qed

lemma d3d_order_facts: "distinct d3d_order" "CuCtx \<notin> set d3d_order" "CuYRes \<notin> set d3d_order" "CuUvRes \<notin> set d3d_order"
  by (simp_all add: d3d_order_def)

lemma cuda_clear_ok:
  assumes "ci_partial imp"
  shows "mon_run cu_monitor (snd (cuda_clear imp)) (ci_view imp) = Some ({}, 0)" "ci_held (fst (cuda_clear imp)) = []"
    "ci_unavailable (fst (cuda_clear imp)) = ci_unavailable imp" "ci_width (fst (cuda_clear imp)) = 0" "ci_height (fst (cuda_clear imp)) = 0"
proof -
  let ?h = "set (ci_held imp)"
  let ?rest = "?h - {CuYRes, CuUvRes, CuCtx}"
  have cover: "?rest \<subseteq> set d3d_order"
    using assms cu_obj_cases by (auto simp: ci_partial_def)
  have sub: "set d3d_order \<inter> ?h = ?rest" using cover d3d_order_facts by auto
  have objects: "mon_run cu_monitor (map CuGpu (release d3d_order (ci_held imp))) (?rest, 0) = Some ({}, 0)"
    using release_part [OF d3d_order_facts(1), of "ci_held imp" ?rest] sub by (intro run_objects) simp
  show "mon_run cu_monitor (snd (cuda_clear imp)) (ci_view imp) = Some ({}, 0)"
  proof (cases "CuCtx \<in> ?h")
    case True
    let ?calls = "map CuCall (release [CuYRes, CuUvRes] (ci_held imp))"
    have "mon_run gpu_monitor (release [CuYRes, CuUvRes] (ci_held imp)) ?h = Some (?h - {CuYRes, CuUvRes} \<inter> ?h)"
      using release_part [of "[CuYRes, CuUvRes]" "ci_held imp" ?h, OF _ Int_lower2] by simp
    then have calls: "mon_run cu_monitor ?calls (?h, 2) = Some (?h - {CuYRes, CuUvRes} \<inter> ?h, 2)"
      by (intro run_calls) simp_all
    have push: "mon_run cu_monitor [CuPush] (?h, 1) = Some (?h, 2)" using True by simp
    have pop: "mon_run cu_monitor [CuPop, CuDestroy] (?h - {CuYRes, CuUvRes} \<inter> ?h, 2) = Some (?rest, 0)"
      using True by auto
    have "snd (cuda_clear imp) = [CuPush] @ ?calls @ [CuPop, CuDestroy] @ map CuGpu (release d3d_order (ci_held imp))"
      using True by (simp add: cuda_clear_def)
    moreover have "ci_view imp = (?h, 1)" using True by (simp add: ci_view_def)
    ultimately show ?thesis
      by (simp only: mon_run_then [OF push] mon_run_then [OF calls] mon_run_then [OF pop] objects)
  next
    case False
    with assms have "?rest = ?h" by (auto simp: ci_partial_def)
    with False objects show ?thesis by (simp add: cuda_clear_def ci_view_def)
  qed
qed (simp_all add: cuda_clear_def)

text \<open>A stage of the setup that only creates D3D11 objects.\<close>

definition stage :: "cu_obj set \<Rightarrow> cu_obj list \<Rightarrow> bool \<times> cu_obj list \<times> cu_obj gpu_event list \<Rightarrow> bool" where
  "stage new held r = (case r of (b, held1, es) \<Rightarrow>
     mon_run gpu_monitor es (set held) = Some (set held1) \<and> set held \<subseteq> set held1 \<and> set held1 \<subseteq> set held \<union> new
     \<and> (b \<longrightarrow> set held1 = set held \<union> new))"

lemma acquire_stage:
  assumes "distinct xs" "set xs \<inter> set held = {}"
  shows "stage (set xs) held (acquire ok xs held)"
proof -
  obtain b held1 es where a: "acquire ok xs held = (b, held1, es)" by (metis prod.collapse)
  show ?thesis unfolding a stage_def prod.case using acquire_ok [OF a assms] acquire_mono [OF a] by blast
qed

lemma stage_then:
  assumes "stage new held (b, held1, es)" "mon_run gpu_monitor es2 (set held1) = Some (set held1)" "b2 \<longrightarrow> b"
  shows "stage new held (b2, held1, es @ es2)"
  using assms unfolding stage_def prod.case by (simp add: mon_run_then)

lemma setup_textures_stage:
  assumes "set held = {CuCtx, CuContext, CuDevice}"
  shows "stage {CuYTex, CuUvTex, CuYSrv, CuUvSrv, CuOutTex, CuOutRtv} held (setup_textures env held)"
proof -
  let ?xs = "[CuYTex, CuUvTex, CuYSrv, CuUvSrv, CuOutTex, CuOutRtv]"
  obtain b held1 es where a: "acquire (ce_ok env) ?xs held = (b, held1, es)" by (metis prod.collapse)
  have st: "stage (set ?xs) held (b, held1, es)"
    unfolding a [symmetric] by (rule acquire_stage) (simp_all add: assms)
  then have "set held1 \<subseteq> set held \<union> set ?xs" by (simp only: stage_def prod.case)
  then have "CuDxgiResource \<notin> set held1" using assms by auto
  then have dxgi: "mon_run gpu_monitor [GpuNew CuDxgiResource, GpuFree CuDxgiResource] (set held1) = Some (set held1)" by simp
  have no: "stage (set ?xs) held (False, held1, es)"
    using stage_then [OF st, of "[]" False] by simp
  have yes: "stage (set ?xs) held (ce_handle env, held1, es @ [GpuNew CuDxgiResource, GpuFree CuDxgiResource])" if "b"
    using stage_then [OF st dxgi] that by simp
  have "setup_textures env held =
    (if \<not> b \<or> \<not> ce_ok env CuDxgiResource then (False, held1, es)
     else (ce_handle env, held1, es @ [GpuNew CuDxgiResource, GpuFree CuDxgiResource]))"
    unfolding setup_textures_def a prod.case by (rule refl)
  then show ?thesis using no yes by (cases b; cases "ce_ok env CuDxgiResource") simp_all
qed

lemma error_blob_ok: "CuErrorBlob \<notin> m \<Longrightarrow> mon_run gpu_monitor (error_blob env) m = Some m"
  by (simp add: error_blob_def)

lemma shaders_stage:
  assumes "set held \<inter> {CuVs, CuPs, CuVsBlob, CuPsBlob, CuErrorBlob} = {}"
  shows "stage {CuVs, CuPs} held (cuda_compile_shaders env held)"
proof -
  let ?h = "set held" and ?e = "error_blob env"
  obtain b held1 es where a: "acquire (ce_ok env) [CuVs, CuPs] held = (b, held1, es)" by (metis prod.collapse)
  have h: "CuErrorBlob \<notin> ?h" "CuVsBlob \<notin> ?h" "CuPsBlob \<notin> ?h" "CuVs \<notin> ?h" "CuPs \<notin> ?h" using assms by auto
  have acq: "?h \<subseteq> set held1" "set held1 \<subseteq> ?h \<union> {CuVs, CuPs}" "b \<longrightarrow> set held1 = ?h \<union> {CuVs, CuPs}"
    using acquire_mono [OF a] acquire_ok [OF a] h(4,5) by auto
  have run: "mon_run gpu_monitor es (?h \<union> {CuVsBlob, CuPsBlob}) = Some (set held1 \<union> {CuVsBlob, CuPsBlob})"
    by (rule acquire_frame [OF a]) (use h in auto)
  have blobs: "mon_run gpu_monitor [GpuFree CuVsBlob, GpuFree CuPsBlob] (set held1 \<union> {CuVsBlob, CuPsBlob}) = Some (set held1)"
    using acq(2) h by auto
  have vs: "mon_run gpu_monitor [GpuNew CuVsBlob] ?h = Some (insert CuVsBlob ?h)" using h by simp
  have ps: "mon_run gpu_monitor [GpuNew CuPsBlob] (insert CuVsBlob ?h) = Some (?h \<union> {CuVsBlob, CuPsBlob})"
    using h by auto
  have fr: "mon_run gpu_monitor [GpuFree CuVsBlob] (insert CuVsBlob ?h) = Some ?h" using h by auto
  have e0: "mon_run gpu_monitor ?e ?h = Some ?h" and e1: "mon_run gpu_monitor ?e (insert CuVsBlob ?h) = Some (insert CuVsBlob ?h)"
    and e2: "mon_run gpu_monitor ?e (?h \<union> {CuVsBlob, CuPsBlob}) = Some (?h \<union> {CuVsBlob, CuPsBlob})"
    using h by (simp_all add: error_blob_ok)
  consider "\<not> ce_compile_vs env" | "ce_compile_vs env" "\<not> ce_compile_ps env" | "ce_compile_vs env" "ce_compile_ps env" by blast
  then show ?thesis
  proof cases
    case 1
    then show ?thesis using e0 by (auto simp: cuda_compile_shaders_def stage_def)
  next
    case 2
    then have "cuda_compile_shaders env held = (False, held, [GpuNew CuVsBlob] @ ?e @ [GpuFree CuVsBlob] @ ?e)"
      by (simp add: cuda_compile_shaders_def)
    then show ?thesis
      unfolding stage_def
      by (simp only: prod.case mon_run_then [OF vs] mon_run_then [OF e1] mon_run_then [OF fr] e0) auto
  next
    case 3
    then have "cuda_compile_shaders env held = (b, held1, [GpuNew CuVsBlob] @ ?e @ [GpuNew CuPsBlob] @ ?e @ es
        @ [GpuFree CuVsBlob, GpuFree CuPsBlob])"
      unfolding cuda_compile_shaders_def a by simp
    then show ?thesis
      unfolding stage_def
      by (simp only: prod.case mon_run_then [OF vs] mon_run_then [OF e1] mon_run_then [OF ps] mon_run_then [OF e2]
          mon_run_then [OF run] blobs) (use acq in simp)
  qed
qed

lemma setup_pass_stage:
  assumes "set held \<inter> {CuVs, CuPs, CuSamp, CuParams, CuVsBlob, CuPsBlob, CuErrorBlob} = {}"
  shows "stage {CuVs, CuPs, CuSamp, CuParams} held (setup_pass env held)"
proof -
  obtain b held1 es where c: "cuda_compile_shaders env held = (b, held1, es)" by (metis prod.collapse)
  have "stage {CuVs, CuPs} held (b, held1, es)"
    unfolding c [symmetric] by (rule shaders_stage) (use assms in auto)
  then have s1: "mon_run gpu_monitor es (set held) = Some (set held1)" "set held1 \<subseteq> set held \<union> {CuVs, CuPs}"
    "set held \<subseteq> set held1" "b \<longrightarrow> set held1 = set held \<union> {CuVs, CuPs}" unfolding stage_def prod.case by blast+
  obtain b2 held2 es2 where a: "acquire (ce_ok env) [CuSamp, CuParams] held1 = (b2, held2, es2)" by (metis prod.collapse)
  have s2: "mon_run gpu_monitor es2 (set held1) = Some (set held2)" "set held2 \<subseteq> set held1 \<union> {CuSamp, CuParams}"
    "set held1 \<subseteq> set held2" "b2 \<longrightarrow> set held2 = set held1 \<union> {CuSamp, CuParams}"
    using acquire_ok [OF a] acquire_mono [OF a] s1(2) assms by auto
  have "setup_pass env held = (if b then (b2, held2, es @ es2) else (False, held1, es))"
    unfolding setup_pass_def c prod.case a by simp
  then show ?thesis
    unfolding stage_def using s1 s2 by (cases b) (auto simp: mon_run_then)
qed

lemma setup_context_ok:
  "setup_context env = (b, held, es) \<Longrightarrow>
     mon_run cu_monitor es ({}, 0) = Some (set held, if b then 1 else 0)
     \<and> (if b then set held = {CuCtx, CuContext, CuDevice} else set held \<subseteq> {CuContext, CuDevice})"
  by (auto simp: setup_context_def on_objects_def split: if_splits)

lemma setup_register_ok:
  assumes "setup_register env held = (b, held1, es)" "CuCtx \<in> set held" "CuYRes \<notin> set held" "CuUvRes \<notin> set held"
  shows "mon_run cu_monitor es (set held, 1) = Some (set held1, 1)" "set held \<subseteq> set held1" "set held1 \<subseteq> set held \<union> {CuYRes, CuUvRes}"
    "b \<longrightarrow> set held1 = set held \<union> {CuYRes, CuUvRes}"
proof -
  obtain b2 held2 es2 where a: "acquire (ce_ok env) [CuYRes, CuUvRes] held = (b2, held2, es2)" by (metis prod.collapse)
  then have r: "b = b2" "held1 = held2" "es = [CuPush] @ map CuCall es2 @ [CuPop]"
    using assms(1) unfolding setup_register_def a prod.case by simp_all
  have s: "mon_run gpu_monitor es2 (set held) = Some (set held2)" "set held2 \<subseteq> set held \<union> {CuYRes, CuUvRes}"
    "b2 \<longrightarrow> set held2 = set held \<union> {CuYRes, CuUvRes}"
    using acquire_ok [OF a] assms(3,4) by auto
  have push: "mon_run cu_monitor [CuPush] (set held, 1) = Some (set held, 2)" using assms(2) by simp
  have calls: "mon_run cu_monitor (map CuCall es2) (set held, 2) = Some (set held2, 2)" by (rule run_calls [OF s(1)]) simp
  have pop: "mon_run cu_monitor [CuPop] (set held2, 2) = Some (set held2, 1)" by simp
  show "mon_run cu_monitor es (set held, 1) = Some (set held1, 1)"
    unfolding r by (simp only: mon_run_then [OF push] mon_run_then [OF calls] pop)
  show "set held \<subseteq> set held1" using acquire_mono [OF a] r(2) by simp
  show "set held1 \<subseteq> set held \<union> {CuYRes, CuUvRes}" "b \<longrightarrow> set held1 = set held \<union> {CuYRes, CuUvRes}"
    using s r by simp_all
qed

text \<open>A complete cache of the size it was built for.\<close>

definition ci_full :: "cuda_import \<Rightarrow> bool" where
  "ci_full imp \<longleftrightarrow> set (ci_held imp) = - cu_temporary \<and> ci_tex_width imp = ci_width imp \<and> ci_tex_height imp = ci_height imp"

definition setup_base :: "cu_obj set" where
  "setup_base = {CuCtx, CuContext, CuDevice}"

definition setup_textured :: "cu_obj set" where
  "setup_textured = setup_base \<union> {CuYTex, CuUvTex, CuYSrv, CuUvSrv, CuOutTex, CuOutRtv}"

definition setup_passed :: "cu_obj set" where
  "setup_passed = setup_textured \<union> {CuVs, CuPs, CuSamp, CuParams}"

lemmas setup_sets = setup_base_def setup_textured_def setup_passed_def cu_temporary_def

lemma all_passed: "setup_passed \<union> {CuYRes, CuUvRes} = - cu_temporary"
proof -
  have "x \<in> setup_passed \<union> {CuYRes, CuUvRes} \<longleftrightarrow> x \<notin> cu_temporary" for x
    by (cases x) (simp_all add: setup_sets)
  then show ?thesis by blast
qed

lemma ci_view_base:
  "CuCtx \<in> set (ci_held imp) \<Longrightarrow> ci_view imp = (set (ci_held imp), 1)"
  "CuCtx \<notin> set (ci_held imp) \<Longrightarrow> ci_view imp = (set (ci_held imp), 0)"
  by (simp_all add: ci_view_def)

lemma ci_partial_sub: "CuCtx \<in> set (ci_held imp) \<Longrightarrow> set (ci_held imp) \<subseteq> setup_passed \<union> {CuYRes, CuUvRes} \<Longrightarrow> ci_partial imp"
  unfolding all_passed ci_partial_def by blast

lemma cuda_setup_ok:
  assumes "cuda_setup env w h imp = (b, imp1, es)"
  shows "mon_run cu_monitor es ({}, 0) = Some (ci_view imp1) \<and> ci_partial imp1 \<and> (b \<longrightarrow> ci_full imp1 \<and> ci_width imp1 = w \<and> ci_height imp1 = h)"
proof -
  obtain b0 h0 e0 where c: "setup_context env = (b0, h0, e0)" by (metis prod.collapse)
  note c1 = setup_context_ok [OF c]
  show ?thesis
  proof (cases b0)
    case False
    with assms have r: "b = False" "imp1 = imp\<lparr>ci_held := h0\<rparr>" "es = e0" by (simp_all add: cuda_setup_def c)
    with c1 False show ?thesis by (auto simp: ci_view_def ci_partial_def cu_temporary_def)
  next
    case True
    with c1 have base: "set h0 = setup_base" and run0: "mon_run cu_monitor e0 ({}, 0) = Some (setup_base, 1)"
      by (simp_all add: setup_base_def)
    obtain b1 h1 e1 where t: "setup_textures env h0 = (b1, h1, e1)" by (metis prod.collapse)
    have "stage {CuYTex, CuUvTex, CuYSrv, CuUvSrv, CuOutTex, CuOutRtv} h0 (b1, h1, e1)"
      unfolding t [symmetric] by (rule setup_textures_stage) (simp add: base setup_base_def)
    then have t1: "mon_run gpu_monitor e1 setup_base = Some (set h1)" "set h1 \<subseteq> setup_textured" "setup_base \<subseteq> set h1" "b1 \<longrightarrow> set h1 = setup_textured"
      unfolding stage_def prod.case base setup_textured_def by blast+
    have run1: "mon_run cu_monitor (map CuGpu e1) (setup_base, 1) = Some (set h1, 1)" by (rule run_objects [OF t1(1)])
    have ctx1: "CuCtx \<in> set h1" using t1(3) by (auto simp: setup_base_def)
    let ?i1 = "imp\<lparr>ci_held := h1, ci_tex_width := w, ci_tex_height := h, ci_shared := b1\<rparr>"
    show ?thesis
    proof (cases b1)
      case False
      with assms True have "b = False" "imp1 = ?i1" "es = e0 @ map CuGpu e1" by (simp_all add: cuda_setup_def c t Let_def)
      moreover have "ci_partial ?i1" using ctx1 t1(2) by (intro ci_partial_sub) (auto simp: setup_passed_def)
      ultimately show ?thesis using ctx1 run0 run1 by (simp add: ci_view_def)
    next
      case b1: True
      with t1 have h1: "set h1 = setup_textured" by simp
      obtain b2 h2 e2 where p: "setup_pass env h1 = (b2, h2, e2)" by (metis prod.collapse)
      have "stage {CuVs, CuPs, CuSamp, CuParams} h1 (b2, h2, e2)"
        unfolding p [symmetric] by (rule setup_pass_stage) (simp add: h1 setup_sets)
      then have p1: "mon_run gpu_monitor e2 (set h1) = Some (set h2)" "set h2 \<subseteq> setup_passed" "set h1 \<subseteq> set h2" "b2 \<longrightarrow> set h2 = setup_passed"
        unfolding stage_def prod.case h1 setup_passed_def by blast+
      have run2: "mon_run cu_monitor (map CuGpu e2) (set h1, 1) = Some (set h2, 1)" by (rule run_objects [OF p1(1)])
      have ctx2: "CuCtx \<in> set h2" using ctx1 p1(3) by blast
      let ?i2 = "?i1\<lparr>ci_held := h2\<rparr>"
      show ?thesis
      proof (cases b2)
        case False
        with assms True b1 have "b = False" "imp1 = ?i2" "es = e0 @ map CuGpu e1 @ map CuGpu e2"
          by (simp_all add: cuda_setup_def c t p Let_def)
        moreover have "ci_partial ?i2" using ctx2 p1(2) by (intro ci_partial_sub) auto
        ultimately show ?thesis using ctx2 run0 run1 run2 by (simp add: ci_view_def)
      next
        case b2: True
        with p1 have h2: "set h2 = setup_passed" by simp
        obtain b3 h3 e3 where g: "setup_register env h2 = (b3, h3, e3)" by (metis prod.collapse)
        have "CuYRes \<notin> set h2" "CuUvRes \<notin> set h2" by (simp_all add: h2 setup_sets)
        note g1 = setup_register_ok [OF g ctx2 this]
        have ctx3: "CuCtx \<in> set h3" using ctx2 g1(2) by blast
        have sub: "set h3 \<subseteq> setup_passed \<union> {CuYRes, CuUvRes}" using g1(3) by (simp only: h2)
        have fin: "b = b3" "es = e0 @ map CuGpu e1 @ map CuGpu e2 @ e3" "ci_held imp1 = h3"
          "b3 \<longrightarrow> ci_width imp1 = w \<and> ci_height imp1 = h \<and> ci_tex_width imp1 = w \<and> ci_tex_height imp1 = h"
          using assms True b1 b2 by (auto simp: cuda_setup_def c t p g Let_def)
        have "mon_run cu_monitor es ({}, 0) = Some (ci_view imp1)"
          unfolding fin(2) using g1(1) ctx3
          by (simp only: mon_run_then [OF run0] mon_run_then [OF run1] mon_run_then [OF run2] ci_view_def fin(3) if_True)
        moreover have "ci_partial imp1" using ctx3 sub fin(3) by (intro ci_partial_sub) simp_all
        moreover have "b \<longrightarrow> set h3 = - cu_temporary" using g1(4) all_passed h2 fin(1) by simp
        ultimately show ?thesis using fin by (simp add: ci_full_def)
      qed
    qed
  qed
qed

subsection \<open>Imports\<close>

definition ci_inv :: "cuda_import \<Rightarrow> bool" where
  "ci_inv imp \<longleftrightarrow> ci_held imp = [] \<and> ci_width imp = 0 \<and> ci_height imp = 0 \<or> ci_full imp \<and> even (ci_width imp) \<and> even (ci_height imp)"

fun cu_slot_inv :: "cuda_import option \<Rightarrow> bool" where
  "cu_slot_inv None = True"
| "cu_slot_inv (Some imp) = ci_inv imp"

fun cu_slot_view :: "cuda_import option \<Rightarrow> cu_mon" where
  "cu_slot_view None = ({}, 0)"
| "cu_slot_view (Some imp) = ci_view imp"

lemma full_objects: "ci_full imp \<Longrightarrow> x \<notin> cu_temporary \<Longrightarrow> x \<in> set (ci_held imp)"
  by (simp add: ci_full_def)

lemma full_partial: "ci_full imp \<Longrightarrow> ci_partial imp"
  by (auto simp: ci_full_def ci_partial_def cu_temporary_def)

lemma ci_inv_partial: "ci_inv imp \<Longrightarrow> ci_partial imp"
  by (auto simp: ci_inv_def full_partial) (simp add: ci_partial_def)

lemma full_view: "ci_full imp \<Longrightarrow> ci_view imp = (- cu_temporary, 1)"
  by (auto simp: ci_full_def ci_view_def cu_temporary_def)

lemma even_unat: "even w \<longleftrightarrow> even (unat (w :: u32))"
  by transfer (simp add: even_nat_iff)

lemma cuda_planes_ok:
  assumes "ci_full imp" "even (ci_width imp)"
  shows "mon_run cu_monitor (snd (cuda_copy_planes env imp)) (- cu_temporary, 1) = Some (- cu_temporary, 1)"
proof -
  have "even (unat (ci_width imp))" using assms(2) by (simp add: even_unat)
  then have "unat (ci_width imp) \<le> unat (ci_width imp) div 2 * 2" by (simp add: dvd_div_mult_self)
  then show ?thesis
    using assms(1) by (simp add: cuda_copy_planes_def Let_def ci_full_def on_objects_def cu_temporary_def)
qed

lemma render_ok: "mon_run cu_monitor cuda_render (- cu_temporary, 1) = Some (- cu_temporary, 1)"
  by (simp add: cuda_render_def on_objects_def cu_temporary_def)

lemma cuda_ready_ok:
  assumes "ci_inv imp" "cuda_ready env w h imp = (b, imp1, es)" "even w" "even h" "w \<noteq> 0"
  shows "ci_inv imp1 \<and> mon_run cu_monitor es (ci_view imp) = Some (ci_view imp1) \<and> (b \<longrightarrow> ci_full imp1 \<and> even (ci_width imp1))"
proof -
  obtain i1 es1 where c: "cuda_clear imp = (i1, es1)" by fastforce
  obtain b2 i2 es2 where st: "cuda_setup env w h i1 = (b2, i2, es2)" by (metis prod.collapse)
  obtain i3 es3 where d: "cuda_clear (i2\<lparr>ci_unavailable := True\<rparr>) = (i3, es3)" by fastforce
  let ?stale = "ci_width imp \<noteq> w \<or> ci_height imp \<noteq> h"
  have eq: "cuda_ready env w h imp =
    (if ?stale then (if b2 then (True, i2, es1 @ es2) else (False, i3, es1 @ es2 @ es3)) else (True, imp, []))"
    unfolding cuda_ready_def c prod.case st d by (rule refl)
  have clear: "mon_run cu_monitor es1 (ci_view imp) = Some ({}, 0)"
    using cuda_clear_ok(1) [OF ci_inv_partial [OF assms(1)]] by (simp add: c)
  note made = cuda_setup_ok [OF st]
  have part: "ci_partial (i2\<lparr>ci_unavailable := True\<rparr>)" "ci_view (i2\<lparr>ci_unavailable := True\<rparr>) = ci_view i2"
    using made by (simp_all add: ci_partial_def ci_view_def)
  have gone: "mon_run cu_monitor es3 (ci_view i2) = Some ({}, 0)" "ci_held i3 = []" "ci_width i3 = 0" "ci_height i3 = 0"
    using cuda_clear_ok [OF part(1)] by (simp_all add: d part(2))
  have all: "mon_run cu_monitor (es1 @ es2 @ es3) (ci_view imp) = Some ({}, 0)"
    "mon_run cu_monitor (es1 @ es2) (ci_view imp) = Some (ci_view i2)"
    using clear made gone(1) by simp_all
  have empty: "ci_inv i3" "ci_view i3 = ({}, 0)" using gone by (simp_all add: ci_inv_def ci_view_def)
  show ?thesis
  proof (cases ?stale)
    case False
    then have "ci_full imp" using assms(1,5) by (auto simp: ci_inv_def)
    with False assms eq show ?thesis by simp
  next
    case True
    show ?thesis
    proof (cases b2)
      case b2: True
      then have "ci_full i2" "ci_width i2 = w" "ci_height i2 = h" using made by simp_all
      with True b2 eq assms(2-4) all(2) show ?thesis by (simp add: ci_inv_def)
    next
      case b2: False
      with True eq assms(2) all(1) empty show ?thesis by simp
    qed
  qed
qed

lemma cuda_draw_ok:
  assumes "ci_full imp" "even (ci_width imp)"
  shows "mon_run cu_monitor (snd (cuda_draw env imp)) (ci_view imp) = Some (ci_view imp)"
proof -
  obtain copied es where c: "cuda_copy_planes env imp = (copied, es)" by fastforce
  have "mon_run cu_monitor es (- cu_temporary, 1) = Some (- cu_temporary, 1)"
    using cuda_planes_ok [OF assms, of env] by (simp add: c)
  with render_ok full_view [OF assms(1)] show ?thesis by (simp add: cuda_draw_def c on_objects_def)
qed

lemma cuda_import_frame_ok:
  assumes "cu_slot_inv slot" "zc_hw_cuda_import_frame lib env fresh cuda_device device f slot = (out, slot1, es)"
  shows "cu_slot_inv slot1 \<and> mon_run cu_monitor es (cu_slot_view slot) = Some (cu_slot_view slot1)"
proof -
  let ?imp = "case slot of None \<Rightarrow> ci_new | Some i \<Rightarrow> i"
  have imp: "ci_inv ?imp" "ci_view ?imp = cu_slot_view slot"
    using assms(1) by (cases slot; simp add: ci_new_def ci_inv_def ci_view_def)+
  obtain b i1 es1 where r: "cuda_ready env (cu_width f) (cu_height f) ?imp = (b, i1, es1)" by (metis prod.collapse)
  obtain t es2 where d: "cuda_draw env i1 = (t, es2)" by fastforce
  let ?latched = "map_option (\<lambda>i. i\<lparr>ci_unavailable := True\<rparr>) slot"
  have latched: "cu_slot_inv ?latched" "cu_slot_view ?latched = cu_slot_view slot"
    using assms(1) by (cases slot; simp add: ci_inv_def ci_full_def ci_view_def)+
  consider (kept) "slot1 = slot" "es = []" | (latch) "slot1 = ?latched" "es = []"
    | (drawn) "even (cu_width f)" "even (cu_height f)" "cu_width f \<noteq> 0" "slot1 = Some i1" "es = (if b then es1 @ es2 else es1)"
    using assms(2) unfolding zc_hw_cuda_import_frame_def Let_def r prod.case d by (auto split: if_splits)
  then show ?thesis
  proof cases
    case kept
    with assms(1) show ?thesis by simp
  next
    case latch
    with latched show ?thesis by simp
  next
    case drawn
    note ready = cuda_ready_ok [OF imp(1) r drawn(1-3)]
    have "b \<Longrightarrow> mon_run cu_monitor es2 (ci_view i1) = Some (ci_view i1)"
      using cuda_draw_ok [of i1 env] ready d by simp
    with ready drawn imp(2) show ?thesis by (cases b) simp_all
  qed
qed

text \<open>What one import is given: the driver library, the environment, whether the importer can be allocated, the ordinal, the
  device and the frame.\<close>

datatype cuda_input = CudaFrame "(string \<Rightarrow> bool) option" cuda_env bool int bool cuda_frame

fun cuda_step :: "cuda_input \<Rightarrow> cuda_import option \<Rightarrow> cuda_import option \<times> cu_event list" where
  "cuda_step (CudaFrame lib env fresh cuda_device device f) slot =
     snd (zc_hw_cuda_import_frame lib env fresh cuda_device device f slot)"

interpretation cuda: monitored cuda_step cu_slot_inv cu_monitor cu_slot_view
proof
  fix slot i
  assume "cu_slot_inv slot"
  then show "cu_slot_inv (fst (cuda_step i slot))" "tracked cu_monitor cu_slot_view slot (cuda_step i slot)"
    by (cases i, metis cuda_step.simps cuda_import_frame_ok prod.collapse tracked_def)+
qed

lemma cuda_import_free_ok: "cu_slot_inv slot \<Longrightarrow> mon_run cu_monitor (zc_hw_cuda_import_free slot) (cu_slot_view slot) = Some ({}, 0)"
  using cuda_clear_ok(1) ci_inv_partial by (cases slot) (simp_all add: zc_hw_cuda_import_free_def)

text \<open>
  C30. The CUDA importer owns its objects and its context: for every sequence of frames of any size, and
  whatever call fails, each object is created, used and released while it is held, every CUDA call is made
  with the own context current, the context is destroyed with nothing registered and nothing of it on the
  stack of the thread, both plane copies fit their textures, and after the free nothing is left.
\<close>

theorem cuda_import_resources:
  "mon_run cu_monitor (snd (run_trace cuda_step inputs None) @ zc_hw_cuda_import_free (fst (run_trace cuda_step inputs None))) ({}, 0)
     = Some ({}, 0)"
  using cuda.run_accepted [of None inputs] cuda.run_inv [of None inputs] cuda_import_free_ok by simp

end
