(* ===== verification/Hw_Import.thy ===== *)
theory Hw_Import
  imports Hw_Ffmpeg D3d11_Import Cuda_Import Source_Ownership
begin

text \<open>
  The import and release of hardware frames, \<^verbatim>\<open>ffmpeg_import\<close> and \<^verbatim>\<open>ffmpeg_release\<close> of
  \<^verbatim>\<open>src/hwdecode/hw_decode_ffmpeg.cpp\<close>: the decoder picks the importer by the format of the surface and
  gives up for good after the first failure. The frame is the one the source model uses, extended
  by its format; textures are numbered by the caller. The last section composes the
  detection of the engine with the source: no source ever decodes with CUDA.
\<close>

subsection \<open>State and events\<close>

record hw_frame = zc_decoded_frame +
  zf_format :: video_format

record hw_imports =
  hi_d3d11 :: "d3d11_import option"
  hi_cuda :: "cuda_import option"
  hi_unsupported :: bool
  hi_logged :: bool

definition hi_new :: hw_imports where
  "hi_new = \<lparr>hi_d3d11 = None, hi_cuda = None, hi_unsupported = False, hi_logged = False\<rparr>"

text \<open>The AVFrame and what the platform answers for it: its format, whether \<^verbatim>\<open>data[3]\<close> is set and can be
  wrapped, the array slice, and the device memory with the state of the CUDA driver.\<close>

record hw_surface =
  hs_format :: av_pix_fmt
  hs_iosurface :: bool
  hs_wraps :: bool
  hs_slice :: "slice_env \<times> d3d_surface"
  hs_cuda :: cuda_input

datatype hw_event =
    HwEnter | HwLeave | HwD3d11 "vp_obj gpu_event" | HwCuda cu_event
  | HwTexture nat | HwTextureFree nat | HwFrame nat | HwFrameFree nat

definition in_graphics :: "hw_event list \<Rightarrow> hw_event list" where
  "in_graphics es = HwEnter # es @ [HwLeave]"

subsection \<open>Operations\<close>

definition import_d3d11 ::
  "slice_env \<times> d3d_surface \<Rightarrow> nat \<Rightarrow> hw_imports \<Rightarrow> hw_frame \<Rightarrow> (bool \<times> hw_frame) \<times> hw_imports \<times> hw_event list" where
  "import_d3d11 i tex f frame =
     (if hi_unsupported f then ((False, frame), f, [])
      else
        (case zc_hw_import_d3d11_slice (fst i) (snd i) (hi_d3d11 f) of
           (ok, slot, es) \<Rightarrow>
             if ok then ((True, frame\<lparr>zf_texture := Some tex, zf_owns_texture := True, zf_format := VIDEO_FORMAT_BGRA\<rparr>),
                         f\<lparr>hi_d3d11 := slot\<rparr>, in_graphics (map HwD3d11 es @ [HwTexture tex]))
             else ((False, frame), f\<lparr>hi_d3d11 := slot, hi_unsupported := True\<rparr>, in_graphics (map HwD3d11 es))))"

fun cuda_frame_result :: "cuda_input \<Rightarrow> cuda_import option \<Rightarrow> bool \<times> cuda_import option \<times> cu_event list" where
  "cuda_frame_result (CudaFrame lib env fresh cuda_device device fr) slot =
     zc_hw_cuda_import_frame lib env fresh cuda_device device fr slot"

definition import_cuda ::
  "cuda_input \<Rightarrow> nat \<Rightarrow> hw_imports \<Rightarrow> hw_frame \<Rightarrow> (bool \<times> hw_frame) \<times> hw_imports \<times> hw_event list" where
  "import_cuda i tex f frame =
     (if hi_unsupported f then ((False, frame), f, [])
      else
        (case cuda_frame_result i (hi_cuda f) of
           (ok, slot, es) \<Rightarrow>
             if ok then ((True, frame\<lparr>zf_texture := Some tex, zf_owns_texture := True, zf_format := VIDEO_FORMAT_BGRA\<rparr>),
                         f\<lparr>hi_cuda := slot\<rparr>, in_graphics (map HwCuda es @ [HwTexture tex]))
             else ((False, frame), f\<lparr>hi_cuda := slot, hi_unsupported := True\<rparr>, in_graphics (map HwCuda es))))"

definition ffmpeg_import ::
  "os \<Rightarrow> hw_surface \<Rightarrow> nat \<Rightarrow> hw_imports \<Rightarrow> hw_frame \<Rightarrow> (bool \<times> hw_frame) \<times> hw_imports \<times> hw_event list" where
  "ffmpeg_import os s tex f frame =
     (if zf_avframe frame = None then ((False, frame), f, [])
      else if os = MacOS \<and> hs_format s = AV_PIX_FMT_VIDEOTOOLBOX \<and> hs_iosurface s
      then (if hs_wraps s
            then ((True, frame\<lparr>zf_texture := Some tex, zf_owns_texture := True\<rparr>), f, in_graphics [HwTexture tex])
            else ((False, frame), f, in_graphics []))
      else if os = Windows
      then (if hs_format s = AV_PIX_FMT_D3D11 then import_d3d11 (hs_slice s) tex f frame
            else if hs_format s = AV_PIX_FMT_CUDA then import_cuda (hs_cuda s) tex f frame
            else ((False, frame), f\<lparr>hi_logged := True\<rparr>, []))
      else ((False, frame), f, []))"

definition ffmpeg_release :: "hw_frame \<Rightarrow> hw_frame \<times> hw_event list" where
  "ffmpeg_release frame =
     (case zf_texture frame of
        Some t \<Rightarrow> if zf_owns_texture frame
          then (frame\<lparr>zf_texture := None, zf_owns_texture := False, zf_avframe := None\<rparr>,
                in_graphics [HwTextureFree t] @ (case zf_avframe frame of None \<Rightarrow> [] | Some a \<Rightarrow> [HwFrameFree a]))
          else (frame\<lparr>zf_avframe := None\<rparr>, case zf_avframe frame of None \<Rightarrow> [] | Some a \<Rightarrow> [HwFrameFree a])
      | None \<Rightarrow> (frame\<lparr>zf_avframe := None\<rparr>, case zf_avframe frame of None \<Rightarrow> [] | Some a \<Rightarrow> [HwFrameFree a]))"

text \<open>The Windows part of \<^verbatim>\<open>ffmpeg_destroy\<close>, which its callers run inside the graphics context.\<close>

definition free_importers :: "hw_imports \<Rightarrow> hw_imports \<times> hw_event list" where
  "free_importers f =
     (f\<lparr>hi_d3d11 := None, hi_cuda := None\<rparr>,
      map HwD3d11 (zc_hw_d3d11_import_free (hi_d3d11 f)) @ map HwCuda (zc_hw_cuda_import_free (hi_cuda f)))"

subsection \<open>Ownership\<close>

text \<open>What is alive: the objects of the two importers, the depth of the graphics context, textures and
  AVFrames. GPU objects and textures are only touched inside the graphics context.\<close>

record hw_mon =
  hm_d3d11 :: "vp_obj set"
  hm_cuda :: cu_mon
  hm_depth :: nat
  hm_textures :: "nat set"
  hm_frames :: "nat set"

fun hw_monitor :: "hw_event \<Rightarrow> hw_mon \<Rightarrow> hw_mon option" where
  "hw_monitor HwEnter m = Some (m\<lparr>hm_depth := Suc (hm_depth m)\<rparr>)"
| "hw_monitor HwLeave m = (if hm_depth m = 0 then None else Some (m\<lparr>hm_depth := hm_depth m - 1\<rparr>))"
| "hw_monitor (HwD3d11 e) m =
     (if hm_depth m = 0 then None else map_option (\<lambda>x. m\<lparr>hm_d3d11 := x\<rparr>) (gpu_monitor e (hm_d3d11 m)))"
| "hw_monitor (HwCuda e) m =
     (if hm_depth m = 0 then None else map_option (\<lambda>x. m\<lparr>hm_cuda := x\<rparr>) (cu_monitor e (hm_cuda m)))"
| "hw_monitor (HwTexture t) m =
     (if hm_depth m = 0 \<or> t \<in> hm_textures m then None else Some (m\<lparr>hm_textures := insert t (hm_textures m)\<rparr>))"
| "hw_monitor (HwTextureFree t) m =
     (if hm_depth m = 0 \<or> t \<notin> hm_textures m then None else Some (m\<lparr>hm_textures := hm_textures m - {t}\<rparr>))"
| "hw_monitor (HwFrame a) m = (if a \<in> hm_frames m then None else Some (m\<lparr>hm_frames := insert a (hm_frames m)\<rparr>))"
| "hw_monitor (HwFrameFree a) m = (if a \<notin> hm_frames m then None else Some (m\<lparr>hm_frames := hm_frames m - {a}\<rparr>))"

lemma run_d3d11:
  "mon_run gpu_monitor es (hm_d3d11 m) = Some x \<Longrightarrow> hm_depth m > 0 \<Longrightarrow>
     mon_run hw_monitor (map HwD3d11 es) m = Some (m\<lparr>hm_d3d11 := x\<rparr>)"
  by (induction es arbitrary: m) (auto split: option.splits)

lemma run_cuda:
  "mon_run cu_monitor es (hm_cuda m) = Some x \<Longrightarrow> hm_depth m > 0 \<Longrightarrow>
     mon_run hw_monitor (map HwCuda es) m = Some (m\<lparr>hm_cuda := x\<rparr>)"
  by (induction es arbitrary: m) (auto split: option.splits)

lemma run_in_graphics:
  "mon_run hw_monitor es (m\<lparr>hm_depth := Suc (hm_depth m)\<rparr>) = Some m1 \<Longrightarrow> hm_depth m1 = Suc (hm_depth m) \<Longrightarrow>
     mon_run hw_monitor (in_graphics es) m = Some (m1\<lparr>hm_depth := hm_depth m\<rparr>)"
  by (simp add: in_graphics_def)

definition hi_inv :: "hw_imports \<Rightarrow> bool" where
  "hi_inv f \<longleftrightarrow> slot_inv (hi_d3d11 f) \<and> cu_slot_inv (hi_cuda f)"

definition hw_view :: "nat set \<Rightarrow> nat set \<Rightarrow> hw_imports \<Rightarrow> hw_mon" where
  "hw_view textures frames f =
     \<lparr>hm_d3d11 = slot_view (hi_d3d11 f), hm_cuda = cu_slot_view (hi_cuda f), hm_depth = 0,
      hm_textures = textures, hm_frames = frames\<rparr>"

lemma import_d3d11_ok:
  assumes "hi_inv f" "tex \<notin> T" "import_d3d11 i tex f frame = ((ok, frame1), f1, es)"
  shows "hi_inv f1 \<and> mon_run hw_monitor es (hw_view T F f) = Some (hw_view (if ok then insert tex T else T) F f1)"
proof (cases "hi_unsupported f")
  case True
  then have "ok = False" "f1 = f" "es = []" using assms(3) by (auto simp: import_d3d11_def)
  with assms(1) show ?thesis by simp
next
  case False
  obtain b slot es1 where r: "zc_hw_import_d3d11_slice (fst i) (snd i) (hi_d3d11 f) = (b, slot, es1)" by (metis prod.collapse)
  have inv: "slot_inv slot" "mon_run gpu_monitor es1 (slot_view (hi_d3d11 f)) = Some (slot_view slot)"
    using import_slice_ok [OF _ r] assms(1) by (simp_all add: hi_inv_def)
  let ?m = "(hw_view T F f)\<lparr>hm_depth := Suc 0\<rparr>"
  have run: "mon_run hw_monitor (map HwD3d11 es1) ?m = Some (?m\<lparr>hm_d3d11 := slot_view slot\<rparr>)"
    by (rule run_d3d11) (use inv(2) in \<open>simp_all add: hw_view_def\<close>)
  have eq: "(ok, f1, es) =
    (if b then (True, f\<lparr>hi_d3d11 := slot\<rparr>, in_graphics (map HwD3d11 es1 @ [HwTexture tex]))
     else (False, f\<lparr>hi_d3d11 := slot, hi_unsupported := True\<rparr>, in_graphics (map HwD3d11 es1)))"
    using assms(3) False r by (simp add: import_d3d11_def split: if_splits)
  show ?thesis
    using eq run inv(1) assms(1,2) by (cases b) (simp_all add: in_graphics_def hw_view_def hi_inv_def mon_run_then [OF run])
qed

lemma import_cuda_ok:
  assumes "hi_inv f" "tex \<notin> T" "import_cuda i tex f frame = ((ok, frame1), f1, es)"
  shows "hi_inv f1 \<and> mon_run hw_monitor es (hw_view T F f) = Some (hw_view (if ok then insert tex T else T) F f1)"
proof (cases "hi_unsupported f")
  case True
  then have "ok = False" "f1 = f" "es = []" using assms(3) by (auto simp: import_cuda_def)
  with assms(1) show ?thesis by simp
next
  case False
  obtain b slot es1 where r: "cuda_frame_result i (hi_cuda f) = (b, slot, es1)" by (metis prod.collapse)
  obtain lib env fresh dev device fr where i: "i = CudaFrame lib env fresh dev device fr" by (cases i)
  have "cu_slot_inv (hi_cuda f)" using assms(1) by (simp add: hi_inv_def)
  from cuda_import_frame_ok [OF this r [unfolded i cuda_frame_result.simps]]
  have inv: "cu_slot_inv slot" "mon_run cu_monitor es1 (cu_slot_view (hi_cuda f)) = Some (cu_slot_view slot)"
    by simp_all
  let ?m = "(hw_view T F f)\<lparr>hm_depth := Suc 0\<rparr>"
  have run: "mon_run hw_monitor (map HwCuda es1) ?m = Some (?m\<lparr>hm_cuda := cu_slot_view slot\<rparr>)"
    by (rule run_cuda) (use inv(2) in \<open>simp_all add: hw_view_def\<close>)
  have eq: "(ok, f1, es) =
    (if b then (True, f\<lparr>hi_cuda := slot\<rparr>, in_graphics (map HwCuda es1 @ [HwTexture tex]))
     else (False, f\<lparr>hi_cuda := slot, hi_unsupported := True\<rparr>, in_graphics (map HwCuda es1)))"
    using assms(3) False r by (simp add: import_cuda_def split: if_splits)
  show ?thesis
    using eq run inv(1) assms(1,2) by (cases b) (simp_all add: in_graphics_def hw_view_def hi_inv_def mon_run_then [OF run])
qed

lemma import_ok:
  assumes "hi_inv f" "tex \<notin> T" "ffmpeg_import os s tex f frame = ((ok, frame1), f1, es)"
  shows "hi_inv f1 \<and> mon_run hw_monitor es (hw_view T F f) = Some (hw_view (if ok then insert tex T else T) F f1)"
proof -
  consider (d3d11) "import_d3d11 (hs_slice s) tex f frame = ((ok, frame1), f1, es)"
    | (cuda) "import_cuda (hs_cuda s) tex f frame = ((ok, frame1), f1, es)"
    | (wrapped) "ok" "f1 = f" "es = in_graphics [HwTexture tex]"
    | (refused) "\<not> ok" "hi_d3d11 f1 = hi_d3d11 f" "hi_cuda f1 = hi_cuda f" "es = [] \<or> es = in_graphics []"
    using assms(3) by (auto simp: ffmpeg_import_def split: if_splits)
  then show ?thesis
  proof cases
    case d3d11 then show ?thesis by (rule import_d3d11_ok [OF assms(1,2)])
  next
    case cuda then show ?thesis by (rule import_cuda_ok [OF assms(1,2)])
  next
    case wrapped then show ?thesis using assms(1,2) by (simp add: in_graphics_def hw_view_def)
  next
    case refused then show ?thesis using assms(1) by (auto simp: in_graphics_def hw_view_def hi_inv_def)
  qed
qed

text \<open>What an import does to the frame: the texture is recorded, or nothing changes.\<close>

lemma import_frame:
  assumes "ffmpeg_import os s tex f frame = ((ok, frame1), f1, es)"
  shows "zf_avframe frame1 = zf_avframe frame" "zf_texture frame1 = (if ok then Some tex else zf_texture frame)"
    "zf_owns_texture frame1 = (ok \<or> zf_owns_texture frame)"
  using assms unfolding ffmpeg_import_def import_d3d11_def import_cuda_def
  by (auto split: if_splits prod.splits)

subsection \<open>The life of the frames\<close>

text \<open>A frame is decoded, imported once and released; \<open>a\<close> and \<open>tex\<close> are the numbers of its AVFrame and texture.\<close>

definition frame_life :: "os \<Rightarrow> (hw_surface \<times> nat \<times> nat) \<Rightarrow> hw_imports \<Rightarrow> hw_imports \<times> hw_event list" where
  "frame_life os i f =
     (case i of (s, a, tex) \<Rightarrow>
        (case ffmpeg_import os s tex f
                \<lparr>zf_avframe = Some a, zf_texture = None, zf_owns_texture = False, zf_width = 0, zf_height = 0,
                 zf_timestamp = 0, zf_format = VIDEO_FORMAT_NV12\<rparr> of
           ((ok, frame), f1, es) \<Rightarrow> (f1, HwFrame a # es @ snd (ffmpeg_release frame))))"

lemma frame_life_ok:
  assumes "hi_inv f"
  shows "hi_inv (fst (frame_life os i f)) \<and> tracked hw_monitor (hw_view {} {}) f (frame_life os i f)"
proof -
  obtain s a tex where i: "i = (s, a, tex)" by (cases i)
  let ?new = "\<lparr>zf_avframe = Some a, zf_texture = None, zf_owns_texture = False, zf_width = 0, zf_height = 0,
                 zf_timestamp = 0, zf_format = VIDEO_FORMAT_NV12\<rparr>"
  obtain ok frame f1 es where r: "ffmpeg_import os s tex f ?new = ((ok, frame), f1, es)" by (metis prod.collapse)
  have ran: "hi_inv f1" "mon_run hw_monitor es (hw_view {} {a} f) = Some (hw_view (if ok then {tex} else {}) {a} f1)"
    using import_ok [OF assms _ r, of "{}" "{a}"] by simp_all
  have first: "hw_monitor (HwFrame a) (hw_view {} {} f) = Some (hw_view {} {a} f)" by (simp add: hw_view_def)
  have rel: "mon_run hw_monitor (snd (ffmpeg_release frame)) (hw_view (if ok then {tex} else {}) {a} f1) = Some (hw_view {} {} f1)"
    using import_frame [OF r] by (cases ok) (simp_all add: ffmpeg_release_def in_graphics_def hw_view_def)
  show ?thesis
    using ran(1) by (simp add: frame_life_def i r tracked_def first ran(2) rel del: hw_monitor.simps)
qed

interpretation hwi: monitored "frame_life os" hi_inv hw_monitor "hw_view {} {}" for os
  by unfold_locales (simp_all add: frame_life_ok)

lemma free_importers_ok:
  assumes "hi_inv f"
  shows "mon_run hw_monitor (in_graphics (snd (free_importers f))) (hw_view {} {} f) = Some (hw_view {} {} hi_new)"
proof -
  let ?m = "(hw_view {} {} f)\<lparr>hm_depth := Suc 0\<rparr>"
  let ?m1 = "?m\<lparr>hm_d3d11 := {}\<rparr>"
  have "slot_inv (hi_d3d11 f)" and cu: "cu_slot_inv (hi_cuda f)" using assms by (simp_all add: hi_inv_def)
  then have d: "mon_run hw_monitor (map HwD3d11 (zc_hw_d3d11_import_free (hi_d3d11 f))) ?m = Some ?m1"
    by (intro run_d3d11) (simp_all add: hw_view_def import_free_ok)
  have c: "mon_run hw_monitor (map HwCuda (zc_hw_cuda_import_free (hi_cuda f))) ?m1 = Some (?m1\<lparr>hm_cuda := ({}, 0)\<rparr>)"
    by (rule run_cuda) (simp_all add: hw_view_def cuda_import_free_ok [OF cu])
  show ?thesis
    by (simp add: in_graphics_def free_importers_def hw_view_def hi_new_def)
      (use d c in \<open>simp add: hw_view_def\<close>)
qed

text \<open>
  C19. Hardware frames leave nothing behind: for any sequence of decoded surfaces of any kind on any platform,
  whatever the driver refuses, the import and release of each frame creates and destroys its texture and frees its
  AVFrame exactly once, both importers stay consistent, every GPU call is made inside the graphics context, which
  is left as often as it is entered, and when the decoder is destroyed no object of either importer is left.
\<close>

theorem hw_frames_leave_nothing:
  "mon_run hw_monitor
     (snd (run_trace (frame_life os) frames hi_new)
      @ in_graphics (snd (free_importers (fst (run_trace (frame_life os) frames hi_new))))) (hw_view {} {} hi_new)
     = Some (hw_view {} {} hi_new)"
proof -
  have inv: "hi_inv hi_new" by (simp add: hi_inv_def hi_new_def)
  show ?thesis
    using hwi.run_accepted [OF inv, of os frames] free_importers_ok [OF hwi.run_inv [OF inv, of os frames]] by simp
qed

subsection \<open>Giving up\<close>

definition gpu_surface :: "hw_surface \<Rightarrow> bool" where
  "gpu_surface s \<longleftrightarrow> hs_format s = AV_PIX_FMT_D3D11 \<or> hs_format s = AV_PIX_FMT_CUDA"

lemma import_latched:
  "hi_unsupported f \<Longrightarrow> ffmpeg_import Windows s tex f frame =
     ((False, frame), if zf_avframe frame \<noteq> None \<and> \<not> gpu_surface s then f\<lparr>hi_logged := True\<rparr> else f, [])"
  by (auto simp: ffmpeg_import_def import_d3d11_def import_cuda_def gpu_surface_def)

lemma import_failure_latches:
  "ffmpeg_import Windows s tex f frame = ((False, frame1), f1, es) \<Longrightarrow> zf_avframe frame \<noteq> None \<Longrightarrow> gpu_surface s \<Longrightarrow> hi_unsupported f1"
  by (auto simp: ffmpeg_import_def import_d3d11_def import_cuda_def gpu_surface_def split: if_splits prod.splits)

definition latched_life :: "hw_surface \<times> nat \<times> nat \<Rightarrow> hw_event list" where
  "latched_life i = [HwFrame (fst (snd i)), HwFrameFree (fst (snd i))]"

lemma life_latched:
  "hi_unsupported f \<Longrightarrow> hi_unsupported (fst (frame_life Windows i f)) \<and> snd (frame_life Windows i f) = latched_life i"
  by (cases i) (simp add: frame_life_def import_latched ffmpeg_release_def latched_life_def)

lemma run_latched: "hi_unsupported f \<Longrightarrow> snd (run_trace (frame_life Windows) is f) = concat (map latched_life is)"
  by (induction "is" arbitrary: f) (simp_all add: run_trace_Cons_eq life_latched del: run_trace.simps(2))

text \<open>
  The Windows import gives up once: if the surface of a frame cannot be imported, then none of the
  frames decoded after it is imported, whatever its surface, and no call of the driver or of the graphics
  system is made for them; the frame itself is unchanged and owns no texture.
\<close>

theorem hw_import_gives_up:
  assumes "ffmpeg_import Windows s tex f frame = ((False, frame1), f1, es)" "zf_avframe frame \<noteq> None" "gpu_surface s"
  shows "frame1 = frame \<and> snd (run_trace (frame_life Windows) is f1) = concat (map latched_life is)"
proof -
  have "frame1 = frame"
    using assms by (auto simp: ffmpeg_import_def import_d3d11_def import_cuda_def split: if_splits prod.splits)
  with run_latched import_failure_latches [OF assms] show ?thesis by blast
qed

definition p010_surface :: hw_surface where
  "p010_surface = \<lparr>hs_format = AV_PIX_FMT_D3D11, hs_iosurface = False, hs_wraps = False,
     hs_slice = (slice_fine, surface False), hs_cuda = CudaFrame None undefined False (-1) False undefined\<rparr>"

definition some_frame :: hw_frame where
  "some_frame = \<lparr>zf_avframe = Some 7, zf_texture = None, zf_owns_texture = False, zf_width = 1920, zf_height = 1080,
     zf_timestamp = 0, zf_format = VIDEO_FORMAT_P010\<rparr>"

lemma p010_fails: "fst (ffmpeg_import Windows p010_surface 3 hi_new some_frame) = (False, some_frame)"
  by (simp add: ffmpeg_import_def import_d3d11_def zc_hw_import_d3d11_slice_def p010_surface_def some_frame_def
      hi_new_def slice_fine_def surface_def Let_def)

theorem hw_import_gives_up_witness:
  "snd (run_trace (frame_life Windows) [(p010_surface, 8, 4)]
     (fst (snd (ffmpeg_import Windows p010_surface 3 hi_new some_frame)))) = [HwFrame 8, HwFrameFree 8]"
proof -
  have r: "ffmpeg_import Windows p010_surface 3 hi_new some_frame = ((False, some_frame),
      fst (snd (ffmpeg_import Windows p010_surface 3 hi_new some_frame)),
      snd (snd (ffmpeg_import Windows p010_surface 3 hi_new some_frame)))"
    using p010_fails by (metis prod.collapse)
  have "zf_avframe some_frame \<noteq> None" "gpu_surface p010_surface"
    by (simp_all add: some_frame_def gpu_surface_def p010_surface_def)
  from hw_import_gives_up [OF r this, of "[(p010_surface, 8, 4)]"] show ?thesis by (simp add: latched_life_def)
qed

subsection \<open>The source never uses CUDA\<close>

definition no_cuda :: "source \<Rightarrow> bool" where
  "no_cuda s \<longleftrightarrow> sr_requested s \<noteq> ZC_HW_CUDA \<and> (case sr_decoder s of None \<Rightarrow> True | Some dk \<Rightarrow> snd dk \<noteq> ZC_HW_CUDA)"

fun input_platform :: "src_input \<Rightarrow> platform option" where
  "input_platform (SrcVideo pf now res v) = Some pf"
| "input_platform (SrcMeta pf v) = Some pf"
| "input_platform (SrcRender pf gr now) = Some pf"
| "input_platform _ = None"

text \<open>The platform answers what the detection of the engine computes, on a machine with the devices of \<open>pr\<close>.\<close>

definition engine_input :: "os \<Rightarrow> hw_probe \<Rightarrow> src_input \<Rightarrow> bool" where
  "engine_input os pr i \<longleftrightarrow>
     (case input_platform i of None \<Rightarrow> True
      | Some pf \<Rightarrow> \<forall>k c. zc_hw_ffmpeg_detect os pr k c = Some (pf_detect pf k c))"

lemma detect_no_cuda: "k \<noteq> ZC_HW_CUDA \<Longrightarrow> zc_hw_ffmpeg_detect os pr k c \<noteq> Some ZC_HW_CUDA"
  by (cases os; cases k) (auto simp: zc_hw_ffmpeg_detect_def pick_hw_device_def zc_to_hw_type_def)

lemma no_cuda_then: "no_cuda (fst r) \<Longrightarrow> (\<And>s. no_cuda s \<Longrightarrow> no_cuda (fst (f s))) \<Longrightarrow> no_cuda (fst (then_do r f))"
  by simp

lemma rebuild_no_cuda:
  assumes "no_cuda s" "\<forall>k c. zc_hw_ffmpeg_detect os pr k c = Some (pf_detect pf k c)"
  shows "no_cuda (fst (rebuild pf sw codec s))"
proof -
  have "pf_detect pf k c \<noteq> ZC_HW_CUDA" if "k \<noteq> ZC_HW_CUDA" for k c
    using detect_no_cuda [OF that, of os pr c] assms(2) by simp
  then have "resolve_for pf sw codec s \<noteq> ZC_HW_CUDA"
    using assms(1) by (auto simp: resolve_for_def zc_hw_resolve_def Let_def no_cuda_def default_build_def)
  then have "zc_hw_decoder_create default_build hw ok (resolve_for pf sw codec s) \<noteq> Some ZC_HW_CUDA" for hw ok
    by (auto simp: zc_hw_decoder_create_def default_build_def)
  then show ?thesis
    using assms(1) by (auto simp: rebuild_def Let_def no_cuda_def installDecoder_def split: option.splits)
qed

lemma drops_no_cuda:
  "no_cuda s \<Longrightarrow> no_cuda (fst (drop_pending s))" "no_cuda s \<Longrightarrow> no_cuda (fst (drop_drawn s))"
  "no_cuda s \<Longrightarrow> no_cuda (fst (drop_decoder s))" "no_cuda s \<Longrightarrow> no_cuda (fst (drop_cpu s))"
  "no_cuda s \<Longrightarrow> no_cuda (fst (supersede_drawn s))" "no_cuda s \<Longrightarrow> no_cuda (fst (import_failed s))"
  "no_cuda s \<Longrightarrow> no_cuda (fst (show_pending s))" "no_cuda s \<Longrightarrow> no_cuda (fst (draw_texture gr t s))"
  "no_cuda s \<Longrightarrow> no_cuda (fst (installDecoder None s))"
  by (simp_all add: no_cuda_def drop_pending_def drop_drawn_def drop_decoder_def drop_cpu_def supersede_drawn_def
      import_failed_def show_pending_def draw_texture_def installDecoder_def)

lemma connection_no_cuda:
  "no_cuda s \<Longrightarrow> no_cuda (fst (teardownConnection s))" "no_cuda s \<Longrightarrow> no_cuda (fst (joinReconnect s))"
  "no_cuda s \<Longrightarrow> no_cuda (fst (connect_now now s))" "no_cuda s \<Longrightarrow> no_cuda (fst (onDisconnected s))"
  "no_cuda s \<Longrightarrow> no_cuda (fst (watchdog now s))"
  by (cases "sr_reconnect s"; simp add: no_cuda_def teardownConnection_def joinReconnect_def connect_now_def
      onDisconnected_def watchdog_def Let_def)+

lemma stop_no_cuda: "no_cuda s \<Longrightarrow> no_cuda (fst (stop s))"
  unfolding stop_def by (intro no_cuda_then drops_no_cuda connection_no_cuda) (simp_all add: no_cuda_def)

lemma start_no_cuda:
  assumes "no_cuda s"
  shows "no_cuda (fst (start now s))"
proof -
  let ?s = "if sr_ip s = [] then s\<lparr>sr_ip := ipFromSourceName (sr_name s)\<rparr> else s"
  have "no_cuda ?s" using assms by (simp add: no_cuda_def)
  then have "no_cuda (fst (then_do (installDecoder None ?s) (connect_now now)))"
    by (intro no_cuda_then drops_no_cuda connection_no_cuda)
  with \<open>no_cuda ?s\<close> show ?thesis
    unfolding start_def Let_def by (cases "sr_ip ?s = [] \<or> sr_running ?s") (simp_all only: if_True if_False fst_conv)
qed

lemma update_no_cuda:
  assumes "no_cuda s"
  shows "no_cuda (fst (update now st s))"
proof -
  have "no_cuda (apply_settings ip (if st_backend st = ZC_HW_CUDA then ZC_HW_AUTO else st_backend st) st s1)"
    if "no_cuda s1" for ip s1
    using that by (simp add: no_cuda_def apply_settings_def)
  then have "no_cuda (fst (then_do (stop s)
      (\<lambda>s1. start now (apply_settings ip (if st_backend st = ZC_HW_CUDA then ZC_HW_AUTO else st_backend st) st s1))))" for ip
    by (intro no_cuda_then stop_no_cuda [OF assms] start_no_cuda)
  with assms show ?thesis by (simp add: update_def Let_def del: then_do_simps)
qed

lemma reconnectThread_no_cuda:
  assumes "no_cuda s"
  shows "no_cuda (fst (reconnectThread now s))"
proof -
  have "no_cuda (fst (if sr_stopping s1 then (s1, []) else then_do (drop_pending s1) (start now)))" if "no_cuda s1" for s1
    using no_cuda_then [OF drops_no_cuda(1) [OF that] start_no_cuda] that by (simp del: then_do_simps)
  then have "no_cuda (fst (reconnectNow now s))"
    unfolding reconnectNow_def by (intro no_cuda_then connection_no_cuda(1) [OF assms])
  then have "no_cuda (fst (if \<not> sr_running s \<or> sr_stopping s then (s, []) else reconnectNow now s))"
    using assms by simp
  then have "no_cuda (fst (then_do (if \<not> sr_running s \<or> sr_stopping s then (s, []) else reconnectNow now s)
      (\<lambda>s1. (s1\<lparr>sr_stopping := False, sr_reconnectJoined := True, sr_reconnect := RtFinished\<rparr>, []))))"
    by (rule no_cuda_then) (simp add: no_cuda_def)
  with assms show ?thesis by (simp add: reconnectThread_def del: then_do_simps)
qed

lemma show_cpu_no_cuda:
  assumes "no_cuda s"
  shows "no_cuda (fst (show_cpu gr s))"
proof -
  have unset: "no_cuda (s1\<lparr>sr_hasCpuFrame := False\<rparr>)" if "no_cuda s1" for s1 using that by (simp add: no_cuda_def)
  have "no_cuda (fst (if sr_cpuTex s1 = None then (s1\<lparr>sr_hasCpuFrame := False\<rparr>, [])
      else then_do (supersede_drawn (s1\<lparr>sr_hasCpuFrame := False\<rparr>)) (\<lambda>s2. draw_texture gr (sr_cpuTex s2) s2)))"
    if "no_cuda s1" for s1
    using no_cuda_then [OF drops_no_cuda(5) drops_no_cuda(8)] unset that by (simp del: then_do_simps)
  moreover have "no_cuda (fst (cpu_texture gr s))" using assms by (simp add: cpu_texture_def Let_def no_cuda_def)
  ultimately show ?thesis
    using unset [OF assms] by (simp add: show_cpu_def Let_def no_cuda_then del: then_do_simps)
qed

lemma render_no_cuda:
  assumes "no_cuda s" "\<forall>k c. zc_hw_ffmpeg_detect os pr k c = Some (pf_detect pf k c)"
  shows "no_cuda (fst (videoRender pf gr now s))"
proof -
  note rebuild = rebuild_no_cuda [OF _ assms(2)] and steps = drops_no_cuda connection_no_cuda
  show ?thesis
    unfolding videoRender_def
    by (rule no_cuda_then [OF connection_no_cuda(5) [OF assms(1)]])
      (simp add: no_cuda_then steps rebuild show_cpu_no_cuda del: then_do_simps)
qed

lemma video_no_cuda:
  assumes "no_cuda s" "\<forall>k c. zc_hw_ffmpeg_detect os pr k c = Some (pf_detect pf k c)"
  shows "no_cuda (fst (onVideoData pf now res v s))"
proof -
  obtain pass s1 where p: "pass_i_frame v (s\<lparr>sr_lastPacketNs := now\<rparr>) = (pass, s1)" by fastforce
  then have s1: "no_cuda (sniff v s1)"
    using assms(1) by (auto simp: pass_i_frame_def sniff_def Let_def no_cuda_def split: if_splits)
  have "no_cuda (fst (rebuild pf False codec (s2\<lparr>sr_decoderTenBit := b\<rparr>)))" if "no_cuda s2" for s2 codec b
    using that by (intro rebuild_no_cuda [OF _ assms(2)]) (simp add: no_cuda_def)
  then have "no_cuda (fst (depth_rebuild pf (sniff v s1)))"
    using s1 by (simp add: depth_rebuild_def no_cuda_then drops_no_cuda(1) del: then_do_simps)
  moreover have "no_cuda (fst (decode_and_output pf now res s2))" if "no_cuda s2" for s2
    using that by (auto simp: decode_and_output_def output_gpu_def output_software_def no_cuda_def
        split: option.splits decode_result.splits prod.splits)
  ultimately have "no_cuda (fst (then_do (depth_rebuild pf (sniff v s1)) (decode_and_output pf now res)))"
    by (rule no_cuda_then)
  moreover have "no_cuda s1" using p assms(1) by (auto simp: pass_i_frame_def no_cuda_def split: if_splits)
  ultimately show ?thesis using assms(1) p by (simp add: onVideoData_def del: then_do_simps)
qed

lemma meta_no_cuda:
  assumes "no_cuda s" "\<forall>k c. zc_hw_ffmpeg_detect os pr k c = Some (pf_detect pf k c)"
  shows "no_cuda (fst (onMeta pf v s))"
proof -
  let ?s = "s\<lparr>sr_metaW := sint (vm_width v), sr_metaH := sint (vm_height v)\<rparr>"
  have s1: "no_cuda ?s" using assms(1) by (simp add: no_cuda_def)
  have "no_cuda (fst (rebuild pf sw codec (s2\<lparr>sr_codec := codec, sr_decoderTenBit := b\<rparr>)))" if "no_cuda s2" for s2 sw codec b
    using that by (intro rebuild_no_cuda [OF _ assms(2)]) (simp add: no_cuda_def)
  with s1 show ?thesis by (simp add: onMeta_def Let_def no_cuda_then drops_no_cuda(1) del: then_do_simps)
qed

interpretation nc: trace_system "guarded (engine_input os pr) src_step" no_cuda for os pr
proof
  fix s i
  assume s: "no_cuda s"
  show "no_cuda (fst (guarded (engine_input os pr) src_step i s))"
    using s update_no_cuda start_no_cuda connection_no_cuda(4) reconnectThread_no_cuda render_no_cuda [OF s]
      video_no_cuda [OF s] meta_no_cuda [OF s]
    by (cases i) (auto simp: guarded_def engine_input_def activate_def)
qed

text \<open>
  The CUDA decoder is out of reach: on any machine where the detection of the engine answers, whatever the
  settings ask for, old profiles with the withdrawn backend included, and whatever the camera sends, no
  decoder of a source is ever a CUDA decoder.
\<close>

theorem source_never_uses_cuda:
  assumes "list_all (engine_input os pr) inputs"
  shows "map_option snd (sr_decoder (fst (run_trace src_step inputs (source_new name async)))) \<noteq> Some ZC_HW_CUDA"
proof -
  have "no_cuda (source_new name async)" by (simp add: no_cuda_def source_new_def)
  from nc.run_inv [OF this, of os pr inputs] show ?thesis
    unfolding run_trace_guarded [OF assms] by (auto simp: no_cuda_def)
qed

definition cuda_machine :: hw_probe where
  "cuda_machine = \<lparr>hp_decoder = (\<lambda>c. True), hp_configs = (\<lambda>c. [(True, AV_HWDEVICE_TYPE_CUDA), (True, AV_HWDEVICE_TYPE_D3D11VA)]), hp_opens = (\<lambda>t. True)\<rparr>"

definition cuda_platform :: platform where
  "cuda_platform = \<lparr>pf_detect = (\<lambda>k c. if k = ZC_HW_CUDA then ZC_HW_CUDA else ZC_HW_D3D11VA), pf_hw_ok = (\<lambda>k. True), pf_sw_ok = True,
     pf_sws_ok = (\<lambda>f w h. True)\<rparr>"

lemma cuda_machine_detects: "zc_hw_ffmpeg_detect Windows cuda_machine k c = Some (pf_detect cuda_platform k c)"
  by (cases k) (simp_all add: zc_hw_ffmpeg_detect_def pick_hw_device_def cuda_machine_def cuda_platform_def zc_to_hw_type_def)

definition old_profile :: obs_settings where
  "old_profile = zc_source_getdefaults\<lparr>st_ip := ''10.0.0.1'', st_backend := ZC_HW_CUDA\<rparr>"

theorem source_never_uses_cuda_witness:
  "map_option snd (sr_decoder (fst (run_trace src_step
     [SrcUpdate 5 old_profile, SrcMeta cuda_platform \<lparr>vm_width = 1920, vm_height = 1080, vm_timescale = 1, vm_unit = 1, vm_gop = 1, vm_encoder = 96\<rparr>]
     (source_new ''cam'' False)))) \<noteq> Some ZC_HW_CUDA"
  by (rule source_never_uses_cuda [of Windows cuda_machine]) (simp add: engine_input_def cuda_machine_detects)

end
