(* ===== verification/Control_Dock.thy ===== *)
theory Control_Dock
  imports Mdns_Discovery Settings_Schema Resources "HOL-Library.Multiset"
begin

text \<open>
  The camera rail and the main widget of the dock, \<^verbatim>\<open>ZcCameraRail\<close> and \<^verbatim>\<open>ZcControlDock\<close> in
  \<^verbatim>\<open>src/ui/zc_control_dock.cpp\<close>: the list of cameras, what is added to OBS, and the life of the control
  client. OBS is outside the sources: what it answers is an input and what is asked of it an
  event. The connection of the client runs the event loop until the camera answers, so the dock can
  be clicked meanwhile: the connections in progress are a stack.
\<close>

subsection \<open>The camera rail\<close>

record rail_camera =
  rc_name :: string
  rc_host :: string
  rc_offline :: bool

record rail_row =
  rr_name :: string
  rr_host :: string
  rr_offline :: bool
  rr_added :: bool
  rr_text :: string

record camera_rail =
  ra_rows :: "rail_row list"
  ra_added :: "string set"

definition applyRow :: "string set \<Rightarrow> rail_row \<Rightarrow> rail_row" where
  "applyRow added r =
     r\<lparr>rr_text := (if rr_name r = [] then rr_host r else rr_name r @ '' '' @ rr_host r), rr_added := (rr_host r \<in> added)\<rparr>"

definition rowKey :: "string \<Rightarrow> string \<Rightarrow> bool \<Rightarrow> string" where
  "rowKey host name offline = host @ (if offline then ''!'' else []) @ ''|'' @ name"

definition new_row :: "string set \<Rightarrow> rail_camera \<Rightarrow> rail_row" where
  "new_row added c =
     applyRow added \<lparr>rr_name = rc_name c, rr_host = rc_host c, rr_offline = rc_offline c, rr_added = False, rr_text = []\<rparr>"

definition setCameras :: "rail_camera list \<Rightarrow> camera_rail \<Rightarrow> camera_rail" where
  "setCameras cameras r =
     (let listed = filter (\<lambda>c. rc_host c \<noteq> []) cameras in
      if set (map (\<lambda>x. rowKey (rr_host x) (rr_name x) (rr_offline x)) (ra_rows r))
         = set (map (\<lambda>c. rowKey (rc_host c) (rc_name c) (rc_offline c)) listed)
      then r else r\<lparr>ra_rows := map (new_row (ra_added r)) listed\<rparr>)"

fun mark_offline :: "string set \<Rightarrow> string \<Rightarrow> bool \<Rightarrow> rail_row list \<Rightarrow> rail_row list" where
  "mark_offline added host offline [] = []"
| "mark_offline added host offline (x # xs) =
     (if rr_host x \<noteq> host then x # mark_offline added host offline xs
      else if rr_offline x = offline then x # xs
      else applyRow added (x\<lparr>rr_offline := offline\<rparr>) # xs)"

definition setHostOffline :: "string \<Rightarrow> bool \<Rightarrow> camera_rail \<Rightarrow> camera_rail" where
  "setHostOffline host offline r = r\<lparr>ra_rows := mark_offline (ra_added r) host offline (ra_rows r)\<rparr>"

definition setAddedHosts :: "string set \<Rightarrow> camera_rail \<Rightarrow> camera_rail" where
  "setAddedHosts added r =
     (if ra_added r = added then r else r\<lparr>ra_added := added, ra_rows := map (applyRow added) (ra_rows r)\<rparr>)"

text \<open>The mouse on the chip of a row: the remembered press, and whether the chip fires.\<close>

definition chip_event :: "bool \<Rightarrow> string \<Rightarrow> string \<Rightarrow> string \<times> bool" where
  "chip_event press host clicked =
     (if host = [] then (clicked, False)
      else if press then (host, True)
      else if clicked = host then ([], False)
      else (clicked, True))"

subsection \<open>The rows of a scan\<close>

fun discovered_rows :: "string set \<Rightarrow> string set \<Rightarrow> ssp_device_item list \<Rightarrow> rail_camera list" where
  "discovered_rows unreachable seen [] = []"
| "discovered_rows unreachable seen (d # ds) =
     (if ip_address d = [] \<or> ip_address d \<in> seen then discovered_rows unreachable seen ds
      else \<lparr>rc_name = device_name d, rc_host = ip_address d, rc_offline = (ip_address d \<in> unreachable)\<rparr>
           # discovered_rows unreachable (insert (ip_address d) seen) ds)"

definition sourceHosts :: "string list \<Rightarrow> string set" where
  "sourceHosts names = set (filter (\<lambda>h. h \<noteq> []) (map hostFromSourceName names))"

definition camera_rows :: "string set \<Rightarrow> string set \<Rightarrow> ssp_device_item list \<Rightarrow> string list \<Rightarrow> rail_camera list" where
  "camera_rows unreachable reachable found names =
     (let rows = discovered_rows unreachable {} found;
          extra = sorted_list_of_set (sourceHosts names - set (map rc_host rows)) in
      rows @ map (\<lambda>h. \<lparr>rc_name = [], rc_host = h, rc_offline = (h \<in> unreachable \<or> h \<notin> reachable)\<rparr>) extra)"

subsection \<open>OBS sources\<close>

text \<open>What OBS answers: the source of a name, its id, whether it has settings and the address in them, what
  creation returns, the current scene, whether it is a scene, and whether a source of the name is in it.\<close>

record obs_env =
  ob_lookup :: "string \<Rightarrow> nat option"
  ob_id :: "nat \<Rightarrow> string"
  ob_settings :: "nat \<Rightarrow> bool"
  ob_ip :: "nat \<Rightarrow> string"
  ob_create :: "nat option"
  ob_scene :: "nat option"
  ob_is_scene :: bool
  ob_in_scene :: bool

text \<open>Calls that take and drop references to sources and settings, and calls on a source.\<close>

datatype obs_event =
    ObTake nat | ObDrop nat | DataTake | DataDrop
  | ObUpdate nat string | ObRename nat string | ObCreate nat string string | ObSceneAdd nat | ObRemove nat

definition isCameraAdded :: "obs_env \<Rightarrow> string \<Rightarrow> bool" where
  "isCameraAdded env host \<longleftrightarrow> host \<noteq> [] \<and> ob_lookup env (cameraSourceName host) \<noteq> None"

fun reclaim_from :: "obs_env \<Rightarrow> string \<Rightarrow> string list \<Rightarrow> nat option \<times> obs_event list" where
  "reclaim_from env name [] = (None, [])"
| "reclaim_from env name (cand # cands) =
     (case ob_lookup env cand of
        None \<Rightarrow> reclaim_from env name cands
      | Some s \<Rightarrow>
          if ob_id env s \<noteq> ''zcamera_source''
          then (case reclaim_from env name cands of (r, es) \<Rightarrow> (r, ObTake s # ObDrop s # es))
          else if ob_settings env s \<and> ob_ip env s \<noteq> []
          then (case reclaim_from env name cands of (r, es) \<Rightarrow> (r, [ObTake s, DataTake, DataDrop, ObDrop s] @ es))
          else (Some s, ObTake s # (if ob_settings env s then [DataTake, DataDrop] else []) @ [ObRename s name]))"

definition reclaimDefaultSource :: "obs_env \<Rightarrow> string \<Rightarrow> nat option \<times> obs_event list" where
  "reclaimDefaultSource env name = reclaim_from env name [''ZCamera'', ''ZCameraPlugin.SourceName'']"

text \<open>The source of the camera: the one of its name, a reclaimed default one, or a new one.\<close>

definition camera_source :: "obs_env \<Rightarrow> string \<Rightarrow> nat option \<times> obs_event list" where
  "camera_source env host =
     (let name = cameraSourceName host in
      case ob_lookup env name of
        Some s \<Rightarrow> (Some s, [ObTake s, DataTake, ObUpdate s host])
      | None \<Rightarrow>
          (case reclaimDefaultSource env name of
             (Some s, es) \<Rightarrow> (Some s, DataTake # es @ [ObUpdate s host])
           | (None, es) \<Rightarrow>
               (ob_create env, DataTake # es @ (case ob_create env of None \<Rightarrow> [] | Some s \<Rightarrow> [ObTake s, ObCreate s name host]))))"

definition show_in_scene :: "obs_env \<Rightarrow> nat \<Rightarrow> obs_event list" where
  "show_in_scene env s =
     (case ob_scene env of
        None \<Rightarrow> []
      | Some sc \<Rightarrow> ObTake sc # (if ob_is_scene env \<and> \<not> ob_in_scene env then [ObSceneAdd s] else []) @ [ObDrop sc])"

definition addCameraToSource :: "obs_env \<Rightarrow> string \<Rightarrow> obs_event list" where
  "addCameraToSource env host =
     (if host = [] then []
      else
        (case camera_source env host of
           (src, es) \<Rightarrow> es @ [DataDrop] @ (case src of None \<Rightarrow> [] | Some s \<Rightarrow> show_in_scene env s @ [ObDrop s])))"

definition removeCameraFromSource :: "obs_env \<Rightarrow> string \<Rightarrow> obs_event list" where
  "removeCameraFromSource env host =
     (if host = [] then []
      else (case ob_lookup env (cameraSourceName host) of None \<Rightarrow> [] | Some s \<Rightarrow> [ObTake s, ObRemove s, ObDrop s]))"

subsection \<open>The dock\<close>

datatype dock_status = StDisconnected | StConnected string | StMode string string | StOffline string

datatype dock_event = CliNew nat | CliDelete nat | CliUse nat | CliNull | DkObs obs_event

record control_dock =
  dk_rail :: camera_rail
  dk_client :: "nat option"
  dk_next :: nat
  dk_panels :: "nat option"
  dk_ptzTab :: bool
  dk_current :: string
  dk_reachable :: "string set"
  dk_unreachable :: "string set"
  dk_status :: dock_status
  dk_calls :: "(nat \<times> string) list"

definition dock_new :: control_dock where
  "dock_new = \<lparr>dk_rail = \<lparr>ra_rows = [], ra_added = {}\<rparr>, dk_client = None, dk_next = 0, dk_panels = None, dk_ptzTab = False,
     dk_current = [], dk_reachable = {}, dk_unreachable = {}, dk_status = StDisconnected, dk_calls = []\<rparr>"

definition refreshRailPresence :: "obs_env \<Rightarrow> control_dock \<Rightarrow> control_dock" where
  "refreshRailPresence env d =
     d\<lparr>dk_rail := setAddedHosts (set (filter (isCameraAdded env) (map rr_host (ra_rows (dk_rail d))))) (dk_rail d)\<rparr>"

definition refreshCameras :: "obs_env \<Rightarrow> ssp_device_item list \<Rightarrow> string list \<Rightarrow> control_dock \<Rightarrow> control_dock" where
  "refreshCameras env found names d =
     refreshRailPresence env
       (d\<lparr>dk_rail := setCameras (camera_rows (dk_unreachable d) (dk_reachable d) found names) (dk_rail d)\<rparr>)"

text \<open>\<open>ptz\<close> is whether the camera of the client reports pan and tilt.\<close>

definition updatePtzTab :: "bool \<Rightarrow> control_dock \<Rightarrow> control_dock" where
  "updatePtzTab ptz d = d\<lparr>dk_ptzTab := (dk_client d \<noteq> None \<and> ptz)\<rparr>"

text \<open>\<^verbatim>\<open>onCameraClicked\<close> up to the point where the new client waits for the camera.\<close>

definition open_begin :: "string \<Rightarrow> control_dock \<Rightarrow> control_dock \<times> dock_event list" where
  "open_begin host d =
     (let n = dk_next d in
      (d\<lparr>dk_current := host, dk_client := Some n, dk_next := Suc n, dk_panels := Some n, dk_calls := (n, host) # dk_calls d\<rparr>,
       (case dk_client d of None \<Rightarrow> [] | Some c \<Rightarrow> [CliDelete c]) @ [CliNew n, CliUse n]))"

definition deref_client :: "control_dock \<Rightarrow> dock_event list" where
  "deref_client d = (case dk_client d of None \<Rightarrow> [CliNull] | Some c \<Rightarrow> [CliUse c])"

text \<open>The rest of \<^verbatim>\<open>connect\<close>, which is a method of the client that started it, of \<^verbatim>\<open>openCamera\<close> and of
  \<^verbatim>\<open>onCameraClicked\<close>.\<close>

definition open_result :: "bool \<Rightarrow> bool \<Rightarrow> string \<Rightarrow> control_dock \<Rightarrow> control_dock \<times> dock_event list" where
  "open_result ptz ok host d =
     (if ok
      then (updatePtzTab ptz (d\<lparr>dk_status := StConnected host\<rparr>), deref_client d)
      else (updatePtzTab ptz (d\<lparr>dk_panels := None, dk_client := None, dk_status := StOffline host\<rparr>),
            (case dk_client d of None \<Rightarrow> [] | Some c \<Rightarrow> [CliDelete c])))"

definition note_reachable :: "bool \<Rightarrow> string \<Rightarrow> control_dock \<Rightarrow> control_dock" where
  "note_reachable ok host d =
     (if ok then d\<lparr>dk_reachable := insert host (dk_reachable d), dk_unreachable := dk_unreachable d - {host}\<rparr>
      else d\<lparr>dk_reachable := dk_reachable d - {host}, dk_unreachable := insert host (dk_unreachable d)\<rparr>)"

definition open_end :: "obs_env \<Rightarrow> bool \<Rightarrow> bool \<Rightarrow> control_dock \<Rightarrow> control_dock \<times> dock_event list" where
  "open_end env ptz ok d =
     (case dk_calls d of
        [] \<Rightarrow> (d, [])
      | (n, host) # calls \<Rightarrow>
          (case open_result ptz ok host (d\<lparr>dk_calls := calls\<rparr>) of
             (d1, es) \<Rightarrow>
               (let d2 = note_reachable ok host d1 in
                (refreshRailPresence env (d2\<lparr>dk_rail := setHostOffline host (\<not> ok) (dk_rail d2)\<rparr>), CliUse n # es))))"

datatype dock_input =
    DkScan obs_env "ssp_device_item list" "string list" | DkClick string | DkConnected obs_env bool bool
  | DkChip obs_env obs_env string bool | DkSourceSignal obs_env | DkCameraInfo bool | DkStatus string

text \<open>The chip asks OBS before and the presence is read after; \<open>DkCameraInfo\<close> and
  \<open>DkStatus\<close> are the signals of the client about the model and the mode of the camera.\<close>

fun dock_step :: "dock_input \<Rightarrow> control_dock \<Rightarrow> control_dock \<times> dock_event list" where
  "dock_step (DkScan env found names) d = (refreshCameras env found names d, [])"
| "dock_step (DkClick host) d = open_begin host d"
| "dock_step (DkConnected env ptz ok) d = open_end env ptz ok d"
| "dock_step (DkChip before after host added) d =
     (refreshRailPresence after d,
      map DkObs (if added then removeCameraFromSource before host else addCameraToSource before host))"
| "dock_step (DkSourceSignal env) d = (refreshRailPresence env d, [])"
| "dock_step (DkCameraInfo ptz) d =
     (case dk_client d of None \<Rightarrow> (d, []) | Some c \<Rightarrow> (updatePtzTab ptz d, [CliUse c]))"
| "dock_step (DkStatus mode) d =
     (case dk_client d of None \<Rightarrow> (d, []) | Some c \<Rightarrow> (d\<lparr>dk_status := StMode (dk_current d) mode\<rparr>, [CliUse c]))"

text \<open>The destructor.\<close>

definition dock_delete :: "control_dock \<Rightarrow> dock_event list" where
  "dock_delete d = (case dk_client d of None \<Rightarrow> [] | Some c \<Rightarrow> [CliDelete c])"

subsection \<open>References to OBS\<close>

text \<open>The references held, and the number of settings objects.\<close>

fun obs_monitor :: "obs_event \<Rightarrow> nat multiset \<times> nat \<Rightarrow> (nat multiset \<times> nat) option" where
  "obs_monitor (ObTake s) (m, n) = Some (add_mset s m, n)"
| "obs_monitor (ObDrop s) (m, n) = (if s \<in># m then Some (m - {#s#}, n) else None)"
| "obs_monitor DataTake (m, n) = Some (m, Suc n)"
| "obs_monitor DataDrop (m, n) = (if n = 0 then None else Some (m, n - 1))"
| "obs_monitor (ObUpdate s ip) (m, n) = (if s \<in># m \<and> n > 0 then Some (m, n) else None)"
| "obs_monitor (ObRename s name) (m, n) = (if s \<in># m then Some (m, n) else None)"
| "obs_monitor (ObCreate s name ip) (m, n) = (if s \<in># m \<and> n > 0 then Some (m, n) else None)"
| "obs_monitor (ObSceneAdd s) (m, n) = (if s \<in># m then Some (m, n) else None)"
| "obs_monitor (ObRemove s) (m, n) = (if s \<in># m then Some (m, n) else None)"

lemma reclaim_refs:
  "mon_run obs_monitor (snd (reclaim_from env name cands)) (m, n)
     = Some (case fst (reclaim_from env name cands) of None \<Rightarrow> m | Some s \<Rightarrow> add_mset s m, n)"
  by (induction cands arbitrary: m n) (auto split: option.splits prod.splits)

lemmas reclaim_default_refs =
  reclaim_refs [where cands = "[''ZCamera'', ''ZCameraPlugin.SourceName'']", folded reclaimDefaultSource_def]

lemma camera_source_refs:
  "mon_run obs_monitor (snd (camera_source env host)) ({#}, 0)
     = Some (case fst (camera_source env host) of None \<Rightarrow> {#} | Some s \<Rightarrow> {#s#}, 1)"
proof (cases "ob_lookup env (cameraSourceName host)")
  case None
  let ?r = "reclaimDefaultSource env (cameraSourceName host)"
  obtain r es where re: "?r = (r, es)" by fastforce
  have "mon_run obs_monitor es ({#}, 1) = Some (case r of None \<Rightarrow> {#} | Some s \<Rightarrow> {#s#}, 1)"
    using reclaim_default_refs [of env "cameraSourceName host" "{#}" 1] by (simp only: re fst_conv snd_conv)
  with None re show ?thesis by (cases r) (simp_all add: camera_source_def split: option.splits)
qed (simp add: camera_source_def)

text \<open>
  C22. The dock gives back every reference: whatever OBS holds and refuses, adding a camera to OBS and removing it
  call only sources they hold a reference to and drop each reference to a source, a scene and a settings
  object exactly once.
\<close>

theorem dock_obs_references:
  "mon_run obs_monitor (addCameraToSource env host) ({#}, 0) = Some ({#}, 0)
   \<and> mon_run obs_monitor (removeCameraFromSource env host) ({#}, 0) = Some ({#}, 0)"
proof -
  obtain src es where r: "camera_source env host = (src, es)" by fastforce
  have es: "mon_run obs_monitor es ({#}, 0) = Some (case src of None \<Rightarrow> {#} | Some s \<Rightarrow> {#s#}, 1)"
    using camera_source_refs [of env host] by (simp add: r)
  have "mon_run obs_monitor (show_in_scene env s) ({#s#}, 0) = Some ({#s#}, 0)" for s
    by (auto simp: show_in_scene_def split: option.splits)
  then have "mon_run obs_monitor (addCameraToSource env host) ({#}, 0) = Some ({#}, 0)"
    by (cases src) (simp_all add: addCameraToSource_def r es)
  then show ?thesis by (simp add: removeCameraFromSource_def split: option.splits)
qed

fun changes_source :: "obs_event \<Rightarrow> bool" where
  "changes_source (ObUpdate s ip) = True"
| "changes_source (ObRename s name) = True"
| "changes_source (ObCreate s name ip) = True"
| "changes_source _ = False"

text \<open>The default source that may be taken over: one of the plugin, without an address.\<close>

definition unconfigured :: "obs_env \<Rightarrow> string \<Rightarrow> nat option" where
  "unconfigured env cand =
     (case ob_lookup env cand of
        None \<Rightarrow> None
      | Some s \<Rightarrow> if ob_id env s = ''zcamera_source'' \<and> (\<not> ob_settings env s \<or> ob_ip env s = []) then Some s else None)"

definition default_source :: "obs_env \<Rightarrow> nat option" where
  "default_source env = (case unconfigured env ''ZCamera'' of Some s \<Rightarrow> Some s | None \<Rightarrow> unconfigured env ''ZCameraPlugin.SourceName'')"

lemma reclaim_step:
  "fst (reclaim_from env name (cand # cands)) =
     (case unconfigured env cand of Some s \<Rightarrow> Some s | None \<Rightarrow> fst (reclaim_from env name cands))"
  "filter changes_source (snd (reclaim_from env name (cand # cands))) =
     (case unconfigured env cand of Some s \<Rightarrow> [ObRename s name] | None \<Rightarrow> filter changes_source (snd (reclaim_from env name cands)))"
  by (cases "ob_lookup env cand"; auto simp: unconfigured_def split: prod.splits)+

lemma reclaim_default:
  "fst (reclaimDefaultSource env name) = default_source env"
  "filter changes_source (snd (reclaimDefaultSource env name)) = (case default_source env of None \<Rightarrow> [] | Some s \<Rightarrow> [ObRename s name])"
  unfolding reclaimDefaultSource_def default_source_def reclaim_step
  by (cases "unconfigured env ''ZCamera''"; cases "unconfigured env ''ZCameraPlugin.SourceName''"; simp)+

text \<open>
  C33. A camera gets one source: adding a camera updates the source of its name if there is one, else
  renames and updates an unconfigured default source if there is one, and only else creates a source, always
  with the address of the camera.
\<close>

theorem dock_adds_one_source:
  assumes "host \<noteq> []"
  shows "filter changes_source (addCameraToSource env host) =
    (case ob_lookup env (cameraSourceName host) of
       Some s \<Rightarrow> [ObUpdate s host]
     | None \<Rightarrow>
         (case default_source env of
            Some s \<Rightarrow> [ObRename s (cameraSourceName host), ObUpdate s host]
          | None \<Rightarrow> (case ob_create env of None \<Rightarrow> [] | Some s \<Rightarrow> [ObCreate s (cameraSourceName host) host])))"
proof -
  have scene: "filter changes_source (show_in_scene env s) = []" for s
    by (simp add: show_in_scene_def split: option.splits)
  obtain r es where re: "reclaimDefaultSource env (cameraSourceName host) = (r, es)" by fastforce
  have "r = default_source env" "filter changes_source es = (case default_source env of None \<Rightarrow> [] | Some s \<Rightarrow> [ObRename s (cameraSourceName host)])"
    using reclaim_default [of env "cameraSourceName host"] by (simp_all add: re)
  with assms re scene show ?thesis by (simp add: addCameraToSource_def camera_source_def split: option.splits)
qed

definition obs_with_default :: obs_env where
  "obs_with_default = \<lparr>ob_lookup = (\<lambda>n. if n = ''ZCamera'' then Some 4 else None), ob_id = (\<lambda>_. ''zcamera_source''),
     ob_settings = (\<lambda>_. True), ob_ip = (\<lambda>_. []), ob_create = Some 9, ob_scene = Some 1, ob_is_scene = True, ob_in_scene = False\<rparr>"

theorem dock_adds_one_source_witness:
  "filter changes_source (addCameraToSource obs_with_default ''10.0.0.2'')
     = [ObRename 4 ''ZCamera 10.0.0.2'', ObUpdate 4 ''10.0.0.2'']"
  using dock_adds_one_source [of "''10.0.0.2''" obs_with_default]
  by (simp add: obs_with_default_def cameraSourceName_def default_source_def unconfigured_def)

subsection \<open>The rows\<close>

lemma discovered_rows_hosts:
  "distinct (map rc_host (discovered_rows u seen ds)) \<and> set (map rc_host (discovered_rows u seen ds)) = ip_address ` set ds - seen - {[]}"
  by (induction ds arbitrary: seen) auto

lemma discovered_rows_offline: "c \<in> set (discovered_rows u seen ds) \<Longrightarrow> rc_offline c = (rc_host c \<in> u)"
  by (induction ds arbitrary: seen) (auto split: if_splits)

lemma sourceHosts_finite [simp]: "finite (sourceHosts names)"
  by (simp add: sourceHosts_def)

text \<open>
  The rail lists every camera once: after a scan the rows name exactly the addresses discovery reports and the
  addresses of the camera sources OBS holds, each once; a row is offline exactly when its camera did not answer the
  last control connection or is known from OBS only and never answered one.
\<close>

theorem rail_lists_each_camera_once:
  "distinct (map rc_host (camera_rows u r found names))
   \<and> set (map rc_host (camera_rows u r found names)) = (ip_address ` set found - {[]}) \<union> sourceHosts names
   \<and> list_all (\<lambda>c. rc_offline c = (rc_host c \<in> u \<or> rc_host c \<notin> ip_address ` set found \<and> rc_host c \<notin> r)) (camera_rows u r found names)"
proof -
  let ?rows = "discovered_rows u {} found"
  let ?extra = "sorted_list_of_set (sourceHosts names - set (map rc_host ?rows))"
  let ?more = "map (\<lambda>h. \<lparr>rc_name = [], rc_host = h, rc_offline = (h \<in> u \<or> h \<notin> r)\<rparr>) ?extra"
  have rows: "camera_rows u r found names = ?rows @ ?more" by (simp add: camera_rows_def Let_def)
  have d: "distinct (map rc_host ?rows)" "set (map rc_host ?rows) = ip_address ` set found - {[]}"
    using discovered_rows_hosts [of u "{}" found] by simp_all
  have extra: "set ?extra = sourceHosts names - set (map rc_host ?rows)" "distinct ?extra" by simp_all
  have hosts: "map rc_host ?more = ?extra" by (simp add: comp_def)
  have ne: "[] \<notin> sourceHosts names" by (auto simp: sourceHosts_def)
  have "distinct (map rc_host (?rows @ ?more))" unfolding map_append hosts distinct_append using d(1) extra by blast
  moreover have "set (map rc_host (?rows @ ?more)) = (ip_address ` set found - {[]}) \<union> sourceHosts names"
  proof -
    have "set (map rc_host ?more) = sourceHosts names - set (map rc_host ?rows)" unfolding hosts by (rule extra(1))
    with d(2) show ?thesis unfolding map_append set_append by blast
  qed
  moreover have "rc_offline c = (rc_host c \<in> u \<or> rc_host c \<notin> ip_address ` set found \<and> rc_host c \<notin> r)" if "c \<in> set ?rows" for c
  proof -
    have "rc_host c \<in> set (map rc_host ?rows)" using that by simp
    then have "rc_host c \<in> ip_address ` set found" unfolding d(2) by blast
    with discovered_rows_offline [OF that] show ?thesis by blast
  qed
  moreover have "rc_offline c = (rc_host c \<in> u \<or> rc_host c \<notin> ip_address ` set found \<and> rc_host c \<notin> r)" if "c \<in> set ?more" for c
  proof -
    from that have "c \<in> (\<lambda>h. \<lparr>rc_name = [], rc_host = h, rc_offline = (h \<in> u \<or> h \<notin> r)\<rparr>) ` set ?extra" by (simp only: set_map)
    then obtain h where h: "c = \<lparr>rc_name = [], rc_host = h, rc_offline = (h \<in> u \<or> h \<notin> r)\<rparr>" "h \<in> set ?extra" by (rule imageE)
    have "h \<in> sourceHosts names - set (map rc_host ?rows)" using h(2) by (simp only: extra(1))
    then have "h \<in> sourceHosts names" "h \<notin> ip_address ` set found - {[]}" unfolding d(2) by blast+
    moreover from this(1) ne have "h \<noteq> []" by metis
    ultimately have "h \<notin> ip_address ` set found" by blast
    with h(1) show ?thesis by simp
  qed
  ultimately show ?thesis unfolding rows list_all_iff set_append by blast
qed

subsection \<open>Identity of the rows\<close>

definition plain_host :: "string \<Rightarrow> bool" where
  "plain_host h \<longleftrightarrow> list_all (\<lambda>c. c \<noteq> CHR ''!'' \<and> c \<noteq> CHR ''|'') h"

lemma rowKey_host: "plain_host h \<Longrightarrow> takeWhile (\<lambda>c. c \<noteq> CHR ''!'' \<and> c \<noteq> CHR ''|'') (rowKey h n off) = h"
  by (simp add: plain_host_def rowKey_def list_all_iff takeWhile_append)

lemma rowKey_inj:
  assumes "plain_host h" "plain_host h1" "rowKey h n off = rowKey h1 n1 off1"
  shows "h = h1 \<and> n = n1 \<and> off = off1"
proof -
  have "h = h1" using rowKey_host [OF assms(1)] rowKey_host [OF assms(2)] assms(3) by metis
  with assms(3) show ?thesis by (cases off; cases off1) (simp_all add: rowKey_def)
qed

text \<open>The rows after \<^verbatim>\<open>setCameras\<close> are those asked for, whether the list was rebuilt or not.\<close>

lemma setCameras_row:
  assumes "list_all plain_host (map rr_host (ra_rows r))" "list_all plain_host (map rc_host cs)"
    and "x \<in> set (ra_rows (setCameras cs r))"
  shows "\<exists>c \<in> set cs. rc_host c = rr_host x \<and> rc_name c = rr_name x \<and> rc_offline c = rr_offline x"
proof -
  let ?listed = "filter (\<lambda>c. rc_host c \<noteq> []) cs"
  let ?old = "set (map (\<lambda>x. rowKey (rr_host x) (rr_name x) (rr_offline x)) (ra_rows r))"
  let ?new = "set (map (\<lambda>c. rowKey (rc_host c) (rc_name c) (rc_offline c)) ?listed)"
  have eq: "ra_rows (setCameras cs r) = (if ?old = ?new then ra_rows r else map (new_row (ra_added r)) ?listed)"
    by (simp add: setCameras_def Let_def)
  show ?thesis
  proof (cases "?old = ?new")
    case True
    then have x: "x \<in> set (ra_rows r)" using assms(3) eq by simp
    then have "rowKey (rr_host x) (rr_name x) (rr_offline x) \<in> ?new" unfolding True [symmetric] by simp
    then obtain c where c: "c \<in> set cs" "rowKey (rr_host x) (rr_name x) (rr_offline x) = rowKey (rc_host c) (rc_name c) (rc_offline c)"
      by auto
    have "plain_host (rr_host x)" "plain_host (rc_host c)" using assms(1,2) x c(1) by (auto simp: list_all_iff)
    from rowKey_inj [OF this c(2)] c(1) show ?thesis by auto
  next
    case False
    then have "x \<in> new_row (ra_added r) ` set ?listed" using assms(3) eq by simp
    then show ?thesis by (auto simp: new_row_def applyRow_def)
  qed
qed

lemma presence_rows:
  "map rr_host (ra_rows (dk_rail (refreshRailPresence env d))) = map rr_host (ra_rows (dk_rail d))"
  "map rr_offline (ra_rows (dk_rail (refreshRailPresence env d))) = map rr_offline (ra_rows (dk_rail d))"
  "dk_reachable (refreshRailPresence env d) = dk_reachable d" "dk_unreachable (refreshRailPresence env d) = dk_unreachable d"
  by (simp_all add: refreshRailPresence_def setAddedHosts_def applyRow_def comp_def)

lemma mark_offline_hosts: "map rr_host (mark_offline added host off xs) = map rr_host xs"
  by (induction xs) (simp_all add: applyRow_def)

lemma open_result_fields:
  "dk_rail (fst (open_result ptz ok host d)) = dk_rail d" "dk_reachable (fst (open_result ptz ok host d)) = dk_reachable d"
  "dk_unreachable (fst (open_result ptz ok host d)) = dk_unreachable d" "dk_calls (fst (open_result ptz ok host d)) = dk_calls d"
  "dk_next (fst (open_result ptz ok host d)) = dk_next d"
  "dk_client (fst (open_result ptz ok host d)) = (if ok then dk_client d else None)"
  by (simp_all add: open_result_def updatePtzTab_def)

lemma open_end_marks:
  assumes "dk_calls d = (n, host) # calls"
  shows "host \<in> dk_unreachable (fst (open_end env ptz ok d)) \<longleftrightarrow> \<not> ok" "host \<in> dk_reachable (fst (open_end env ptz ok d)) \<longleftrightarrow> ok"
    "map rr_host (ra_rows (dk_rail (fst (open_end env ptz ok d)))) = map rr_host (ra_rows (dk_rail d))"
proof -
  obtain d1 es where r: "open_result ptz ok host (d\<lparr>dk_calls := calls\<rparr>) = (d1, es)" by fastforce
  have f: "dk_rail d1 = dk_rail d" using open_result_fields(1) [of ptz ok host "d\<lparr>dk_calls := calls\<rparr>"] by (simp add: r)
  show "host \<in> dk_unreachable (fst (open_end env ptz ok d)) \<longleftrightarrow> \<not> ok" "host \<in> dk_reachable (fst (open_end env ptz ok d)) \<longleftrightarrow> ok"
    by (simp_all add: open_end_def assms r Let_def presence_rows note_reachable_def)
  show "map rr_host (ra_rows (dk_rail (fst (open_end env ptz ok d)))) = map rr_host (ra_rows (dk_rail d))"
    by (simp add: open_end_def assms r Let_def presence_rows note_reachable_def f setHostOffline_def mark_offline_hosts)
qed

text \<open>
  A scan keeps the mark of a click: once a camera has answered or not answered the control connection,
  the next scan, whatever it discovers and whatever OBS holds, shows its row online or offline accordingly.
\<close>

theorem dock_mark_survives_scan:
  assumes "dk_calls d = (n, host) # calls"
    and "list_all plain_host (map rr_host (ra_rows (dk_rail d)))"
    and "list_all plain_host (map ip_address found)" "list_all plain_host (map hostFromSourceName names)"
  shows "list_all (\<lambda>x. rr_host x \<noteq> host \<or> rr_offline x = (\<not> ok))
    (ra_rows (dk_rail (fst (run_trace dock_step [DkConnected env ptz ok, DkScan env1 found names] d))))"
proof -
  let ?d = "fst (open_end env ptz ok d)"
  let ?u = "dk_unreachable ?d" and ?r = "dk_reachable ?d"
  let ?cs = "camera_rows ?u ?r found names"
  let ?rail = "setCameras ?cs (dk_rail ?d)"
  note cams = rail_lists_each_camera_once [of ?u ?r found names]
  have "plain_host h" if "h \<in> set (map rc_host ?cs)" for h
  proof -
    have "h \<in> ip_address ` set found \<or> h \<in> sourceHosts names" using that cams by auto
    then show ?thesis using assms(3,4) by (auto simp: sourceHosts_def list_all_iff)
  qed
  then have plain: "list_all plain_host (map rc_host ?cs)" by (simp add: list_all_iff)
  have old: "list_all plain_host (map rr_host (ra_rows (dk_rail ?d)))"
    unfolding open_end_marks(3) [OF assms(1)] by (rule assms(2))
  have "rr_offline x = (\<not> ok)" if x: "x \<in> set (ra_rows ?rail)" "rr_host x = host" for x
  proof -
    obtain c where c: "c \<in> set ?cs" "rc_host c = host" "rc_offline c = rr_offline x"
      using setCameras_row [OF old plain x(1)] x(2) by auto
    have "rc_offline c = (host \<in> ?u \<or> host \<notin> ip_address ` set found \<and> host \<notin> ?r)"
      using cams c(1,2) by (auto simp: list_all_iff)
    then show ?thesis using c(3) open_end_marks(1,2) [OF assms(1), of env ptz ok] by blast
  qed
  then have "list_all (\<lambda>(h, off). h \<noteq> host \<or> off = (\<not> ok)) (zip (map rr_host (ra_rows ?rail)) (map rr_offline (ra_rows ?rail)))"
    by (auto simp: list_all_iff zip_map_fst_snd set_zip)
  then have "list_all (\<lambda>(h, off). h \<noteq> host \<or> off = (\<not> ok))
      (zip (map rr_host (ra_rows (dk_rail (refreshCameras env1 found names ?d)))) (map rr_offline (ra_rows (dk_rail (refreshCameras env1 found names ?d)))))"
    by (simp add: refreshCameras_def presence_rows)
  then show ?thesis by (simp add: zip_map_map list_all_iff split_beta zip_same_conv_map)
qed

definition clicked_dock :: control_dock where
  "clicked_dock = fst (dock_step (DkClick ''10.0.0.2'') dock_new)"

theorem dock_mark_survives_scan_witness:
  "list_all (\<lambda>x. rr_host x \<noteq> ''10.0.0.2'' \<or> rr_offline x)
    (ra_rows (dk_rail (fst (run_trace dock_step [DkConnected obs_with_default False False,
       DkScan obs_with_default [\<lparr>device_name = ''E2'', ip_address = ''10.0.0.2''\<rparr>] [''ZCamera 10.0.0.3'']] clicked_dock))))"
proof -
  have d: "dk_calls clicked_dock = [(0, ''10.0.0.2'')]" "ra_rows (dk_rail clicked_dock) = []"
    by (simp_all add: clicked_dock_def open_begin_def dock_new_def Let_def)
  have "list_all plain_host (map hostFromSourceName [''ZCamera 10.0.0.3''])"
    "list_all plain_host (map ip_address [\<lparr>device_name = ''E2'', ip_address = ''10.0.0.2''\<rparr>])"
    by (simp_all add: plain_host_def hostFromSourceName_def starts_with_def)
  with dock_mark_survives_scan [OF d(1), of "[\<lparr>device_name = ''E2'', ip_address = ''10.0.0.2''\<rparr>]" "[''ZCamera 10.0.0.3'']"
      False obs_with_default False obs_with_default] d(2)
  show ?thesis by simp
qed

subsection \<open>Presence\<close>

definition dock_inv :: "control_dock \<Rightarrow> bool" where
  "dock_inv d \<longleftrightarrow> (\<forall>x \<in> set (ra_rows (dk_rail d)). rr_added x = (rr_host x \<in> ra_added (dk_rail d)))"

lemma presence_inv: "dock_inv d \<Longrightarrow> dock_inv (refreshRailPresence env d)"
  by (auto simp: dock_inv_def refreshRailPresence_def setAddedHosts_def applyRow_def)

lemma setCameras_inv: "dock_inv d \<Longrightarrow> dock_inv (d\<lparr>dk_rail := setCameras cs (dk_rail d)\<rparr>)"
  by (auto simp: dock_inv_def setCameras_def Let_def new_row_def applyRow_def)

lemma mark_offline_inv:
  "\<forall>x \<in> set xs. rr_added x = (rr_host x \<in> added) \<Longrightarrow> \<forall>x \<in> set (mark_offline added host off xs). rr_added x = (rr_host x \<in> added)"
  by (induction xs) (auto simp: applyRow_def)

lemma rail_only: "dk_rail d1 = dk_rail d \<Longrightarrow> dock_inv d \<Longrightarrow> dock_inv d1"
  by (simp add: dock_inv_def)

lemma open_end_inv:
  assumes "dock_inv d"
  shows "dock_inv (fst (open_end env ptz ok d))"
proof (cases "dk_calls d")
  case (Cons nh calls)
  obtain n host where nh: "nh = (n, host)" by fastforce
  obtain d1 es where r: "open_result ptz ok host (d\<lparr>dk_calls := calls\<rparr>) = (d1, es)" by fastforce
  have "dk_rail d1 = dk_rail d" using open_result_fields(1) [of ptz ok host "d\<lparr>dk_calls := calls\<rparr>"] by (simp add: r)
  then have d2: "dk_rail (note_reachable ok host d1) = dk_rail d" by (simp add: note_reachable_def)
  then have "dock_inv ((note_reachable ok host d1)\<lparr>dk_rail := setHostOffline host (\<not> ok) (dk_rail d)\<rparr>)"
    using assms mark_offline_inv by (simp add: dock_inv_def setHostOffline_def)
  then show ?thesis using presence_inv by (simp add: open_end_def Cons nh r Let_def d2)
qed (use assms in \<open>simp add: open_end_def\<close>)

interpretation dk: trace_system dock_step dock_inv
proof
  fix d i
  assume d: "dock_inv d"
  then show "dock_inv (fst (dock_step i d))"
  proof (cases i)
    case (DkClick host) with d show ?thesis by (simp add: open_begin_def Let_def dock_inv_def)
  next
    case (DkScan env found names) with d show ?thesis by (simp add: refreshCameras_def presence_inv setCameras_inv)
  next
    case (DkCameraInfo ptz) with d show ?thesis by (auto simp: updatePtzTab_def dock_inv_def split: option.splits)
  next
    case (DkStatus mode) with d show ?thesis by (auto simp: dock_inv_def split: option.splits)
  qed (simp_all add: presence_inv open_end_inv)
qed

text \<open>
  The badges are live: in every state the dock reaches, once a source of OBS is created, destroyed or renamed each row
  carries the badge exactly when OBS holds the source of its camera at that moment.
\<close>

theorem dock_badges_live:
  "list_all (\<lambda>x. rr_added x = isCameraAdded env (rr_host x))
     (ra_rows (dk_rail (fst (run_trace dock_step (inputs @ [DkSourceSignal env]) dock_new))))"
proof -
  let ?d = "fst (run_trace dock_step inputs dock_new)"
  have "dock_inv dock_new" by (simp add: dock_inv_def dock_new_def)
  from dk.run_inv [OF this, of inputs] have inv: "dock_inv ?d" .
  have "fst (run_trace dock_step (inputs @ [i]) d) = fst (dock_step i (fst (run_trace dock_step inputs d)))" for i d
    by (induction inputs arbitrary: d) (simp_all add: run_trace_Cons_eq del: run_trace.simps(2))
  with inv show ?thesis
    by (auto simp: list_all_iff dock_inv_def refreshRailPresence_def setAddedHosts_def applyRow_def)
qed

subsection \<open>The life of the client\<close>

text \<open>The clients that are alive; no other may be called.\<close>

fun client_monitor :: "dock_event \<Rightarrow> nat set \<Rightarrow> nat set option" where
  "client_monitor (CliNew n) m = (if n \<in> m then None else Some (insert n m))"
| "client_monitor (CliDelete n) m = (if n \<in> m then Some (m - {n}) else None)"
| "client_monitor (CliUse n) m = (if n \<in> m then Some m else None)"
| "client_monitor CliNull m = None"
| "client_monitor (DkObs e) m = Some m"

text \<open>No camera is clicked while a connection is in progress.\<close>

fun clicks_wait :: "bool \<Rightarrow> dock_input list \<Rightarrow> bool" where
  "clicks_wait busy [] = True"
| "clicks_wait busy (DkClick host # is) = (\<not> busy \<and> clicks_wait True is)"
| "clicks_wait busy (DkConnected env ptz ok # is) = clicks_wait False is"
| "clicks_wait busy (_ # is) = clicks_wait busy is"

definition client_view :: "control_dock \<Rightarrow> nat set" where
  "client_view d = set_option (dk_client d)"

definition client_inv :: "bool \<Rightarrow> control_dock \<Rightarrow> bool" where
  "client_inv busy d \<longleftrightarrow>
     (\<forall>c. dk_client d = Some c \<longrightarrow> c < dk_next d)
     \<and> (if busy then \<exists>n host. dk_calls d = [(n, host)] \<and> dk_client d = Some n else dk_calls d = [])"

lemma run_DkObs: "mon_run client_monitor (map DkObs es) m = Some m"
  by (induction es) simp_all

lemma presence_client:
  "dk_client (refreshRailPresence env d) = dk_client d" "dk_next (refreshRailPresence env d) = dk_next d"
  "dk_calls (refreshRailPresence env d) = dk_calls d"
  by (simp_all add: refreshRailPresence_def)

lemma open_begin_client:
  assumes "client_inv False d"
  shows "client_inv True (fst (open_begin host d))
    \<and> mon_run client_monitor (snd (open_begin host d)) (client_view d) = Some (client_view (fst (open_begin host d)))"
  using assms by (cases "dk_client d") (auto simp: client_inv_def client_view_def open_begin_def Let_def)

lemma open_end_client:
  assumes "client_inv busy d"
  shows "client_inv False (fst (open_end env ptz ok d))
    \<and> mon_run client_monitor (snd (open_end env ptz ok d)) (client_view d) = Some (client_view (fst (open_end env ptz ok d)))"
proof (cases busy)
  case True
  then obtain n host where c: "dk_calls d = [(n, host)]" "dk_client d = Some n" "n < dk_next d"
    using assms by (auto simp: client_inv_def)
  obtain d1 es where r: "open_result ptz ok host (d\<lparr>dk_calls := []\<rparr>) = (d1, es)" by fastforce
  have f: "dk_calls d1 = []" "dk_next d1 = dk_next d" "dk_client d1 = (if ok then Some n else None)"
    using open_result_fields [of ptz ok host "d\<lparr>dk_calls := []\<rparr>"] c by (simp_all add: r)
  have es: "es = (if ok then [CliUse n] else [CliDelete n])"
    using r c by (auto simp: open_result_def deref_client_def)
  show ?thesis
    using c f es by (auto simp: open_end_def r Let_def client_inv_def client_view_def presence_client note_reachable_def)
qed (use assms in \<open>simp add: open_end_def client_inv_def\<close>)

lemma dock_clients:
  "client_inv busy d \<Longrightarrow> clicks_wait busy is \<Longrightarrow>
     mon_run client_monitor (snd (run_trace dock_step is d)) (client_view d) = Some (client_view (fst (run_trace dock_step is d)))
     \<and> (\<exists>b. client_inv b (fst (run_trace dock_step is d)))"
proof (induction "is" arbitrary: busy d)
  case (Cons i "is")
  have "\<exists>b. client_inv b (fst (dock_step i d)) \<and> clicks_wait b is
      \<and> mon_run client_monitor (snd (dock_step i d)) (client_view d) = Some (client_view (fst (dock_step i d)))"
  proof (cases i)
    case (DkClick host) with Cons.prems open_begin_client show ?thesis by (intro exI [of _ True]) simp
  next
    case (DkConnected env ptz ok) with Cons.prems open_end_client show ?thesis by (intro exI [of _ False]) simp
  qed (use Cons.prems in \<open>auto simp: client_inv_def client_view_def presence_client refreshCameras_def updatePtzTab_def run_DkObs
      intro!: exI [of _ busy] split: option.splits\<close>)
  then show ?case using Cons.IH by (auto simp: run_trace_Cons_eq simp del: run_trace.simps(2))
qed auto

text \<open>
  C27. The control client is never used after it is gone: as long as no camera is clicked while another connection is in
  progress, every call of the dock goes to the client that is alive, a client is deleted once, and after the
  destructor none is left.
\<close>

theorem dock_client_lifetime:
  assumes "clicks_wait False inputs"
  shows "mon_run client_monitor
    (snd (run_trace dock_step inputs dock_new) @ dock_delete (fst (run_trace dock_step inputs dock_new))) {} = Some {}"
proof -
  let ?d = "fst (run_trace dock_step inputs dock_new)"
  have "client_inv False dock_new" "client_view dock_new = {}" by (simp_all add: client_inv_def client_view_def dock_new_def)
  with dock_clients [OF _ assms, of dock_new] have "mon_run client_monitor (snd (run_trace dock_step inputs dock_new)) {} = Some (client_view ?d)"
    by simp
  then show ?thesis by (cases "dk_client ?d") (simp_all add: dock_delete_def client_view_def)
qed

theorem dock_client_lifetime_witness:
  "mon_run client_monitor
    (snd (run_trace dock_step [DkClick ''a'', DkConnected obs_with_default True True, DkClick ''b''] dock_new)
     @ dock_delete (fst (run_trace dock_step [DkClick ''a'', DkConnected obs_with_default True True, DkClick ''b''] dock_new))) {} = Some {}"
  by (rule dock_client_lifetime) simp

text \<open>
  C32. A click during a connection is fatal: the connection of the first camera runs the event loop, and a click on a
  second camera then deletes the client whose method is still on the stack; if the connections end, in
  whichever way, the first one goes on in a deleted object.
\<close>

theorem dock_nested_click_uses_deleted_client:
  "mon_run client_monitor (snd (run_trace dock_step
     [DkClick a, DkClick b, DkConnected env1 ptz1 ok1, DkConnected env2 ptz2 ok2] dock_new)) {} = None"
  by (cases ok1) (simp_all add: open_begin_def open_end_def open_result_def deref_client_def dock_new_def Let_def
      presence_client note_reachable_def updatePtzTab_def)

end
