(* ===== verification/Preset_Panel.thy ===== *)
theory Preset_Panel
  imports Camera_Client Resources
begin

text \<open>
  The preset and trace slots of the dock, \<^verbatim>\<open>class ZcPresetPanel\<close> in \<^verbatim>\<open>src/ui/zc_control_dock.cpp\<close>. The
  record \<open>panel\<close> holds the members and what the widgets show and allow; an input is a click on a
  control, a reply of the camera, the end of a timer or a change of the client. A callback handed to
  the client has a serial number, by which its reply finds it; the serial is the number the requests of
  the camera client carry. A control that is disabled or hidden takes no clicks.

  The slots are a vector of ten; an access outside it is the event \<open>PpBadSlot\<close>, after which the
  program has no defined behaviour. Texts are those of \<^verbatim>\<open>data/locale/en-US.ini\<close>; labels and hints are
  values of their own type, thumbnails are shown or not.
\<close>

subsection \<open>State\<close>

definition kPresetPerPage :: int where "kPresetPerPage = 10"
definition kPresetPages :: int where "kPresetPages = 10"
definition kPresetNameMax :: nat where "kPresetNameMax = 18"

text \<open>\<^verbatim>\<open>int\<close> division and remainder round towards zero.\<close>

definition quot10 :: "int \<Rightarrow> int" where
  "quot10 i = (if i < 0 then - ((- i) div kPresetPerPage) else i div kPresetPerPage)"

definition rem10 :: "int \<Rightarrow> int" where
  "rem10 i = i - quot10 i * kPresetPerPage"

datatype pp_hint = HintNone | HintBusy | HintRecording | HintReady | HintPlaying | HintTraceBusy

datatype pp_thumb = ThumbNone | ThumbWait | ThumbImage

datatype pp_label = LbRecall | LbAdd | LbReplace | LbStartRecord | LbStopRecord | LbPrepare | LbPlay | LbStopPlayback

record pp_buttons =
  bt_primary :: "pp_label \<times> bool"
  bt_secondary :: "pp_label \<times> bool"
  bt_delete :: bool
  bt_rename :: bool
  bt_unit :: bool
  bt_speed :: bool
  bt_pages :: bool

text \<open>A callback knows the family, trace or not, and the slot it was made for.\<close>

datatype pp_cb = CbInfo bool int | CbThumb bool int | CbTraceState | CbMaxSpeed | CbMaxTime

datatype pp_timer = TmStopped | TmStarted int | TmLoad int | TmTraceState

datatype pp_event = PpSend slot_cmd | PpCommand camera_cmd | PpRead nat string | PpBadSlot int

record panel =
  pp_client :: bool
  pp_connected :: bool
  pp_traceMode :: bool
  pp_traceState :: int
  pp_page :: int
  pp_selected :: int
  pp_maxSpeed :: int
  pp_maxTime :: int
  pp_info :: "int \<Rightarrow> jobject option"
  pp_thumbs :: "int set"
  pp_names :: "string list"
  pp_editable :: "bool list"
  pp_images :: "pp_thumb list"
  pp_hint :: pp_hint
  pp_buttons :: pp_buttons
  pp_unit :: int
  pp_speeds :: "int list"
  pp_speed :: int
  pp_next :: nat
  pp_pending :: "(nat \<times> pp_cb) list"
  pp_timers :: "pp_timer list"

text \<open>\<^verbatim>\<open>QJsonObject::insert\<close>, and \<^verbatim>\<open>QHash::operator[]\<close>, which makes a missing entry.\<close>

definition jinsert :: "string \<Rightarrow> json \<Rightarrow> jobject \<Rightarrow> jobject" where
  "jinsert k v o1 = (k, v) # filter (\<lambda>kv. fst kv \<noteq> k) o1"

definition info_of :: "panel \<Rightarrow> int \<Rightarrow> jobject" where
  "info_of p i = (case pp_info p i of None \<Rightarrow> [] | Some o1 \<Rightarrow> o1)"

definition info_insert :: "int \<Rightarrow> string \<Rightarrow> json \<Rightarrow> panel \<Rightarrow> panel" where
  "info_insert i k v p = p\<lparr>pp_info := (pp_info p)(i \<mapsto> jinsert k v (info_of p i))\<rparr>"

definition info_name :: "jobject \<Rightarrow> string" where
  "info_name o1 = jtoString (jfield o1 ''name'')"

definition defaultName :: "panel \<Rightarrow> int \<Rightarrow> string" where
  "defaultName p index = (if pp_traceMode p then ''Trace '' else ''Preset '') @ arg_pad0 3 (index + 1)"

definition selectedIsNamed :: "panel \<Rightarrow> bool" where
  "selectedIsNamed p \<longleftrightarrow> pp_selected p \<ge> 0 \<and> info_name (info_of p (pp_selected p)) \<noteq> []"

text \<open>A line edit keeps 18 characters and drops the two that would break the query string.\<close>

definition line_text :: "string \<Rightarrow> string" where
  "line_text s = filter (\<lambda>c. c \<noteq> CHR ''&'' \<and> c \<noteq> CHR ''='') (take kPresetNameMax s)"

definition show_name :: "int \<Rightarrow> string \<Rightarrow> panel \<Rightarrow> panel" where
  "show_name i s p = p\<lparr>pp_names := (pp_names p)[nat (rem10 i) := line_text s]\<rparr>"

definition show_image :: "int \<Rightarrow> pp_thumb \<Rightarrow> panel \<Rightarrow> panel" where
  "show_image i t p = p\<lparr>pp_images := (pp_images p)[nat (rem10 i) := t]\<rparr>"

definition bad_slot :: "int \<Rightarrow> bool" where
  "bad_slot i \<longleftrightarrow> rem10 i < 0"

subsection \<open>Controls\<close>

definition updateSelection :: "panel \<Rightarrow> panel" where
  "updateSelection p = p\<lparr>pp_editable := replicate 10 False\<rparr>"

definition trace_hint :: "trace_state \<Rightarrow> pp_hint" where
  "trace_hint st =
     (case st of
        TraceRecording \<Rightarrow> HintRecording
      | TraceReadyForPlay \<Rightarrow> HintReady
      | TracePlaying \<Rightarrow> HintPlaying
      | TracePreparing \<Rightarrow> HintTraceBusy
      | TraceDeleting \<Rightarrow> HintTraceBusy
      | _ \<Rightarrow> HintNone)"

definition preset_buttons :: "panel \<Rightarrow> pp_buttons" where
  "preset_buttons p =
     (let has = (pp_selected p \<ge> 0) in
      \<lparr>bt_primary = (LbRecall, has), bt_secondary = (if selectedIsNamed p then LbReplace else LbAdd, has),
       bt_delete = has, bt_rename = has, bt_unit = has, bt_speed = (has \<and> pp_speeds p \<noteq> []), bt_pages = True\<rparr>)"

definition trace_buttons :: "panel \<Rightarrow> pp_buttons" where
  "trace_buttons p =
     (let has = (pp_selected p \<ge> 0); named = selectedIsNamed p;
          st = traceStateFromInt (pp_traceState p); act = traceActions st in
      \<lparr>bt_primary = (if st = TraceRecording then LbStopRecord else LbStartRecord,
                     ta_record act \<and> (has \<or> st = TraceRecording)),
       bt_secondary = (if st = TracePlaying then LbStopPlayback else if st = TraceReadyForPlay then LbPlay else LbPrepare,
                       ta_prepare act \<and> (named \<or> st = TracePlaying \<or> st = TraceReadyForPlay)),
       bt_delete = (ta_remove act \<and> named), bt_rename = (has \<and> ta_navigate act),
       bt_unit = False, bt_speed = False, bt_pages = ta_navigate act\<rparr>)"

definition updateActions :: "panel \<Rightarrow> panel" where
  "updateActions p =
     (if \<not> pp_traceMode p then p\<lparr>pp_buttons := preset_buttons p\<rparr>
      else p\<lparr>pp_buttons := trace_buttons p, pp_hint := trace_hint (traceStateFromInt (pp_traceState p))\<rparr>)"

definition fill_speeds :: "int \<Rightarrow> int \<Rightarrow> panel \<Rightarrow> panel" where
  "fill_speeds limit current p =
     (let items = [1..limit] in
      p\<lparr>pp_speeds := items,
        pp_speed := (if items = [] then - 1 else if current > 0 then min (current - 1) (int (length items) - 1) else 0),
        pp_buttons := (pp_buttons p)\<lparr>bt_speed := (items \<noteq> [])\<rparr>\<rparr>)"

definition updateSpeedControls :: "panel \<Rightarrow> panel" where
  "updateSpeedControls p =
     (if pp_selected p < 0 then p\<lparr>pp_speeds := [], pp_speed := - 1\<rparr>
      else
        (let info = info_of p (pp_selected p); unit = jtoInt 0 (jfield info ''unit'') in
         if unit = 1
         then fill_speeds (pp_maxTime p div 1000) (jtoInt 0 (jfield info ''time'') div 1000) (p\<lparr>pp_unit := 1\<rparr>)
         else fill_speeds (pp_maxSpeed p) (jtoInt 0 (jfield info ''speed'')) (p\<lparr>pp_unit := 0\<rparr>)))"

subsection \<open>Loading\<close>

text \<open>A request with a callback takes the next serial number.\<close>

definition ask :: "pp_cb \<Rightarrow> (nat \<Rightarrow> pp_event) \<Rightarrow> panel \<Rightarrow> panel \<times> pp_event list" where
  "ask cb ev p =
     (p\<lparr>pp_next := Suc (pp_next p), pp_pending := (pp_next p, cb) # pp_pending p\<rparr>, [ev (pp_next p)])"

definition loadSlot :: "int \<Rightarrow> panel \<Rightarrow> panel \<times> pp_event list" where
  "loadSlot index p =
     (if \<not> pp_client p \<or> \<not> pp_connected p then (p, [])
      else if pp_traceMode p then ask (CbInfo True index) (\<lambda>n. PpSend (PtraceInfo index n)) p
      else ask (CbInfo False index) (\<lambda>n. PpSend (PtzPresetInfo index n)) p)"

fun load_slots :: "int list \<Rightarrow> panel \<Rightarrow> panel \<times> pp_event list" where
  "load_slots [] p = (p, [])"
| "load_slots (i # is) p = then_do (loadSlot i p) (load_slots is)"

definition showPage :: "int \<Rightarrow> panel \<Rightarrow> panel \<times> pp_event list" where
  "showPage pg p =
     (if pg < 0 \<or> pg \<ge> kPresetPages then (p, [])
      else
        load_slots (map (\<lambda>s. pg * kPresetPerPage + s) [0..9])
          (updateSpeedControls (updateActions (updateSelection
            (p\<lparr>pp_page := pg, pp_selected := - 1, pp_images := replicate 10 ThumbNone,
               pp_names := map (\<lambda>s. line_text (defaultName p (pg * kPresetPerPage + s))) [0..9],
               pp_hint := HintNone\<rparr>)))))"

definition refreshTraceState :: "panel \<Rightarrow> panel \<times> pp_event list" where
  "refreshTraceState p =
     (if \<not> pp_traceMode p \<or> \<not> pp_client p \<or> \<not> pp_connected p then (p, [])
      else ask CbTraceState (\<lambda>n. PpSend (PtraceQuery n)) p)"

definition onTraceState :: "int \<Rightarrow> panel \<Rightarrow> panel" where
  "onTraceState stCode p = (if stCode < 0 then p else updateActions (p\<lparr>pp_traceState := stCode\<rparr>))"

definition read_maxima :: "panel \<Rightarrow> panel \<times> pp_event list" where
  "read_maxima p =
     then_do (ask CbMaxSpeed (\<lambda>n. PpRead n ''ptz_common_speed'') p)
       (ask CbMaxTime (\<lambda>n. PpRead n ''ptz_common_time''))"

definition refresh_panel :: "panel \<Rightarrow> panel \<times> pp_event list" where
  "refresh_panel p =
     then_do (showPage (pp_page p)
         (p\<lparr>pp_info := (\<lambda>_. None), pp_thumbs := {}, pp_maxSpeed := 0, pp_maxTime := 0, pp_traceState := 0\<rparr>))
       (\<lambda>p1. if \<not> pp_client p1 then (p1, []) else then_do (refreshTraceState p1) read_maxima)"

text \<open>The callbacks of a client die with it; a new client is not connected.\<close>

definition pp_setClient :: "bool \<Rightarrow> panel \<Rightarrow> panel \<times> pp_event list" where
  "pp_setClient c p = refresh_panel (p\<lparr>pp_client := c, pp_connected := False, pp_pending := []\<rparr>)"

definition setTraceMode :: "bool \<Rightarrow> panel \<Rightarrow> panel \<times> pp_event list" where
  "setTraceMode trace p =
     (if pp_traceMode p = trace then (p, [])
      else
        then_do (showPage 0 (p\<lparr>pp_traceMode := trace, pp_info := (\<lambda>_. None), pp_thumbs := {}, pp_traceState := 0\<rparr>))
          (\<lambda>p1. if trace then refreshTraceState p1 else (p1, [])))"

subsection \<open>Replies\<close>

definition note_info :: "int \<Rightarrow> jobject \<Rightarrow> panel \<Rightarrow> panel" where
  "note_info index info p =
     (let p1 = show_name index (if info_name info = [] then defaultName p index else info_name info) p;
          p2 = (if index = pp_selected p1 then updateSpeedControls (updateActions p1) else p1) in
      if \<not> pp_traceMode p2 \<and> jtoInt 0 (jfield info ''status'') \<noteq> 0 then p2\<lparr>pp_hint := HintBusy\<rparr> else p2)"

definition applySlotInfo :: "int \<Rightarrow> jobject \<Rightarrow> panel \<Rightarrow> panel \<times> pp_event list" where
  "applySlotInfo index info p0 =
     (if quot10 index \<noteq> pp_page p0 then (p0, [])
      else
        (let p = p0\<lparr>pp_info := (pp_info p0)(index \<mapsto> info)\<rparr> in
         if bad_slot index then (p, [PpBadSlot (rem10 index)])
         else
           (let p1 = note_info index info p in
            if info_name info = [] then (show_image index ThumbNone p1, [])
            else if index \<in> pp_thumbs p1 then (show_image index ThumbImage p1, [])
            else
              ask (CbThumb (pp_traceMode p1) index)
                (\<lambda>n. PpSend (if pp_traceMode p1 then PtraceThumbnail index n else PtzPresetThumbnail index n))
                (show_image index ThumbWait p1))))"

text \<open>\<open>pic\<close> is whether the bytes are an image.\<close>

definition gotThumbnail :: "bool \<Rightarrow> int \<Rightarrow> bool \<Rightarrow> panel \<Rightarrow> panel \<times> pp_event list" where
  "gotThumbnail trace index pic p0 =
     (if trace \<noteq> pp_traceMode p0 then (p0, [])
      else
        (let p = (if pic then p0\<lparr>pp_thumbs := insert index (pp_thumbs p0)\<rparr> else p0) in
         if quot10 index \<noteq> pp_page p then (p, [])
         else if bad_slot index then (p, [PpBadSlot (rem10 index)])
         else (show_image index (if pic then ThumbImage else ThumbNone) p, [])))"

text \<open>What a reply carries: the document of a slot, whether its bytes are an image, the state of the
  transport, or the maximum of a setting.\<close>

datatype pp_answer = AnInfo jobject | AnImage bool | AnState int | AnMaximum int

fun run_cb :: "pp_cb \<Rightarrow> pp_answer \<Rightarrow> panel \<Rightarrow> panel \<times> pp_event list" where
  "run_cb (CbInfo trace index) (AnInfo info) p =
     (if trace \<noteq> pp_traceMode p then (p, []) else applySlotInfo index info p)"
| "run_cb (CbThumb trace index) (AnImage pic) p = gotThumbnail trace index pic p"
| "run_cb CbTraceState (AnState st) p = (if pp_traceMode p then onTraceState st p else p, [])"
| "run_cb CbMaxSpeed (AnMaximum v) p = (updateSpeedControls (p\<lparr>pp_maxSpeed := (if v > 0 then v else 0)\<rparr>), [])"
| "run_cb CbMaxTime (AnMaximum v) p = (updateSpeedControls (p\<lparr>pp_maxTime := (if v > 0 then v else 0)\<rparr>), [])"
| "run_cb _ _ p = (p, [])"

definition pp_reply :: "nat \<Rightarrow> pp_answer \<Rightarrow> panel \<Rightarrow> panel \<times> pp_event list" where
  "pp_reply n a p =
     (case map_of (pp_pending p) n of
        None \<Rightarrow> (p, [])
      | Some cb \<Rightarrow> run_cb cb a (p\<lparr>pp_pending := filter (\<lambda>x. fst x \<noteq> n) (pp_pending p)\<rparr>))"

subsection \<open>Clicks\<close>

definition add_timer :: "pp_timer \<Rightarrow> panel \<Rightarrow> panel" where
  "add_timer t p = p\<lparr>pp_timers := pp_timers p @ [t]\<rparr>"

definition primary_clicked :: "panel \<Rightarrow> panel \<times> pp_event list" where
  "primary_clicked p =
     (if \<not> pp_client p then (p, [])
      else if \<not> pp_traceMode p
      then (p, if pp_selected p \<ge> 0 then [PpCommand (PtzPresetRecall (pp_selected p))] else [])
      else if traceStateFromInt (pp_traceState p) = TraceRecording then (add_timer TmStopped p, [PpSend PtraceRecordStop])
      else if pp_selected p < 0 then (p, [])
      else
        (let i = pp_selected p; p1 = info_insert i ''name'' (JStr []) (p\<lparr>pp_thumbs := pp_thumbs p - {i}\<rparr>) in
         (add_timer (TmStarted i) (show_name i (defaultName p1 i) p1), [PpSend (PtraceRecordStart i)])))"

definition secondary_clicked :: "panel \<Rightarrow> panel \<times> pp_event list" where
  "secondary_clicked p =
     (let i = pp_selected p; st = traceStateFromInt (pp_traceState p) in
      if \<not> pp_client p then (p, [])
      else if \<not> pp_traceMode p
      then (if i < 0 then (p, [])
            else (add_timer (TmLoad i) (p\<lparr>pp_thumbs := pp_thumbs p - {i}\<rparr>), [PpCommand (PtzPresetSet i)]))
      else if st = TracePlaying then (add_timer TmTraceState p, [PpSend PtracePlayStop])
      else if st = TraceReadyForPlay then (add_timer TmTraceState p, [PpSend PtracePlayStart])
      else if i < 0 then (p, [])
      else (add_timer TmTraceState p, [PpSend (PtracePlayPrepare i)]))"

definition delete_clicked :: "panel \<Rightarrow> panel \<times> pp_event list" where
  "delete_clicked p =
     (let i = pp_selected p in
      if i < 0 \<or> \<not> pp_client p then (p, [])
      else
        (add_timer (TmLoad i) (info_insert i ''name'' (JStr []) (p\<lparr>pp_thumbs := pp_thumbs p - {i}\<rparr>)),
         [if pp_traceMode p then PpSend (PtraceDelete i) else PpCommand (PtzPresetDelete i)]))"

definition unit_changed :: "int \<Rightarrow> panel \<Rightarrow> panel \<times> pp_event list" where
  "unit_changed unit p =
     (let i = pp_selected p in
      if i < 0 \<or> \<not> pp_client p then (p, [])
      else (updateSpeedControls (info_insert i ''unit'' (JNum (of_int unit)) p), [PpSend (PtzPresetSetSpeedUnit i unit)]))"

definition speed_changed :: "int \<Rightarrow> panel \<Rightarrow> panel \<times> pp_event list" where
  "speed_changed row p =
     (let i = pp_selected p; v = (if nat row < length (pp_speeds p) then pp_speeds p ! nat row else 0) in
      if i < 0 \<or> \<not> pp_client p \<or> row < 0 then (p, [])
      else if pp_unit p = 1
      then (info_insert i ''time'' (JNum (of_int (v * 1000))) p, [PpSend (PtzPresetSetSpeedByDuration i v)])
      else (info_insert i ''speed'' (JNum (of_int v)) p, [PpSend (PtzPresetSetSpeedByIndex i v)]))"

definition onSlotClicked :: "int \<Rightarrow> panel \<Rightarrow> panel" where
  "onSlotClicked index p =
     (if pp_traceMode p \<and> \<not> ta_navigate (traceActions (traceStateFromInt (pp_traceState p))) then p
      else
        updateSpeedControls (updateActions (updateSelection
          (p\<lparr>pp_selected := (if pp_selected p = index then - 1 else index)\<rparr>))))"

definition beginRename :: "panel \<Rightarrow> panel" where
  "beginRename p =
     (if pp_selected p < 0 then p else p\<lparr>pp_editable := (pp_editable p)[nat (rem10 (pp_selected p)) := True]\<rparr>)"

definition commitRename :: "int \<Rightarrow> string \<Rightarrow> panel \<Rightarrow> panel \<times> pp_event list" where
  "commitRename index text p0 =
     (let p = p0\<lparr>pp_editable := (pp_editable p0)[nat (rem10 index) := False]\<rparr>;
          name = filter (\<lambda>c. c \<noteq> CHR ''&'' \<and> c \<noteq> CHR ''='') text;
          stored = info_name (info_of p index) in
      if name = [] \<or> length name > kPresetNameMax
      then (show_name index (if stored = [] then defaultName p index else stored) p, [])
      else if name = stored then (p, [])
      else if \<not> pp_client p then (p, [])
      else
        (let p1 = show_name index name (info_insert index ''name'' (JStr name) p);
             p2 = (if index = pp_selected p1 then updateActions p1 else p1) in
         then_do (p2, [PpSend (if pp_traceMode p then PtraceSetName index name else PtzPresetSetName index name)])
           (loadSlot index)))"

text \<open>The 400 ms timers.\<close>

fun fire :: "pp_timer \<Rightarrow> panel \<Rightarrow> panel \<times> pp_event list" where
  "fire TmStopped p = then_do (refreshTraceState p) (\<lambda>p1. loadSlot (pp_selected p1) p1)"
| "fire (TmStarted i) p = then_do (refreshTraceState p) (loadSlot i)"
| "fire (TmLoad i) p = loadSlot i p"
| "fire TmTraceState p = refreshTraceState p"

subsection \<open>The panel as a state machine\<close>

text \<open>\<open>PpSlot\<close>, \<open>PpType\<close>, \<open>PpReturn\<close> and \<open>PpLeave\<close> name one of the ten slots: a click on it, typing into its name while
  that can be edited, the return key in it, and the loss of the focus.\<close>

datatype pp_input =
    PpPrimary | PpSecondary | PpDelete | PpRename | PpUnit int | PpSpeed int | PpPage nat | PpFamily bool | PpSlot nat
  | PpType nat string | PpReturn nat | PpLeave nat | PpReply nat pp_answer | PpTimer nat
  | PpClient bool | PpConnected bool | PpRefresh

definition slot_index :: "nat \<Rightarrow> panel \<Rightarrow> int" where
  "slot_index s p = pp_page p * kPresetPerPage + int s"

fun pp_step :: "pp_input \<Rightarrow> panel \<Rightarrow> panel \<times> pp_event list" where
  "pp_step PpPrimary p = (if snd (bt_primary (pp_buttons p)) then primary_clicked p else (p, []))"
| "pp_step PpSecondary p = (if snd (bt_secondary (pp_buttons p)) then secondary_clicked p else (p, []))"
| "pp_step PpDelete p = (if bt_delete (pp_buttons p) then delete_clicked p else (p, []))"
| "pp_step PpRename p = (if bt_rename (pp_buttons p) then (beginRename p, []) else (p, []))"
| "pp_step (PpUnit u) p =
     (if \<not> pp_traceMode p \<and> bt_unit (pp_buttons p) \<and> u \<noteq> pp_unit p \<and> u \<in> {0, 1}
      then unit_changed u (p\<lparr>pp_unit := u\<rparr>) else (p, []))"
| "pp_step (PpSpeed row) p =
     (if \<not> pp_traceMode p \<and> bt_speed (pp_buttons p) \<and> row \<noteq> pp_speed p \<and> 0 \<le> row \<and> nat row < length (pp_speeds p)
      then speed_changed row (p\<lparr>pp_speed := row\<rparr>) else (p, []))"
| "pp_step (PpPage pg) p = (if bt_pages (pp_buttons p) \<and> pg < 10 then showPage (int pg) p else (p, []))"
| "pp_step (PpFamily trace) p = setTraceMode trace p"
| "pp_step (PpSlot s) p = (if s < 10 then (onSlotClicked (slot_index s p) p, []) else (p, []))"
| "pp_step (PpType s text) p =
     (if s < 10 \<and> pp_editable p ! s then (p\<lparr>pp_names := (pp_names p)[s := line_text text]\<rparr>, []) else (p, []))"
| "pp_step (PpReturn s) p = (if s < 10 then commitRename (slot_index s p) (pp_names p ! s) p else (p, []))"
| "pp_step (PpLeave s) p =
     (if s < 10 \<and> pp_editable p ! s then commitRename (slot_index s p) (pp_names p ! s) p else (p, []))"
| "pp_step (PpReply n a) p = pp_reply n a p"
| "pp_step (PpTimer k) p =
     (if k < length (pp_timers p)
      then fire (pp_timers p ! k) (p\<lparr>pp_timers := take k (pp_timers p) @ drop (Suc k) (pp_timers p)\<rparr>) else (p, []))"
| "pp_step (PpClient c) p = pp_setClient c p"
| "pp_step (PpConnected b) p = (if pp_client p then (p\<lparr>pp_connected := b\<rparr>, []) else (p, []))"
| "pp_step PpRefresh p = (if pp_client p then refresh_panel p else (p, []))"

definition pp_new :: panel where
  "pp_new =
     fst (showPage 0 \<lparr>pp_client = False, pp_connected = False, pp_traceMode = False, pp_traceState = 0, pp_page = 0,
       pp_selected = - 1, pp_maxSpeed = 0, pp_maxTime = 0, pp_info = (\<lambda>_. None), pp_thumbs = {},
       pp_names = replicate 10 [], pp_editable = replicate 10 False, pp_images = replicate 10 ThumbNone, pp_hint = HintNone,
       pp_buttons = \<lparr>bt_primary = (LbRecall, False), bt_secondary = (LbAdd, False), bt_delete = False, bt_rename = False,
         bt_unit = False, bt_speed = False, bt_pages = True\<rparr>,
       pp_unit = 0, pp_speeds = [], pp_speed = - 1, pp_next = 0, pp_pending = [], pp_timers = []\<rparr>)"

subsection \<open>Invariant\<close>

definition in_slots :: "int \<Rightarrow> bool" where
  "in_slots i \<longleftrightarrow> 0 \<le> i \<and> i < 100"

fun cb_ok :: "pp_cb \<Rightarrow> bool" where
  "cb_ok (CbInfo trace i) = (- 1 \<le> i \<and> i < 100)"
| "cb_ok (CbThumb trace i) = in_slots i"
| "cb_ok _ = True"

fun timer_ok :: "pp_timer \<Rightarrow> bool" where
  "timer_ok (TmStarted i) = in_slots i"
| "timer_ok (TmLoad i) = in_slots i"
| "timer_ok _ = True"

definition pages_ok :: "panel \<Rightarrow> bool" where
  "pages_ok p \<longleftrightarrow>
     (pp_traceMode p \<longrightarrow> bt_pages (pp_buttons p) = ta_navigate (traceActions (traceStateFromInt (pp_traceState p))))"

definition pp_base :: "panel \<Rightarrow> bool" where
  "pp_base p \<longleftrightarrow>
     0 \<le> pp_page p \<and> pp_page p < 10 \<and> (pp_selected p = - 1 \<or> in_slots (pp_selected p) \<and> quot10 (pp_selected p) = pp_page p)
     \<and> list_all (\<lambda>x. cb_ok (snd x)) (pp_pending p) \<and> list_all timer_ok (pp_timers p)
     \<and> length (pp_names p) = 10 \<and> length (pp_editable p) = 10 \<and> length (pp_images p) = 10"

definition pp_inv :: "panel \<Rightarrow> bool" where
  "pp_inv p \<longleftrightarrow> pp_base p \<and> pages_ok p"

definition name_ok :: "string \<Rightarrow> bool" where
  "name_ok s \<longleftrightarrow> s \<noteq> [] \<and> length s \<le> 18 \<and> list_all (\<lambda>c. c \<noteq> CHR ''&'' \<and> c \<noteq> CHR ''='') s"

text \<open>A request that changes a slot names one of the hundred, a new name fits the camera and the query; only a
  request that reads may be for no slot.\<close>

fun slot_cmd_ok :: "slot_cmd \<Rightarrow> bool" where
  "slot_cmd_ok (PtzPresetInfo i n) = (- 1 \<le> i \<and> i < 100)"
| "slot_cmd_ok (PtraceInfo i n) = (- 1 \<le> i \<and> i < 100)"
| "slot_cmd_ok (PtzPresetSetName i s) = (in_slots i \<and> name_ok s)"
| "slot_cmd_ok (PtraceSetName i s) = (in_slots i \<and> name_ok s)"
| "slot_cmd_ok (PtzPresetSetSpeedUnit i u) = (in_slots i \<and> u \<in> {0, 1})"
| "slot_cmd_ok (PtzPresetSetSpeedByIndex i v) = in_slots i"
| "slot_cmd_ok (PtzPresetSetSpeedByDuration i v) = in_slots i"
| "slot_cmd_ok (PtzPresetThumbnail i n) = in_slots i"
| "slot_cmd_ok (PtraceThumbnail i n) = in_slots i"
| "slot_cmd_ok (PtraceDelete i) = in_slots i"
| "slot_cmd_ok (PtraceRecordStart i) = in_slots i"
| "slot_cmd_ok (PtracePlayPrepare i) = in_slots i"
| "slot_cmd_ok _ = True"

fun pp_event_ok :: "pp_event \<Rightarrow> bool" where
  "pp_event_ok (PpSend c) = slot_cmd_ok c"
| "pp_event_ok (PpCommand (PtzPresetSet i)) = in_slots i"
| "pp_event_ok (PpCommand (PtzPresetRecall i)) = in_slots i"
| "pp_event_ok (PpCommand (PtzPresetDelete i)) = in_slots i"
| "pp_event_ok (PpCommand _) = False"
| "pp_event_ok (PpRead n k) = True"
| "pp_event_ok (PpBadSlot i) = (i = - 1)"

definition pp_ok :: "panel \<times> pp_event list \<Rightarrow> bool" where
  "pp_ok r \<longleftrightarrow> pp_inv (fst r) \<and> list_all pp_event_ok (snd r)"

lemma pp_ok_then: "pp_ok r \<Longrightarrow> (\<And>p. pp_inv p \<Longrightarrow> pp_ok (f p)) \<Longrightarrow> pp_ok (then_do r f)"
  by (simp add: pp_ok_def)

lemma pp_ok_silent [simp]: "pp_ok (p, []) = pp_inv p"
  by (simp add: pp_ok_def)

text \<open>The controls only touch what is shown.\<close>

lemma updateSelection_base [simp]: "pp_base p \<Longrightarrow> pp_base (updateSelection p)"
  by (simp add: pp_base_def updateSelection_def)

lemma updateActions_inv: "pp_base p \<Longrightarrow> pp_inv (updateActions p)"
  by (auto simp: pp_inv_def pp_base_def pages_ok_def updateActions_def trace_buttons_def Let_def)

lemma fill_speeds_fields:
  "pp_base (fill_speeds t c p) = pp_base p" "pages_ok (fill_speeds t c p) = pages_ok p"
  by (simp_all add: fill_speeds_def Let_def pp_base_def pages_ok_def)

lemma updateSpeed_inv [simp]: "pp_inv (updateSpeedControls p) = pp_inv p"
  by (simp add: pp_inv_def updateSpeedControls_def Let_def fill_speeds_fields) (simp add: pp_base_def pages_ok_def)

lemma show_fields [simp]:
  "pp_inv (show_name i s p) = pp_inv p" "pp_inv (show_image i t p) = pp_inv p" "pp_inv (info_insert i k j p) = pp_inv p"
  "pp_inv (p\<lparr>pp_info := f\<rparr>) = pp_inv p" "pp_inv (p\<lparr>pp_thumbs := th\<rparr>) = pp_inv p" "pp_inv (p\<lparr>pp_hint := h\<rparr>) = pp_inv p"
  "pp_inv (p\<lparr>pp_maxSpeed := v\<rparr>) = pp_inv p" "pp_inv (p\<lparr>pp_maxTime := v\<rparr>) = pp_inv p" "pp_inv (p\<lparr>pp_unit := v\<rparr>) = pp_inv p"
  "pp_inv (p\<lparr>pp_speed := v\<rparr>) = pp_inv p" "pp_inv (p\<lparr>pp_connected := b\<rparr>) = pp_inv p"
  by (simp_all add: pp_inv_def pp_base_def pages_ok_def show_name_def show_image_def info_insert_def)

lemma edit_fields [simp]:
  "pp_inv (p\<lparr>pp_editable := (pp_editable p)[k := b]\<rparr>) = pp_inv p" "pp_inv (p\<lparr>pp_names := (pp_names p)[k := s]\<rparr>) = pp_inv p"
  by (simp_all add: pp_inv_def pp_base_def pages_ok_def)

lemma add_timer_inv: "pp_inv p \<Longrightarrow> timer_ok t \<Longrightarrow> pp_inv (add_timer t p)"
  by (simp add: pp_inv_def pp_base_def pages_ok_def add_timer_def)

lemma drop_timer_inv: "pp_inv p \<Longrightarrow> pp_inv (p\<lparr>pp_timers := take k (pp_timers p) @ drop (Suc k) (pp_timers p)\<rparr>)"
  by (auto simp: pp_inv_def pp_base_def pages_ok_def list_all_iff dest: in_set_takeD in_set_dropD)

lemma pp_inv_base: "pp_inv p \<Longrightarrow> pp_base p"
  by (simp add: pp_inv_def)

lemma selected_in: "pp_inv p \<Longrightarrow> 0 \<le> pp_selected p \<Longrightarrow> in_slots (pp_selected p)"
  by (auto simp: pp_inv_def pp_base_def)

lemma selected_bound: "pp_inv p \<Longrightarrow> - 1 \<le> pp_selected p \<and> pp_selected p < 100"
  by (auto simp: pp_inv_def pp_base_def in_slots_def)

subsection \<open>Every step keeps it\<close>

lemma ask_ok: "pp_inv p \<Longrightarrow> cb_ok cb \<Longrightarrow> pp_event_ok (ev (pp_next p)) \<Longrightarrow> pp_ok (ask cb ev p)"
  by (simp add: pp_ok_def ask_def pp_inv_def pp_base_def pages_ok_def)

lemma loadSlot_ok: "pp_inv p \<Longrightarrow> - 1 \<le> i \<Longrightarrow> i < 100 \<Longrightarrow> pp_ok (loadSlot i p)"
  by (auto simp: loadSlot_def intro: ask_ok)

lemma load_slots_ok: "pp_inv p \<Longrightarrow> \<forall>i \<in> set is. - 1 \<le> i \<and> i < 100 \<Longrightarrow> pp_ok (load_slots is p)"
  by (induction "is" arbitrary: p) (auto intro!: pp_ok_then loadSlot_ok)

lemma showPage_ok:
  assumes "pp_base p \<and> (0 \<le> pg \<and> pg < 10 \<or> pages_ok p)"
  shows "pp_ok (showPage pg p)"
proof (cases "pg < 0 \<or> pg \<ge> 10")
  case True
  with assms show ?thesis by (auto simp: showPage_def kPresetPages_def pp_inv_def)
next
  case False
  have "length (map f [0..9]) = 10" for f :: "int \<Rightarrow> string" by simp
  then have "pp_base (p\<lparr>pp_page := pg, pp_selected := - 1, pp_images := replicate 10 ThumbNone,
      pp_names := map (\<lambda>s. line_text (defaultName p (pg * kPresetPerPage + s))) [0..9], pp_hint := HintNone\<rparr>)"
    using assms False by (simp add: pp_base_def)
  moreover have "\<forall>i \<in> set (map (\<lambda>s. pg * kPresetPerPage + s) [0..9]). - 1 \<le> i \<and> i < 100"
    using False by (auto simp: kPresetPerPage_def)
  ultimately show ?thesis
    using False by (auto simp: showPage_def kPresetPages_def intro!: load_slots_ok updateActions_inv simp del: upto_rec_numeral)
qed

lemma refreshTraceState_ok: "pp_inv p \<Longrightarrow> pp_ok (refreshTraceState p)"
  by (auto simp: refreshTraceState_def intro: ask_ok)

lemma read_maxima_ok: "pp_inv p \<Longrightarrow> pp_ok (read_maxima p)"
  unfolding read_maxima_def by (rule pp_ok_then) (auto intro: ask_ok)

lemma refresh_panel_ok:
  assumes "pp_base p"
  shows "pp_ok (refresh_panel p)"
proof -
  have "0 \<le> pp_page p" "pp_page p < 10" using assms by (simp_all add: pp_base_def)
  then have "pp_ok (showPage (pp_page p) (p\<lparr>pp_info := (\<lambda>_. None), pp_thumbs := {}, pp_maxSpeed := 0, pp_maxTime := 0, pp_traceState := 0\<rparr>))"
    using assms by (intro showPage_ok) (simp add: pp_base_def)
  then show ?thesis
    unfolding refresh_panel_def
    by (rule pp_ok_then) (auto intro: pp_ok_then refreshTraceState_ok read_maxima_ok simp del: then_do_simps)
qed

lemma setTraceMode_ok: "pp_inv p \<Longrightarrow> pp_ok (setTraceMode trace p)"
  unfolding setTraceMode_def
  by (auto intro!: pp_ok_then showPage_ok refreshTraceState_ok simp: pp_inv_def pp_base_def simp del: then_do_simps)

lemma note_info_inv: "pp_inv p \<Longrightarrow> pp_inv (note_info i info p)"
  unfolding note_info_def Let_def by (auto intro!: updateActions_inv pp_inv_base)

lemma rem10_bad: "- 1 \<le> i \<Longrightarrow> bad_slot i \<longleftrightarrow> i = - 1"
  by (auto simp: bad_slot_def rem10_def quot10_def kPresetPerPage_def minus_div_mult_eq_mod)

lemma applySlotInfo_ok:
  assumes "pp_inv p" "- 1 \<le> i" "i < 100"
  shows "pp_ok (applySlotInfo i info p)"
proof -
  have "i \<noteq> - 1 \<Longrightarrow> in_slots i" using assms by (auto simp: in_slots_def)
  with assms note_info_inv show ?thesis
    by (auto simp: applySlotInfo_def Let_def rem10_bad intro!: ask_ok)
      (simp_all add: pp_ok_def rem10_def quot10_def kPresetPerPage_def)
qed

lemma gotThumbnail_ok: "pp_inv p \<Longrightarrow> in_slots i \<Longrightarrow> pp_ok (gotThumbnail trace i pic p)"
  using rem10_bad [of i] by (auto simp: gotThumbnail_def Let_def in_slots_def)

lemma onTraceState_inv: "pp_inv p \<Longrightarrow> pp_inv (onTraceState st p)"
  using updateActions_inv [of "p\<lparr>pp_traceState := st\<rparr>"] by (simp add: onTraceState_def pp_inv_def pp_base_def)

lemma run_cb_ok: "pp_inv p \<Longrightarrow> cb_ok cb \<Longrightarrow> pp_ok (run_cb cb a p)"
  by (cases "(cb, a, p)" rule: run_cb.cases) (simp_all add: applySlotInfo_ok gotThumbnail_ok onTraceState_inv)

lemma pp_reply_ok:
  assumes "pp_inv p"
  shows "pp_ok (pp_reply n a p)"
proof (cases "map_of (pp_pending p) n")
  case None
  with assms show ?thesis by (simp add: pp_reply_def)
next
  case (Some cb)
  then have "cb_ok cb" using assms by (auto simp: pp_inv_def pp_base_def list_all_iff dest!: map_of_SomeD)
  moreover have "pp_inv (p\<lparr>pp_pending := filter (\<lambda>x. fst x \<noteq> n) (pp_pending p)\<rparr>)"
    using assms by (auto simp: pp_inv_def pp_base_def pages_ok_def list_all_iff)
  ultimately show ?thesis using Some run_cb_ok by (simp add: pp_reply_def)
qed

lemma pp_okI: "pp_inv p \<Longrightarrow> list_all pp_event_ok es \<Longrightarrow> pp_ok (p, es)"
  by (simp add: pp_ok_def)

lemma clicked_ok:
  assumes "pp_inv p"
  shows "pp_ok (primary_clicked p)" "pp_ok (secondary_clicked p)" "pp_ok (delete_clicked p)"
  using assms selected_in [OF assms]
  by (auto simp: primary_clicked_def secondary_clicked_def delete_clicked_def Let_def intro!: pp_okI add_timer_inv)

lemma speed_ok: "pp_inv p \<Longrightarrow> u \<in> {0, 1} \<Longrightarrow> pp_ok (unit_changed u p)" "pp_inv p \<Longrightarrow> pp_ok (speed_changed row p)"
  using selected_in [of p] by (auto simp: unit_changed_def speed_changed_def Let_def intro!: pp_okI)

lemma quot10_slot: "s < 10 \<Longrightarrow> 0 \<le> pg \<Longrightarrow> quot10 (pg * kPresetPerPage + int s) = pg"
  by (simp add: quot10_def kPresetPerPage_def)

lemma slot_in: "pp_inv p \<Longrightarrow> s < 10 \<Longrightarrow> in_slots (slot_index s p) \<and> quot10 (slot_index s p) = pp_page p"
  using quot10_slot [of s "pp_page p"]
  by (auto simp: slot_index_def in_slots_def pp_inv_def pp_base_def kPresetPerPage_def)

lemma onSlotClicked_inv:
  assumes "pp_inv p" "s < 10"
  shows "pp_inv (onSlotClicked (slot_index s p) p)"
proof -
  let ?i = "slot_index s p"
  have "pp_base (p\<lparr>pp_selected := (if pp_selected p = ?i then - 1 else ?i)\<rparr>)"
    using assms(1) slot_in [OF assms] by (auto simp: pp_inv_def pp_base_def)
  then show ?thesis using assms(1) updateActions_inv by (simp add: onSlotClicked_def)
qed

lemma commitRename_ok:
  assumes "pp_inv p" "in_slots i"
  shows "pp_ok (commitRename i text p)"
proof -
  let ?p = "p\<lparr>pp_editable := (pp_editable p)[nat (rem10 i) := False]\<rparr>"
  let ?name = "filter (\<lambda>c. c \<noteq> CHR ''&'' \<and> c \<noteq> CHR ''='') text"
  let ?p1 = "show_name i ?name (info_insert i ''name'' (JStr ?name) ?p)"
  let ?p2 = "if i = pp_selected ?p1 then updateActions ?p1 else ?p1"
  have p2: "pp_inv ?p2" using assms(1) updateActions_inv pp_inv_base by simp
  have "list_all pp_event_ok [PpSend (if pp_traceMode ?p then PtraceSetName i ?name else PtzPresetSetName i ?name)]"
    if "?name \<noteq> []" "length ?name \<le> 18"
    using that assms(2) by (simp add: name_ok_def list_all_iff)
  then have "pp_ok (then_do (?p2, [PpSend (if pp_traceMode ?p then PtraceSetName i ?name else PtzPresetSetName i ?name)]) (loadSlot i))"
    if "?name \<noteq> []" "length ?name \<le> 18"
    using that p2 assms(2) by (intro pp_ok_then loadSlot_ok pp_okI) (auto simp: in_slots_def)
  then show ?thesis
    using assms(1) unfolding commitRename_def Let_def by (auto simp: kPresetNameMax_def simp del: then_do_simps)
qed

lemma fire_ok: "pp_inv p \<Longrightarrow> timer_ok t \<Longrightarrow> pp_ok (fire t p)"
  using selected_bound
  by (cases t) (auto intro!: pp_ok_then refreshTraceState_ok loadSlot_ok simp: in_slots_def simp del: then_do_simps)

lemma pp_step_ok:
  assumes "pp_inv p"
  shows "pp_ok (pp_step i p)"
proof (cases i)
  case (PpTimer k)
  have "timer_ok (pp_timers p ! k)" if "k < length (pp_timers p)"
    using assms that by (auto simp: pp_inv_def pp_base_def list_all_iff)
  with PpTimer assms show ?thesis by (simp add: fire_ok drop_timer_inv)
next
  case (PpClient c)
  with assms show ?thesis by (auto simp: pp_setClient_def pp_inv_def pp_base_def intro!: refresh_panel_ok)
qed (use assms clicked_ok slot_in [OF assms] in
    \<open>auto simp: beginRename_def intro!: speed_ok showPage_ok setTraceMode_ok onSlotClicked_inv commitRename_ok pp_reply_ok
       refresh_panel_ok simp: pp_inv_base\<close>)

interpretation pp: trace_system pp_step pp_inv
  by unfold_locales (use pp_step_ok in \<open>simp add: pp_ok_def\<close>)

lemma pp_new_inv: "pp_inv pp_new"
proof -
  have "pp_ok (showPage 0 p)" if "pp_base p" for p
    using that by (intro showPage_ok) simp
  then show ?thesis unfolding pp_new_def pp_ok_def by (simp add: pp_base_def)
qed

text \<open>
  C20. Nothing but slots is touched: in every run of the panel, with the clicks, replies, timers and changes of the camera in any
  order, each request that changes the camera names one of its hundred slots, a new slot name has 1 to 18
  characters and none that breaks the query, and the only access outside the ten slots on the screen is
  the one for the slot -1.
\<close>

theorem preset_requests_in_range:
  "list_all pp_event_ok (snd (run_trace pp_step inputs pp_new))"
proof -
  have "pp_event_ok e" if "e \<in> set (snd (run_trace pp_step inputs pp_new))" for e
    using pp.run_events [OF pp_new_inv _ that, of pp_event_ok] pp_step_ok by (auto simp: pp_ok_def list_all_iff)
  then show ?thesis by (simp add: list_all_iff)
qed

text \<open>
  C36. Stopping a recording that was started elsewhere leaves the slots: with nothing selected on the first page
  of the traces, the click on the stop button, the end of its timer and whatever the camera answers to the
  request for "slot -1" write to an element before the first of the ten slots.
\<close>

theorem preset_stop_without_selection:
  assumes "pp_traceMode p" "pp_client p" "pp_connected p" "pp_page p = 0" "pp_selected p = - 1"
    and "traceStateFromInt (pp_traceState p) = TraceRecording" "snd (bt_primary (pp_buttons p))"
  shows "PpBadSlot (- 1) \<in> set (snd (run_trace pp_step
    [PpPrimary, PpTimer (length (pp_timers p)), PpReply (Suc (pp_next p)) (AnInfo info)] p))"
  using assms
  by (simp add: primary_clicked_def add_timer_def refreshTraceState_def loadSlot_def ask_def pp_reply_def
      applySlotInfo_def quot10_def rem10_def bad_slot_def kPresetPerPage_def then_do_def)

definition recording_elsewhere :: "pp_input list" where
  "recording_elsewhere = [PpClient True, PpConnected True, PpFamily True, PpReply 12 (AnState 1)]"

definition online :: "panel \<Rightarrow> bool" where
  "online p \<longleftrightarrow> pp_client p \<and> pp_connected p"

lemma load_slots_fields [simp]:
  "pp_client (fst (load_slots is p)) = pp_client p" "pp_connected (fst (load_slots is p)) = pp_connected p"
  "pp_traceMode (fst (load_slots is p)) = pp_traceMode p" "pp_traceState (fst (load_slots is p)) = pp_traceState p"
  "pp_page (fst (load_slots is p)) = pp_page p" "pp_selected (fst (load_slots is p)) = pp_selected p"
  "pp_timers (fst (load_slots is p)) = pp_timers p" "pp_names (fst (load_slots is p)) = pp_names p"
  "pp_info (fst (load_slots is p)) = pp_info p"
  "pp_next (fst (load_slots is p)) = pp_next p + (if online p then length is else 0)"
  by (induction "is" arbitrary: p) (auto simp: loadSlot_def ask_def online_def)

lemma controls_fields [simp]:
  "pp_client (updateSpeedControls (updateActions (updateSelection p))) = pp_client p"
  "pp_connected (updateSpeedControls (updateActions (updateSelection p))) = pp_connected p"
  "pp_traceMode (updateSpeedControls (updateActions (updateSelection p))) = pp_traceMode p"
  "pp_traceState (updateSpeedControls (updateActions (updateSelection p))) = pp_traceState p"
  "pp_page (updateSpeedControls (updateActions (updateSelection p))) = pp_page p"
  "pp_selected (updateSpeedControls (updateActions (updateSelection p))) = pp_selected p"
  "pp_timers (updateSpeedControls (updateActions (updateSelection p))) = pp_timers p"
  "pp_names (updateSpeedControls (updateActions (updateSelection p))) = pp_names p"
  "pp_info (updateSpeedControls (updateActions (updateSelection p))) = pp_info p"
  "pp_next (updateSpeedControls (updateActions (updateSelection p))) = pp_next p"
  by (simp_all add: updateSpeedControls_def updateActions_def updateSelection_def fill_speeds_def Let_def)

lemma showPage_fields:
  assumes "0 \<le> pg" "pg < 10"
  shows "pp_client (fst (showPage pg p)) = pp_client p" "pp_connected (fst (showPage pg p)) = pp_connected p"
    "pp_traceMode (fst (showPage pg p)) = pp_traceMode p" "pp_traceState (fst (showPage pg p)) = pp_traceState p"
    "pp_page (fst (showPage pg p)) = pg" "pp_selected (fst (showPage pg p)) = - 1"
    "pp_timers (fst (showPage pg p)) = pp_timers p" "pp_info (fst (showPage pg p)) = pp_info p"
    "pp_names (fst (showPage pg p)) = map (\<lambda>s. line_text (defaultName p (pg * kPresetPerPage + s))) [0..9]"
    "pp_next (fst (showPage pg p)) = pp_next p + (if online p then 10 else 0)"
  using assms by (simp_all add: showPage_def kPresetPages_def online_def del: upto_rec_numeral)

lemma new_fields:
  "pp_client pp_new = False" "pp_traceMode pp_new = False" "pp_page pp_new = 0" "pp_timers pp_new = []" "pp_next pp_new = 0"
  unfolding pp_new_def by (simp_all add: showPage_fields online_def)

lemma recording_elsewhere_run:
  "\<exists>p. fst (run_trace pp_step recording_elsewhere pp_new) = p \<and> pp_traceMode p \<and> pp_client p \<and> pp_connected p \<and> pp_page p = 0
     \<and> pp_selected p = - 1 \<and> traceStateFromInt (pp_traceState p) = TraceRecording \<and> snd (bt_primary (pp_buttons p))
     \<and> pp_timers p = [] \<and> pp_next p = 13"
  by (simp add: recording_elsewhere_def run_trace_Cons_eq pp_setClient_def refresh_panel_def refreshTraceState_def read_maxima_def
      ask_def setTraceMode_def pp_reply_def onTraceState_def updateActions_def trace_buttons_def traceStateFromInt_def
      showPage_fields new_fields online_def Let_def del: run_trace.simps(2))

theorem preset_stop_without_selection_witness:
  "PpBadSlot (- 1) \<in> set (snd (run_trace pp_step [PpPrimary, PpTimer 0, PpReply 14 (AnInfo [])]
     (fst (run_trace pp_step recording_elsewhere pp_new))))"
proof -
  obtain p where p: "fst (run_trace pp_step recording_elsewhere pp_new) = p" "pp_traceMode p" "pp_client p" "pp_connected p"
      "pp_page p = 0" "pp_selected p = - 1" "traceStateFromInt (pp_traceState p) = TraceRecording"
      "snd (bt_primary (pp_buttons p))" "pp_timers p = []" "pp_next p = 13"
    using recording_elsewhere_run by blast
  show ?thesis unfolding p(1) using preset_stop_without_selection [OF p(2-8), of "[]"] p(9,10) by simp
qed

subsection \<open>Late replies\<close>

text \<open>
  A camera whose slots do not change answers by \<open>cam\<close>, for a family and a slot. In \<open>honest\<close> the reply
  to a request for the document of a slot is that of the slot asked for; it may arrive at any time.
\<close>

fun honest :: "(bool \<Rightarrow> int \<Rightarrow> jobject) \<Rightarrow> pp_input \<Rightarrow> panel \<Rightarrow> panel \<times> pp_event list" where
  "honest cam (PpReply n a) p =
     pp_reply n (case map_of (pp_pending p) n of Some (CbInfo trace i) \<Rightarrow> AnInfo (cam trace i) | _ \<Rightarrow> a) p"
| "honest cam i p = pp_step i p"

fun not_typing :: "pp_input \<Rightarrow> bool" where
  "not_typing (PpType s text) = False"
| "not_typing (PpReturn s) = False"
| "not_typing (PpLeave s) = False"
| "not_typing _ = True"

definition names_of :: "(bool \<Rightarrow> int \<Rightarrow> jobject) \<Rightarrow> panel \<Rightarrow> int \<Rightarrow> string set" where
  "names_of cam p i = {line_text (defaultName p i), line_text (info_name (cam (pp_traceMode p) i))}"

definition names_ok :: "(bool \<Rightarrow> int \<Rightarrow> jobject) \<Rightarrow> panel \<Rightarrow> bool" where
  "names_ok cam p \<longleftrightarrow> length (pp_names p) = 10 \<and> (\<forall>s < 10. pp_names p ! s \<in> names_of cam p (slot_index s p))"

text \<open>Only the family, the page and the names decide.\<close>

definition same_names :: "panel \<Rightarrow> panel \<Rightarrow> bool" where
  "same_names p q \<longleftrightarrow> pp_traceMode q = pp_traceMode p \<and> pp_page q = pp_page p \<and> pp_names q = pp_names p"

lemma names_ok_same: "same_names p q \<Longrightarrow> names_ok cam q = names_ok cam p"
  by (simp add: same_names_def names_ok_def names_of_def slot_index_def defaultName_def)

lemma same_names_trans [trans]: "same_names p q \<Longrightarrow> same_names q r \<Longrightarrow> same_names p r"
  by (simp add: same_names_def)

lemma same_controls [simp]:
  "same_names p (updateSelection p)" "same_names p (updateActions p)" "same_names p (updateSpeedControls p)"
  "same_names p (show_image i t p)" "same_names p (info_insert i k j p)" "same_names p (add_timer tm p)"
  "same_names p (fst (ask cb ev p))" "same_names p (fst (loadSlot i p))" "same_names p (fst (refreshTraceState p))"
  by (simp_all add: same_names_def updateSelection_def updateActions_def updateSpeedControls_def fill_speeds_def show_image_def
      info_insert_def add_timer_def ask_def loadSlot_def refreshTraceState_def Let_def)

lemma showPage_names:
  assumes "0 \<le> pg" "pg < 10"
  shows "names_ok cam (fst (showPage pg p))"
proof -
  have "(map (\<lambda>s. line_text (defaultName p (pg * kPresetPerPage + s))) [0..9]) ! s = line_text (defaultName p (pg * kPresetPerPage + int s))"
    if "s < 10" for s
    using that by simp
  then show ?thesis
    using assms
    by (simp add: names_ok_def names_of_def slot_index_def showPage_fields defaultName_def del: upto_rec_numeral)
qed

lemma slot_of_page:
  assumes "0 \<le> pg" "quot10 i = pg" "\<not> bad_slot i" "- 1 \<le> i"
  shows "pg * kPresetPerPage + int (nat (rem10 i)) = i" "nat (rem10 i) < 10"
  using assms by (auto simp: rem10_def quot10_def bad_slot_def kPresetPerPage_def split: if_splits)

lemma show_name_names:
  assumes "names_ok cam p" "0 \<le> pp_page p" "quot10 i = pp_page p" "\<not> bad_slot i" "- 1 \<le> i"
    and "line_text s \<in> names_of cam p i"
  shows "names_ok cam (show_name i s p)"
  using assms(1,6) slot_of_page [OF assms(2-5)]
  by (auto simp: names_ok_def names_of_def slot_index_def show_name_def defaultName_def nth_list_update)

lemma note_info_names:
  assumes "names_ok cam p" "0 \<le> pp_page p" "quot10 i = pp_page p" "\<not> bad_slot i" "- 1 \<le> i"
  shows "names_ok cam (note_info i (cam (pp_traceMode p) i) p)"
proof -
  let ?info = "cam (pp_traceMode p) i"
  let ?p1 = "show_name i (if info_name ?info = [] then defaultName p i else info_name ?info) p"
  have ok: "names_ok cam ?p1" by (rule show_name_names [OF assms]) (simp add: names_of_def)
  have "same_names ?p1 (note_info i ?info p)"
    by (simp add: note_info_def Let_def same_names_def updateActions_def updateSpeedControls_def fill_speeds_def)
  with ok show ?thesis using names_ok_same by blast
qed

lemma applySlotInfo_names:
  assumes "names_ok cam p" "pp_inv p" "- 1 \<le> i"
  shows "names_ok cam (fst (applySlotInfo i (cam (pp_traceMode p) i) p))"
proof -
  let ?info = "cam (pp_traceMode p) i"
  let ?p = "p\<lparr>pp_info := (pp_info p)(i \<mapsto> ?info)\<rparr>"
  have p: "names_ok cam ?p" "0 \<le> pp_page ?p"
    using assms by (simp_all add: names_ok_def names_of_def slot_index_def defaultName_def pp_inv_def pp_base_def)
  have "names_ok cam (note_info i ?info ?p)" if "quot10 i = pp_page p" "\<not> bad_slot i"
    using note_info_names [OF p _ that(2) assms(3)] that(1) by simp
  moreover have "names_ok cam (show_image i t q) = names_ok cam q" "names_ok cam (fst (ask cb ev (show_image i t q))) = names_ok cam q"
    for t q cb ev
    using names_ok_same [OF same_controls(4)] names_ok_same [OF same_controls(7)] by blast+
  ultimately show ?thesis using p(1) assms(1) by (simp add: applySlotInfo_def Let_def)
qed

lemma gotThumbnail_same: "same_names p (fst (gotThumbnail trace i pic p))"
  by (simp add: gotThumbnail_def Let_def same_names_def show_image_def)

lemma refresh_names: "pp_base p \<Longrightarrow> names_ok cam (fst (refresh_panel p))"
proof -
  assume "pp_base p"
  then have "names_ok cam (fst (showPage (pp_page p) q))" for q by (intro showPage_names) (simp_all add: pp_base_def)
  then show ?thesis
    by (simp add: refresh_panel_def read_maxima_def names_ok_same [OF same_controls(7)] names_ok_same [OF same_controls(9)])
qed

lemma reply_names:
  assumes "names_ok cam p" "pp_inv p"
  shows "names_ok cam (fst (honest cam (PpReply n a) p))"
proof (cases "map_of (pp_pending p) n")
  case None
  with assms show ?thesis by (simp add: pp_reply_def)
next
  case (Some cb)
  let ?p = "p\<lparr>pp_pending := filter (\<lambda>x. fst x \<noteq> n) (pp_pending p)\<rparr>"
  have ok: "cb_ok cb" using assms(2) Some by (auto simp: pp_inv_def pp_base_def list_all_iff dest!: map_of_SomeD)
  have p: "names_ok cam ?p" "pp_inv ?p"
    using assms by (auto simp: names_ok_def names_of_def slot_index_def defaultName_def pp_inv_def pp_base_def pages_ok_def list_all_iff)
  have same: "names_ok cam q = names_ok cam ?p" if "same_names ?p q" for q using names_ok_same [OF that] .
  show ?thesis
  proof (cases cb)
    case (CbInfo trace i)
    with Some ok p applySlotInfo_names [OF p, of i] show ?thesis by (auto simp: pp_reply_def)
  next
    case (CbThumb trace i)
    with Some p same [OF gotThumbnail_same] show ?thesis by (cases a) (simp_all add: pp_reply_def)
  next
    case CbTraceState
    have "same_names ?p (onTraceState st ?p)" for st
      by (simp add: onTraceState_def same_names_def updateActions_def)
    with Some CbTraceState p same show ?thesis by (cases a) (auto simp: pp_reply_def)
  next
    case CbMaxSpeed
    have "same_names ?p (updateSpeedControls (?p\<lparr>pp_maxSpeed := v\<rparr>))" for v
      by (simp add: same_names_def updateSpeedControls_def fill_speeds_def Let_def)
    with Some CbMaxSpeed p same show ?thesis by (cases a) (simp_all add: pp_reply_def)
  next
    case CbMaxTime
    have "same_names ?p (updateSpeedControls (?p\<lparr>pp_maxTime := v\<rparr>))" for v
      by (simp add: same_names_def updateSpeedControls_def fill_speeds_def Let_def)
    with Some CbMaxTime p same show ?thesis by (cases a) (simp_all add: pp_reply_def)
  qed
qed

lemma primary_names:
  assumes "names_ok cam p" "pp_inv p"
  shows "names_ok cam (fst (primary_clicked p))"
proof -
  let ?i = "pp_selected p"
  let ?p = "info_insert ?i ''name'' (JStr []) (p\<lparr>pp_thumbs := pp_thumbs p - {?i}\<rparr>)"
  have p: "names_ok cam ?p" "pp_page ?p = pp_page p"
    using assms(1) by (simp_all add: names_ok_def names_of_def slot_index_def defaultName_def info_insert_def)
  have pos: "names_ok cam (show_name ?i (defaultName ?p ?i) ?p)" if "0 \<le> ?i"
  proof (rule show_name_names [OF p(1)])
    show "0 \<le> pp_page ?p" "quot10 ?i = pp_page ?p" "- 1 \<le> ?i"
      using assms(2) that p(2) by (auto simp: pp_inv_def pp_base_def)
    show "\<not> bad_slot ?i" using rem10_bad [of ?i] that by simp
  qed (simp add: names_of_def)
  show ?thesis
    using assms(1) pos unfolding primary_clicked_def Let_def
    by (simp add: names_ok_same [OF same_controls(6)])
qed

lemma click_same:
  "same_names p (fst (secondary_clicked p))" "same_names p (fst (delete_clicked p))" "same_names p (beginRename p)"
  "same_names p (onSlotClicked i p)" "same_names p (fst (unit_changed u (p\<lparr>pp_unit := u\<rparr>)))"
  "same_names p (fst (speed_changed row (p\<lparr>pp_speed := row\<rparr>)))"
  by (simp_all add: secondary_clicked_def delete_clicked_def beginRename_def onSlotClicked_def unit_changed_def speed_changed_def
      Let_def same_names_def add_timer_def info_insert_def updateSelection_def updateActions_def updateSpeedControls_def fill_speeds_def)

lemma fire_same: "same_names p (fst (fire t p))"
proof -
  have "same_names p (fst (loadSlot i (fst (refreshTraceState p))))" for i
    using same_names_trans [OF same_controls(9) same_controls(8)] .
  then show ?thesis by (cases t) simp_all
qed

lemma names_step:
  assumes "names_ok cam p" "pp_inv p" "not_typing i"
  shows "names_ok cam (fst (honest cam i p))"
proof -
  note same = names_ok_same [THEN iffD2, OF _ assms(1)]
  have drop: "same_names p (p\<lparr>pp_timers := ts\<rparr>)" for ts by (simp add: same_names_def)
  have base: "pp_base p" using assms(2) by (rule pp_inv_base)
  show ?thesis
  proof (cases i)
    case PpPrimary with assms primary_names show ?thesis by simp
  next
    case (PpPage g) with assms(1) showPage_names show ?thesis by simp
  next
    case (PpFamily trace)
    with assms(1) showPage_names show ?thesis
      by (simp add: setTraceMode_def names_ok_same [OF same_controls(9)])
  next
    case (PpReply n a) with assms reply_names show ?thesis by blast
  next
    case (PpTimer k)
    with assms(1) same [OF same_names_trans [OF drop fire_same]] show ?thesis by simp
  next
    case (PpClient c)
    with base show ?thesis by (auto simp: pp_setClient_def pp_base_def intro: refresh_names)
  next
    case (PpConnected b)
    have "same_names p (p\<lparr>pp_connected := b\<rparr>)" by (simp add: same_names_def)
    with PpConnected assms(1) same show ?thesis by simp
  next
    case PpRefresh
    with base assms(1) show ?thesis by (simp add: refresh_names)
  qed (use assms same click_same in simp_all)
qed

interpretation hc: trace_system "guarded not_typing (honest cam)" "\<lambda>p. pp_inv p \<and> names_ok cam p" for cam
proof
  fix p i
  assume p: "pp_inv p \<and> names_ok cam p"
  have "pp_inv (fst (honest cam i p))"
    using p pp_reply_ok pp_step_ok by (cases i) (simp_all add: pp_ok_def del: pp_step.simps)
  with p names_step show "pp_inv (fst (guarded not_typing (honest cam) i p)) \<and> names_ok cam (fst (guarded not_typing (honest cam) i p))"
    by (simp add: guarded_def)
qed

text \<open>
  C17. Late replies never reach the wrong slot: while nobody types a name, and however the replies of
  the camera are delayed and mixed with clicks, page and family switches, timers and new cameras, a slot on the screen
  shows its own default name or the name the camera gave for exactly that slot of the family on the screen.
\<close>

theorem preset_names_never_mixed:
  assumes "list_all not_typing inputs" "s < 10"
  shows "let p = fst (run_trace (honest cam) inputs pp_new) in
    pp_names p ! s \<in> {line_text (defaultName p (slot_index s p)), line_text (info_name (cam (pp_traceMode p) (slot_index s p)))}"
proof -
  have "names_ok cam pp_new" unfolding pp_new_def by (rule showPage_names) simp_all
  then have "names_ok cam (fst (run_trace (honest cam) inputs pp_new))"
    using hc.run_inv [of pp_new cam inputs] pp_new_inv unfolding run_trace_guarded [OF assms(1)] by blast
  with assms(2) show ?thesis by (simp add: names_ok_def names_of_def Let_def)
qed

definition two_families :: "bool \<Rightarrow> int \<Rightarrow> jobject" where
  "two_families trace i = [(''name'', JStr (if trace then ''dolly'' else ''stage''))]"

theorem preset_names_never_mixed_witness:
  "let p = fst (run_trace (honest two_families)
     [PpClient True, PpConnected True, PpPage 0, PpFamily True, PpReply 3 (AnInfo []), PpReply 13 (AnInfo [])] pp_new) in
   pp_names p ! 1 \<in> {line_text (defaultName p (slot_index 1 p)), line_text (info_name (two_families (pp_traceMode p) (slot_index 1 p)))}"
  by (rule preset_names_never_mixed) simp_all

text \<open>
  The camera owns the transport while a trace is recorded or played: in every state the panel reaches, a
  click on a slot or on a page button then changes nothing and asks nothing.
\<close>

theorem preset_transport_locks:
  assumes "pp_traceMode (fst (run_trace pp_step inputs pp_new))"
    and "traceStateFromInt (pp_traceState (fst (run_trace pp_step inputs pp_new))) \<in> {TraceRecording, TracePlaying}"
  shows "pp_step (PpSlot s) (fst (run_trace pp_step inputs pp_new)) = (fst (run_trace pp_step inputs pp_new), [])
    \<and> pp_step (PpPage g) (fst (run_trace pp_step inputs pp_new)) = (fst (run_trace pp_step inputs pp_new), [])"
proof -
  have "pages_ok (fst (run_trace pp_step inputs pp_new))"
    using pp.run_inv [OF pp_new_inv, of inputs] by (simp add: pp_inv_def)
  with assms show ?thesis by (auto simp: pages_ok_def onSlotClicked_def)
qed

theorem preset_transport_locks_witness:
  "pp_step (PpPage 3) (fst (run_trace pp_step recording_elsewhere pp_new)) = (fst (run_trace pp_step recording_elsewhere pp_new), [])"
proof -
  have "pp_traceMode (fst (run_trace pp_step recording_elsewhere pp_new))"
    "traceStateFromInt (pp_traceState (fst (run_trace pp_step recording_elsewhere pp_new))) \<in> {TraceRecording, TracePlaying}"
    using recording_elsewhere_run by auto
  from preset_transport_locks [OF this] show ?thesis by blast
qed

end
