(* ===== verification/Ptz_Pad.thy ===== *)
theory Ptz_Pad
  imports Camera_Client
begin

text \<open>
  The joystick of the dock, \<^verbatim>\<open>class ZcPtzPad\<close> in \<^verbatim>\<open>src/ui/zc_control_dock.cpp\<close>. An input of the mouse carries the
  offset from the centre and what \<^verbatim>\<open>std::sqrt\<close> and \<^verbatim>\<open>std::atan2\<close> make of it, the distance and the angle in
  degrees; coordinates are rationals. While a button is held the pad grabs the mouse. The commands are those
  of the camera client.
\<close>

datatype joystick_mode = JmNone | JmSector | JmFreeDrag

record ptz_pad =
  pd_client :: bool
  pd_speed :: int
  pd_outer :: rat
  pd_inner :: rat
  pd_mode :: joystick_mode
  pd_dir :: int
  pd_offset :: "rat \<times> rat"

definition pad_new :: "bool \<Rightarrow> ptz_pad" where
  "pad_new client = \<lparr>pd_client = client, pd_speed = 50, pd_outer = 96, pd_inner = 44, pd_mode = JmNone, pd_dir = - 1, pd_offset = (0, 0)\<rparr>"

definition kPanDelta :: "int list" where "kPanDelta = [1, 1, 0, - 1, - 1, - 1, 0, 1]"
definition kTiltDelta :: "int list" where "kTiltDelta = [0, 1, 1, 1, 0, - 1, - 1, - 1]"

text \<open>\<^verbatim>\<open>qRound\<close> rounds halves away from zero.\<close>

definition qRound :: "rat \<Rightarrow> int" where
  "qRound d = (if d \<ge> 0 then \<lfloor>d + 1 / 2\<rfloor> else - \<lfloor>1 / 2 - d\<rfloor>)"

text \<open>The painted area is empty until the widget has a layout.\<close>

definition updateGeometry :: "rat \<Rightarrow> ptz_pad \<Rightarrow> ptz_pad" where
  "updateGeometry width p = (if width \<le> 0 then p else p\<lparr>pd_outer := width / 2 - 12, pd_inner := (width / 2 - 12) * 46 / 100\<rparr>)"

definition inCenter :: "rat \<Rightarrow> ptz_pad \<Rightarrow> bool" where
  "inCenter far p \<longleftrightarrow> far \<le> pd_inner p * 6 / 10"

text \<open>The remainder of \<^verbatim>\<open>int\<close> has the sign of the dividend.\<close>

definition directionAt :: "rat \<Rightarrow> rat \<Rightarrow> ptz_pad \<Rightarrow> int" where
  "directionAt far angle p =
     (if far < pd_inner p \<or> far > pd_outer p + 6 then - 1
      else
        (let n = qRound (angle / 45); idx = (if n < 0 then - ((- n) mod 8) else n mod 8) in
         if idx < 0 then idx + 8 else idx))"

text \<open>The knob stays in a circle around the centre.\<close>

definition knob_limit :: "ptz_pad \<Rightarrow> rat" where
  "knob_limit p = max 8 (pd_inner p * 42 / 100)"

definition knob_offset :: "rat \<times> rat \<Rightarrow> rat \<Rightarrow> ptz_pad \<Rightarrow> rat \<times> rat" where
  "knob_offset d far p =
     (if far > knob_limit p then (fst d * (knob_limit p / far), snd d * (knob_limit p / far)) else d)"

definition sendMove :: "int \<Rightarrow> int \<Rightarrow> ptz_pad \<Rightarrow> camera_cmd list" where
  "sendMove pan tilt p = (if pd_client p then [PtzMove pan tilt] else [])"

definition moveInDirection :: "int \<Rightarrow> ptz_pad \<Rightarrow> camera_cmd list" where
  "moveInDirection i p =
     (if i < 0 \<or> i > 7 then []
      else sendMove (kPanDelta ! nat i * pd_speed p) (kTiltDelta ! nat i * pd_speed p) p)"

definition unit_clamp :: "rat \<Rightarrow> rat" where
  "unit_clamp x = max (- 1) (min 1 x)"

definition moveAnalog :: "rat \<times> rat \<Rightarrow> ptz_pad \<Rightarrow> camera_cmd list" where
  "moveAnalog d p =
     sendMove (qRound (unit_clamp (fst d / pd_outer p) * of_int (pd_speed p)))
       (qRound (unit_clamp (snd d / pd_outer p) * of_int (pd_speed p))) p"

definition stopMoving :: "ptz_pad \<Rightarrow> camera_cmd list" where
  "stopMoving p = (if pd_client p then [PtzStop] else [])"

definition pad_press :: "bool \<Rightarrow> rat \<Rightarrow> rat \<Rightarrow> rat \<Rightarrow> ptz_pad \<Rightarrow> ptz_pad \<times> camera_cmd list" where
  "pad_press left width far angle p0 =
     (if \<not> left \<or> pd_mode p0 \<noteq> JmNone then (p0, [])
      else
        (let p = updateGeometry width p0; dir = directionAt far angle p in
         if inCenter far p then (p\<lparr>pd_mode := JmFreeDrag, pd_offset := (0, 0)\<rparr>, [])
         else if dir \<ge> 0 then (p\<lparr>pd_mode := JmSector, pd_dir := dir\<rparr>, moveInDirection dir p)
         else (p, [])))"

definition pad_move :: "rat \<times> rat \<Rightarrow> rat \<Rightarrow> rat \<Rightarrow> ptz_pad \<Rightarrow> ptz_pad \<times> camera_cmd list" where
  "pad_move d far angle p =
     (case pd_mode p of
        JmNone \<Rightarrow> (p, [])
      | JmSector \<Rightarrow>
          (let dir = directionAt far angle p in
           if dir \<ge> 0 \<and> dir \<noteq> pd_dir p then (p\<lparr>pd_dir := dir\<rparr>, moveInDirection dir p)
           else if dir < 0 \<and> pd_dir p \<ge> 0 then (p\<lparr>pd_dir := - 1\<rparr>, stopMoving p)
           else (p, []))
      | JmFreeDrag \<Rightarrow> (p\<lparr>pd_offset := knob_offset d far p\<rparr>, moveAnalog (knob_offset d far p) p))"

definition pad_release :: "bool \<Rightarrow> ptz_pad \<Rightarrow> ptz_pad \<times> camera_cmd list" where
  "pad_release left p =
     (if pd_mode p = JmNone \<or> \<not> left then (p, [])
      else (p\<lparr>pd_mode := JmNone, pd_dir := - 1, pd_offset := (0, 0)\<rparr>, stopMoving p))"

text \<open>The slider goes from 1 to 100.\<close>

datatype pad_input =
    PadPress bool rat rat rat | PadMove "rat \<times> rat" rat rat | PadRelease bool | PadSpeed int | PadStop | PadHome

fun pad_step :: "pad_input \<Rightarrow> ptz_pad \<Rightarrow> ptz_pad \<times> camera_cmd list" where
  "pad_step (PadPress left width far angle) p = pad_press left width far angle p"
| "pad_step (PadMove d far angle) p = pad_move d far angle p"
| "pad_step (PadRelease left) p = pad_release left p"
| "pad_step (PadSpeed v) p = (p\<lparr>pd_speed := max 1 (min 100 v)\<rparr>, [])"
| "pad_step PadStop p = (p, stopMoving p)"
| "pad_step PadHome p = (p, if pd_client p then [PtzHome] else [])"

subsection \<open>Commands\<close>

definition speed_inv :: "ptz_pad \<Rightarrow> bool" where
  "speed_inv p \<longleftrightarrow> 1 \<le> pd_speed p \<and> pd_speed p \<le> 100"

fun cmd_in_range :: "camera_cmd \<Rightarrow> bool" where
  "cmd_in_range (PtzMove pan tilt) = (\<bar>pan\<bar> \<le> 100 \<and> \<bar>tilt\<bar> \<le> 100)"
| "cmd_in_range c = (c = PtzStop \<or> c = PtzHome)"

lemma deltas: "0 \<le> i \<Longrightarrow> i \<le> 7 \<Longrightarrow> kPanDelta ! nat i \<in> {- 1, 0, 1} \<and> kTiltDelta ! nat i \<in> {- 1, 0, 1}"
proof -
  assume "0 \<le> i" "i \<le> 7"
  then have "nat i \<in> set [0..<8]" by auto
  then show ?thesis by (auto simp: kPanDelta_def kTiltDelta_def upt_rec)
qed

lemma qRound_less:
  assumes "\<bar>x\<bar> < of_int n + 1 / 2"
  shows "\<bar>qRound x\<bar> \<le> n"
proof -
  have "\<lfloor>\<bar>x\<bar> + 1 / 2\<rfloor> < n + 1" unfolding floor_less_iff using assms by simp
  moreover have "0 \<le> \<lfloor>\<bar>x\<bar> + 1 / 2\<rfloor>" by simp
  ultimately show ?thesis by (cases "0 \<le> x") (simp_all add: qRound_def add.commute)
qed

lemma qRound_bound: "\<bar>x\<bar> \<le> of_int n \<Longrightarrow> \<bar>qRound x\<bar> \<le> n"
  by (rule qRound_less) linarith

lemma clamp_bound: "\<bar>unit_clamp x * of_int s\<bar> \<le> of_int s" if "0 \<le> s"
proof -
  have "\<bar>unit_clamp x\<bar> \<le> 1" by (auto simp: unit_clamp_def abs_if max_def min_def)
  then have "\<bar>unit_clamp x\<bar> * \<bar>of_int s\<bar> \<le> 1 * \<bar>of_int s\<bar>" by (rule mult_right_mono) simp
  with that show ?thesis by (simp add: abs_mult)
qed

lemma moves_in_range:
  assumes "speed_inv p"
  shows "list_all cmd_in_range (moveInDirection i p)" "list_all cmd_in_range (moveAnalog d p)"
proof -
  have s: "0 \<le> pd_speed p" "pd_speed p \<le> 100" using assms by (simp_all add: speed_inv_def)
  have "\<bar>k * pd_speed p\<bar> \<le> 100" if "k \<in> {- 1, 0, 1}" for k using that s by auto
  then show "list_all cmd_in_range (moveInDirection i p)"
    using deltas [of i] by (simp add: moveInDirection_def sendMove_def)
  have "\<bar>qRound (unit_clamp x * of_int (pd_speed p))\<bar> \<le> 100" for x
    using qRound_bound [OF clamp_bound [OF s(1)], of x] s(2) by linarith
  then show "list_all cmd_in_range (moveAnalog d p)" by (simp add: moveAnalog_def sendMove_def)
qed

lemma stop_in_range: "list_all cmd_in_range (stopMoving p)"
  by (simp add: stopMoving_def)

lemma geometry_speed [simp]: "speed_inv (updateGeometry w p) = speed_inv p" "pd_mode (updateGeometry w p) = pd_mode p"
  "pd_client (updateGeometry w p) = pd_client p" "pd_dir (updateGeometry w p) = pd_dir p"
  by (simp_all add: updateGeometry_def speed_inv_def)

lemma fields_speed [simp]:
  "speed_inv (p\<lparr>pd_mode := m\<rparr>) = speed_inv p" "speed_inv (p\<lparr>pd_dir := i\<rparr>) = speed_inv p"
  "speed_inv (p\<lparr>pd_offset := d\<rparr>) = speed_inv p"
  by (simp_all add: speed_inv_def)

lemma pad_step_speed: "speed_inv p \<Longrightarrow> speed_inv (fst (pad_step i p)) \<and> list_all cmd_in_range (snd (pad_step i p))"
  by (cases i)
    (auto simp: pad_press_def pad_move_def pad_release_def Let_def moves_in_range stop_in_range split: joystick_mode.splits,
      auto simp: speed_inv_def)

interpretation pad: trace_system pad_step speed_inv
  by unfold_locales (simp add: pad_step_speed)

text \<open>
  The speeds stay in range: in every run of mouse events, slider moves and buttons, every move asks for pan and
  tilt speeds between -100 and 100, in every direction of the ring and at every offset of the knob.
\<close>

theorem ptz_speeds_in_range:
  "list_all cmd_in_range (snd (run_trace pad_step inputs (pad_new client)))"
proof -
  have inv: "speed_inv (pad_new client)" by (simp add: speed_inv_def pad_new_def)
  have "cmd_in_range e" if "e \<in> set (snd (run_trace pad_step inputs (pad_new client)))" for e
    using pad.run_events [OF inv _ that, of cmd_in_range] pad_step_speed by (auto simp: list_all_iff)
  then show ?thesis by (simp add: list_all_iff)
qed

text \<open>The knob cannot leave a circle of about a fifth of the pad, so a drag never asks for more than a fifth of the
  speed on the slider.\<close>

lemma knob_offset_limited:
  assumes "\<bar>fst d\<bar> \<le> far" "\<bar>snd d\<bar> \<le> far"
  shows "\<bar>fst (knob_offset d far p)\<bar> \<le> knob_limit p \<and> \<bar>snd (knob_offset d far p)\<bar> \<le> knob_limit p"
proof (cases "far > knob_limit p")
  case True
  have lim: "0 < knob_limit p" by (simp add: knob_limit_def)
  have "\<bar>x * (knob_limit p / far)\<bar> \<le> knob_limit p" if "\<bar>x\<bar> \<le> far" for x
  proof -
    have "\<bar>x\<bar> * knob_limit p \<le> far * knob_limit p" using that lim by (intro mult_right_mono) simp_all
    then show ?thesis using lim True by (simp add: abs_mult pos_divide_le_eq mult.commute)
  qed
  with True assms show ?thesis by (simp add: knob_offset_def)
next
  case False
  with assms show ?thesis by (simp add: knob_offset_def)
qed

lemma ptz_knob_slow:
  assumes "\<bar>fst d\<bar> \<le> far" "\<bar>snd d\<bar> \<le> far" "pd_outer p = 98" "pd_inner p = 98 * 46 / 100" "pd_speed p = 100"
  shows "moveAnalog (knob_offset d far p) p = []
    \<or> (\<exists>pan tilt. moveAnalog (knob_offset d far p) p = [PtzMove pan tilt] \<and> \<bar>pan\<bar> \<le> 19 \<and> \<bar>tilt\<bar> \<le> 19)"
proof -
  have lim: "knob_limit p < 19" by (simp add: knob_limit_def assms(4))
  have "\<bar>qRound (unit_clamp (x / 98) * 100)\<bar> \<le> 19" if "\<bar>x\<bar> \<le> knob_limit p" for x
  proof -
    have x: "- 19 \<le> x" "x \<le> 19" using that lim by linarith+
    then have "unit_clamp (x / 98) = x / 98" by (simp add: unit_clamp_def)
    moreover have "\<bar>x / 98 * 100\<bar> < of_int 19 + 1 / 2" using x by (simp add: abs_if)
    ultimately show ?thesis using qRound_less by simp
  qed
  with knob_offset_limited [OF assms(1,2), of p] show ?thesis
    by (simp add: moveAnalog_def sendMove_def assms(3,5))
qed

subsection \<open>Stopping\<close>

text \<open>Whether the head moves after some commands: a move starts it, only stop ends it.\<close>

fun moving :: "bool \<Rightarrow> camera_cmd list \<Rightarrow> bool" where
  "moving m [] = m"
| "moving m (PtzMove pan tilt # cs) = moving True cs"
| "moving m (PtzStop # cs) = moving False cs"
| "moving m (_ # cs) = moving m cs"

lemma moving_append: "moving m (cs @ ds) = moving (moving m cs) ds"
  by (induction m cs rule: moving.induct) simp_all

lemma moving_stop: "pd_client p \<Longrightarrow> moving m (stopMoving p) = False"
  by (simp add: stopMoving_def)

definition may_move :: "ptz_pad \<Rightarrow> bool" where
  "may_move p \<longleftrightarrow> pd_mode p = JmFreeDrag \<or> pd_mode p = JmSector \<and> pd_dir p \<ge> 0"

lemma pad_step_moving:
  "pd_client p \<Longrightarrow> (m \<longrightarrow> may_move p) \<Longrightarrow>
     pd_client (fst (pad_step i p)) \<and> (moving m (snd (pad_step i p)) \<longrightarrow> may_move (fst (pad_step i p)))"
  by (cases i)
    (auto simp: pad_press_def pad_move_def pad_release_def Let_def moving_stop may_move_def split: joystick_mode.splits)

lemma pad_run_moving:
  "pd_client p \<Longrightarrow> (m \<longrightarrow> may_move p) \<Longrightarrow>
     moving m (snd (run_trace pad_step inputs p)) \<longrightarrow> may_move (fst (run_trace pad_step inputs p))"
proof (induction inputs arbitrary: p m)
  case (Cons i inputs)
  from pad_step_moving [OF Cons.prems, of i]
  have "moving (moving m (snd (pad_step i p))) (snd (run_trace pad_step inputs (fst (pad_step i p))))
      \<longrightarrow> may_move (fst (run_trace pad_step inputs (fst (pad_step i p))))"
    using Cons.IH by blast
  then show ?case by (simp add: run_trace_Cons_eq moving_append del: run_trace.simps(2))
qed simp

text \<open>
  C25. The head never keeps moving: in every run of mouse events and buttons with a camera connected, the last motion
  command is a stop unless the left button is held on the knob or on a sector of the ring; so a release, and
  leaving the ring, always stop the head.
\<close>

theorem ptz_released_stops:
  "moving False (snd (run_trace pad_step inputs (pad_new True))) \<longrightarrow> may_move (fst (run_trace pad_step inputs (pad_new True)))"
  by (rule pad_run_moving) (simp_all add: pad_new_def)

theorem ptz_released_stops_witness:
  "may_move (fst (run_trace pad_step [PadPress True 220 70 90, PadMove (0, 0) 60 135] (pad_new True)))"
proof -
  have "moving False (snd (run_trace pad_step [PadPress True 220 70 90, PadMove (0, 0) 60 135] (pad_new True)))"
    by (simp add: pad_press_def pad_move_def pad_new_def updateGeometry_def moveInDirection_def sendMove_def inCenter_def
        directionAt_def qRound_def Let_def)
  with ptz_released_stops show ?thesis by blast
qed

end
