(* ===== verification/Settings_Panel.thy ===== *)
theory Settings_Panel
  imports Camera_Client Resources
begin

text \<open>
  The settings tab of the dock, \<^verbatim>\<open>class ZcSettingsPanel\<close> in \<^verbatim>\<open>src/ui/zc_control_dock.cpp\<close>: the stream bar with the
  discovery of the stream index, the list of groups, and the rows of the group on the screen. The
  record \<open>settings_panel\<close> holds the members and what the widgets show. The engine of the client is an
  argument where rows are built. A callback names the client it was made for; its reply may arrive after
  the panel has another client, which is more than the program allows. Repaints block the signals of the
  controls, so only an input of the operator writes.
\<close>

subsection \<open>Choice boxes and sliders\<close>

record choice_box =
  cb_items :: "string list"
  cb_current :: string
  cb_enabled :: bool

definition box_empty :: choice_box where
  "box_empty = \<lparr>cb_items = [], cb_current = [], cb_enabled = True\<rparr>"

fun json_entry :: "json \<Rightarrow> string" where
  "json_entry (JStr s) = s"
| "json_entry v = number (jtoInt 0 v)"

definition jsonStringList :: "json \<Rightarrow> string list" where
  "jsonStringList v = map json_entry (jtoArray v)"

text \<open>Filling an empty box selects its first item; \<^verbatim>\<open>setCurrentText\<close> selects an item that is there.\<close>

definition select_text :: "string \<Rightarrow> string list \<Rightarrow> string" where
  "select_text s items = (if s \<in> set items then s else if items = [] then [] else hd items)"

definition fillChoice :: "string list \<Rightarrow> string \<Rightarrow> bool \<Rightarrow> choice_box" where
  "fillChoice choices current readOnly =
     (if choices = []
      then (let items = (if current = [] then [] else [current]) in
            \<lparr>cb_items = items, cb_current = select_text [] items, cb_enabled = False\<rparr>)
      else (let items = (if current \<noteq> [] \<and> current \<notin> set choices then current # choices else choices) in
            \<lparr>cb_items = items, cb_current = select_text current items, cb_enabled = (\<not> readOnly)\<rparr>))"

record range_slider =
  sl_min :: int
  sl_max :: int
  sl_value :: int
  sl_enabled :: bool

definition set_slider :: "int \<Rightarrow> int \<Rightarrow> int \<Rightarrow> bool \<Rightarrow> range_slider" where
  "set_slider lo hi v enabled =
     (let hi1 = max lo hi in \<lparr>sl_min = lo, sl_max = hi1, sl_value = max lo (min hi1 v), sl_enabled = enabled\<rparr>)"

subsection \<open>The stream bar\<close>

datatype stream_info = InfoReading | InfoNoCamera | InfoLine "string list"

record stream_bar =
  sb_enabled :: bool
  sb_bitrate :: range_slider
  sb_gop :: range_slider
  sb_codec :: choice_box
  sb_res :: choice_box
  sb_fps :: choice_box
  sb_info :: stream_info

datatype se_cb = SbDiscover nat | SbRead nat string | SbWrite nat string

datatype se_event =
    SeQuery nat string | SeWriteStream nat string url_query_items | SeReadGroup string
  | SeWriteSetting string string | SeNull

datatype row_control = RowChoice "string list" string | RowRange range_slider string | RowText string

datatype rows_pane =
    PaneSelectGroup | PaneSelectCamera | PaneNotConnected | PaneNoSettings | PaneRows "(string \<times> row_control) list"

record settings_panel =
  se_client :: "nat option"
  se_connected :: bool
  se_ptz :: bool
  se_clients :: nat
  se_index :: string
  se_doc :: jobject
  se_bar :: stream_bar
  se_groups :: "string list"
  se_catalog :: string
  se_pane :: rows_pane
  se_next :: nat
  se_pending :: "(nat \<times> se_cb) list"

definition bar_off :: "bool \<Rightarrow> stream_bar \<Rightarrow> stream_bar" where
  "bar_off online b =
     b\<lparr>sb_enabled := False, sb_bitrate := set_slider 0 0 0 (sl_enabled (sb_bitrate b)),
       sb_gop := set_slider 0 0 0 (sl_enabled (sb_gop b)),
       sb_codec := (sb_codec b)\<lparr>cb_items := [], cb_current := []\<rparr>, sb_res := (sb_res b)\<lparr>cb_items := [], cb_current := []\<rparr>,
       sb_fps := (sb_fps b)\<lparr>cb_items := [], cb_current := []\<rparr>, sb_info := (if online then InfoReading else InfoNoCamera)\<rparr>"

definition bar_of :: "string \<Rightarrow> jobject \<Rightarrow> stream_bar" where
  "bar_of index doc =
     (let bitrate = jtoInt 0 (jfield doc ''bitrate''); gop = jtoInt 0 (jfield doc ''gop_n'');
          ro = (\<lambda>k. jtoBool False (jfield doc k)) in
      \<lparr>sb_enabled = True,
       sb_bitrate = set_slider 0 (max (jtoInt 0 (jfield doc ''maxBitrate'')) bitrate) bitrate (\<not> ro ''bitrateRo''),
       sb_gop = set_slider 1 (max (jtoInt 0 (jfield doc ''maxGop'')) gop) gop (\<not> ro ''gopRo''),
       sb_codec = fillChoice (jsonStringList (jfield doc ''videoEncoderList'')) (jtoString (jfield doc ''encoderType'')) (ro ''encoderRo''),
       sb_res = fillChoice (jsonStringList (jfield doc ''resolutionList''))
                  (number (jtoInt 0 (jfield doc ''width'')) @ ''x'' @ number (jtoInt 0 (jfield doc ''height''))) (ro ''resolutionRo''),
       sb_fps = fillChoice (jsonStringList (jfield doc ''fpsList'')) (number (jtoInt 0 (jfield doc ''fps''))) (ro ''fpsRo''),
       sb_info = InfoLine (index # filter (\<lambda>s. s \<noteq> []) [jtoString (jfield doc ''bitwidth''), jtoString (jfield doc ''status'')])\<rparr>)"

definition se_online :: "settings_panel \<Rightarrow> bool" where
  "se_online p \<longleftrightarrow> se_client p \<noteq> None \<and> se_connected p"

definition updateStreamBar :: "settings_panel \<Rightarrow> settings_panel" where
  "updateStreamBar p =
     p\<lparr>se_bar := (if se_doc p = [] then bar_off (se_online p) (se_bar p) else bar_of (se_index p) (se_doc p))\<rparr>"

definition se_ask :: "se_cb \<Rightarrow> se_event \<Rightarrow> settings_panel \<Rightarrow> settings_panel \<times> se_event list" where
  "se_ask cb e p = (p\<lparr>se_next := Suc (se_next p), se_pending := se_pending p @ [(se_next p, cb)]\<rparr>, [e])"

definition loadStream :: "settings_panel \<Rightarrow> settings_panel \<times> se_event list" where
  "loadStream p =
     (case se_client p of
        None \<Rightarrow> (p, [])
      | Some c \<Rightarrow>
          if \<not> se_connected p then (p, [])
          else if se_index p = [] then se_ask (SbDiscover c) (SeQuery c kAppStreamIndex) p
          else se_ask (SbRead c (se_index p)) (SeQuery c (se_index p)) p)"

definition writeStreamParams :: "url_query_items \<Rightarrow> settings_panel \<Rightarrow> settings_panel \<times> se_event list" where
  "writeStreamParams params p =
     (case se_client p of
        None \<Rightarrow> (p, [])
      | Some c \<Rightarrow>
          if se_index p = [] then (p, [])
          else se_ask (SbWrite c (se_index p)) (SeWriteStream c (se_index p) params) p)"

definition show_document :: "jobject \<Rightarrow> settings_panel \<Rightarrow> settings_panel" where
  "show_document doc p = updateStreamBar (p\<lparr>se_doc := doc\<rparr>)"

text \<open>The replies: of the discovery, and of a read or a write, which repaint the same way.\<close>

fun stream_answer :: "se_cb \<Rightarrow> jobject \<Rightarrow> settings_panel \<Rightarrow> settings_panel \<times> se_event list" where
  "stream_answer (SbDiscover c) doc p =
     (if se_client p \<noteq> Some c then (p, [])
      else if isStreamDocument doc then (show_document doc (p\<lparr>se_index := kAppStreamIndex\<rparr>), [])
      else loadStream (p\<lparr>se_index := kLegacyStreamIndex\<rparr>))"
| "stream_answer (SbRead c index) doc p =
     (if se_client p \<noteq> Some c \<or> index \<noteq> se_index p \<or> \<not> isStreamDocument doc then (p, [])
      else (show_document doc p, []))"
| "stream_answer (SbWrite c index) doc p =
     (if se_client p \<noteq> Some c \<or> index \<noteq> se_index p \<or> \<not> isStreamDocument doc then (p, [])
      else (show_document doc p, []))"

definition se_reply :: "nat \<Rightarrow> jobject \<Rightarrow> settings_panel \<Rightarrow> settings_panel \<times> se_event list" where
  "se_reply k doc p =
     (case map_of (se_pending p) k of
        None \<Rightarrow> (p, [])
      | Some cb \<Rightarrow> stream_answer cb doc (p\<lparr>se_pending := filter (\<lambda>(j, _). j \<noteq> k) (se_pending p)\<rparr>))"

subsection \<open>Groups and rows\<close>

definition offered_groups :: "bool \<Rightarrow> string list" where
  "offered_groups ptz = map cat_id (filter (\<lambda>c. \<not> (catalogRequiresPtz (cat_id c) \<and> \<not> ptz)) catalogs)"

definition populateGroups :: "settings_panel \<Rightarrow> settings_panel" where
  "populateGroups p =
     (let groups = offered_groups (se_client p \<noteq> None \<and> se_ptz p) in
      p\<lparr>se_groups := groups, se_catalog := select_text (se_catalog p) groups\<rparr>)"

text \<open>The casts to \<^verbatim>\<open>int\<close> truncate; \<^verbatim>\<open>toInt\<close> answers 0 for text that is no number.\<close>

definition truncate_rat :: "rat \<Rightarrow> int" where
  "truncate_rat x = (if 0 \<le> x then \<lfloor>x\<rfloor> else - \<lfloor>- x\<rfloor>)"

definition control_of :: "setting_value \<Rightarrow> row_control" where
  "control_of d =
     (if sv_type d = 1 \<and> sv_choices d \<noteq> [] then RowChoice (sv_choices d) (select_text (sv_value d) (sv_choices d))
      else if sv_type d = 2 \<and> sv_max d > sv_min d \<and> sv_step d > 0 \<and> sv_step d = of_int \<lfloor>sv_step d\<rfloor>
      then RowRange (set_slider (truncate_rat (sv_min d)) (truncate_rat (sv_max d))
             (case to_int (sv_value d) of None \<Rightarrow> 0 | Some v \<Rightarrow> v) True) (sv_value d)
      else RowText (sv_value d))"

definition row_of :: "engine \<Rightarrow> string \<Rightarrow> (string \<times> row_control) option" where
  "row_of e key =
     (case en_definition key e of
        None \<Rightarrow> None
      | Some d \<Rightarrow> if \<not> sv_supported d \<or> sv_readOnly d then None else Some (key, control_of d))"

definition buildRows :: "engine \<Rightarrow> string \<Rightarrow> settings_panel \<Rightarrow> settings_panel" where
  "buildRows e catalog p =
     p\<lparr>se_pane :=
        (if catalog = [] then PaneSelectGroup
         else if se_client p = None then PaneSelectCamera
         else if \<not> se_connected p then PaneNotConnected
         else if groupKeys catalog e = [] then PaneNoSettings
         else PaneRows (List.map_filter (row_of e) (groupKeys catalog e)))\<rparr>"

definition readGroup_event :: "settings_panel \<Rightarrow> se_event list" where
  "readGroup_event p = (if se_client p = None \<or> se_catalog p = [] then [] else [SeReadGroup (se_catalog p)])"

text \<open>A new client is not connected and has not reported its model.\<close>

definition se_setClient :: "engine \<Rightarrow> bool \<Rightarrow> settings_panel \<Rightarrow> settings_panel" where
  "se_setClient e new p =
     (let p1 = updateStreamBar (p\<lparr>se_client := (if new then Some (se_clients p) else None), se_clients := Suc (se_clients p),
                 se_connected := False, se_ptz := False, se_index := [], se_doc := []\<rparr>);
          p2 = populateGroups p1 in
      buildRows e (se_catalog p2) p2)"

text \<open>The handler of \<^verbatim>\<open>cameraInfoChanged\<close>.\<close>

definition camera_info_changed :: "engine \<Rightarrow> bool \<Rightarrow> settings_panel \<Rightarrow> settings_panel \<times> se_event list" where
  "camera_info_changed e ptz p =
     (if se_client p = None then (p, [])
      else
        (let p1 = populateGroups (p\<lparr>se_ptz := ptz\<rparr>) in
         then_do (loadStream (buildRows e (se_catalog p1) p1)) (\<lambda>q. (q, readGroup_event q))))"

definition refreshGroup :: "settings_panel \<Rightarrow> settings_panel \<times> se_event list" where
  "refreshGroup p =
     (if se_client p = None then (p, []) else then_do (loadStream p) (\<lambda>q. (q, readGroup_event q)))"

definition onGroupSelected :: "engine \<Rightarrow> string \<Rightarrow> settings_panel \<Rightarrow> settings_panel \<times> se_event list" where
  "onGroupSelected e catalog p =
     (if catalog = [] then (p, [])
      else
        (let p1 = buildRows e catalog (p\<lparr>se_catalog := catalog\<rparr>) in
         (p1, if se_client p1 = None then [] else [SeReadGroup catalog])))"

definition onGroupRefreshed :: "engine \<Rightarrow> string \<Rightarrow> settings_panel \<Rightarrow> settings_panel" where
  "onGroupRefreshed e catalog p = (if catalog = se_catalog p then buildRows e catalog p else p)"

text \<open>The list emits its signal only when the current group changes.\<close>

definition selectGroup :: "engine \<Rightarrow> string \<Rightarrow> settings_panel \<Rightarrow> settings_panel \<times> se_event list" where
  "selectGroup e catalog p =
     (if catalog \<in> set (se_groups p) \<and> catalog \<noteq> se_catalog p then onGroupSelected e catalog p else (p, []))"

subsection \<open>The operator\<close>

text \<open>The products and the results of \<^verbatim>\<open>int\<close> arithmetic wrap around at 32 bits.\<close>

definition wrap32 :: "int \<Rightarrow> int" where
  "wrap32 x = (x + 2 ^ 31) mod 2 ^ 32 - 2 ^ 31"

definition slide_to :: "int \<Rightarrow> range_slider \<Rightarrow> range_slider" where
  "slide_to v s = s\<lparr>sl_value := max (sl_min s) (min (sl_max s) v)\<rparr>"

datatype bar_control = BarBitrate int | BarGop int | BarCodec string | BarRes string | BarFps string

text \<open>A slider that was released, or a choice box where another item was selected; a control that is disabled
  takes no input.\<close>

fun bar_changed :: "bar_control \<Rightarrow> stream_bar \<Rightarrow> (stream_bar \<times> url_query_items) option" where
  "bar_changed (BarBitrate v) b =
     (if sl_enabled (sb_bitrate b)
      then Some (b\<lparr>sb_bitrate := slide_to v (sb_bitrate b)\<rparr>,
             [(''bitrate'', number (wrap32 (sl_value (slide_to v (sb_bitrate b)) * kBitrateWriteScale)))])
      else None)"
| "bar_changed (BarGop v) b =
     (if sl_enabled (sb_gop b)
      then Some (b\<lparr>sb_gop := slide_to v (sb_gop b)\<rparr>, [(''gop_n'', number (sl_value (slide_to v (sb_gop b))))])
      else None)"
| "bar_changed (BarCodec s) b =
     (if cb_enabled (sb_codec b) \<and> s \<in> set (cb_items (sb_codec b)) \<and> s \<noteq> cb_current (sb_codec b)
      then Some (b\<lparr>sb_codec := (sb_codec b)\<lparr>cb_current := s\<rparr>\<rparr>, [(''venc'', s)]) else None)"
| "bar_changed (BarRes s) b =
     (if cb_enabled (sb_res b) \<and> s \<in> set (cb_items (sb_res b)) \<and> s \<noteq> cb_current (sb_res b)
      then Some (b\<lparr>sb_res := (sb_res b)\<lparr>cb_current := s\<rparr>\<rparr>, resolutionParams s) else None)"
| "bar_changed (BarFps s) b =
     (if cb_enabled (sb_fps b) \<and> s \<in> set (cb_items (sb_fps b)) \<and> s \<noteq> cb_current (sb_fps b)
      then Some (b\<lparr>sb_fps := (sb_fps b)\<lparr>cb_current := s\<rparr>\<rparr>, [(''fps'', s)]) else None)"

definition bar_input :: "bar_control \<Rightarrow> settings_panel \<Rightarrow> settings_panel \<times> se_event list" where
  "bar_input control p =
     (if \<not> sb_enabled (se_bar p) then (p, [])
      else
        (case bar_changed control (se_bar p) of
           None \<Rightarrow> (p, [])
         | Some (b, params) \<Rightarrow> writeStreamParams params (p\<lparr>se_bar := b\<rparr>)))"

text \<open>The control of a row: a selected choice, a released slider, or a finished text.\<close>

datatype row_edit = PickChoice string | ReleaseAt int | FinishText string

fun row_changed :: "row_edit \<Rightarrow> row_control \<Rightarrow> (row_control \<times> string) option" where
  "row_changed (PickChoice s) (RowChoice items current) =
     (if s \<in> set items \<and> s \<noteq> current then Some (RowChoice items s, s) else None)"
| "row_changed (ReleaseAt v) (RowRange s label) =
     (let s1 = slide_to v s; n = sl_value s1 in Some (RowRange s1 (if n = sl_value s then label else number n), number n))"
| "row_changed (FinishText s) (RowText current) = Some (RowText s, s)"
| "row_changed _ _ = None"

fun pane_rows :: "rows_pane \<Rightarrow> (string \<times> row_control) list" where
  "pane_rows (PaneRows rows) = rows"
| "pane_rows _ = []"

text \<open>The handlers of a row call the client without a test.\<close>

definition write_row :: "string \<Rightarrow> string \<Rightarrow> settings_panel \<Rightarrow> se_event list" where
  "write_row key v p = [if se_client p = None then SeNull else SeWriteSetting key v]"

definition row_input :: "nat \<Rightarrow> row_edit \<Rightarrow> settings_panel \<Rightarrow> settings_panel \<times> se_event list" where
  "row_input k edit p =
     (let rows = pane_rows (se_pane p) in
      if length rows \<le> k then (p, [])
      else
        (case row_changed edit (snd (rows ! k)) of
           None \<Rightarrow> (p, [])
         | Some (control, v) \<Rightarrow>
             (p\<lparr>se_pane := PaneRows (rows[k := (fst (rows ! k), control)])\<rparr>, write_row (fst (rows ! k)) v p)))"

datatype se_input =
    SiClient bool | SiConnection bool | SiInfo bool | SiGroup string | SiSelect string | SiRefresh
  | SiBar bar_control | SiRow nat row_edit | SiReply nat jobject

fun se_step :: "engine \<times> se_input \<Rightarrow> settings_panel \<Rightarrow> settings_panel \<times> se_event list" where
  "se_step (e, SiClient new) p = (se_setClient e new p, [])"
| "se_step (e, SiConnection b) p = (p\<lparr>se_connected := (se_client p \<noteq> None \<and> b)\<rparr>, [])"
| "se_step (e, SiInfo ptz) p = camera_info_changed e ptz p"
| "se_step (e, SiGroup catalog) p = ((if se_client p = None then p else onGroupRefreshed e catalog p), [])"
| "se_step (e, SiSelect catalog) p = selectGroup e catalog p"
| "se_step (e, SiRefresh) p = refreshGroup p"
| "se_step (e, SiBar control) p = bar_input control p"
| "se_step (e, SiRow k edit) p = row_input k edit p"
| "se_step (e, SiReply k doc) p = se_reply k doc p"

text \<open>After the constructor the first group is selected, with the signals of the list blocked, and the
  pane has no rows and no hint.\<close>

definition slider_new :: range_slider where
  "slider_new = \<lparr>sl_min = 0, sl_max = 99, sl_value = 0, sl_enabled = True\<rparr>"

definition settings_new :: settings_panel where
  "settings_new =
     populateGroups (updateStreamBar
       \<lparr>se_client = None, se_connected = False, se_ptz = False, se_clients = 0, se_index = [], se_doc = [],
        se_bar = \<lparr>sb_enabled = True, sb_bitrate = slider_new, sb_gop = slider_new, sb_codec = box_empty, sb_res = box_empty,
          sb_fps = box_empty, sb_info = InfoNoCamera\<rparr>,
        se_groups = [], se_catalog = [], se_pane = PaneRows [], se_next = 0, se_pending = []\<rparr>)"

lemma settings_pane_blank: "se_catalog settings_new = ''exposure'' \<and> se_pane settings_new = PaneRows []"
  by (simp add: settings_new_def populateGroups_def updateStreamBar_def offered_groups_def select_text_def catalogs_def
      makeCatalogs_def catalogRequiresPtz_def Let_def)

subsection \<open>Choice boxes\<close>

text \<open>
  A choice box never misrepresents the camera: a current value that is not empty is shown, also when it is
  not in the list of the camera or there is no list; every choice of the camera stays selectable, and only a
  list that is not read-only makes the box selectable.
\<close>

theorem choice_box_shows_current:
  assumes "current \<noteq> []"
  shows "cb_current (fillChoice choices current readOnly) = current
    \<and> set (cb_items (fillChoice choices current readOnly)) = insert current (set choices)
    \<and> cb_enabled (fillChoice choices current readOnly) = (choices \<noteq> [] \<and> \<not> readOnly)"
  using assms by (auto simp: fillChoice_def select_text_def Let_def)

theorem choice_box_shows_current_witness:
  "cb_current (fillChoice [''h264'', ''h265''] ''prores'' False) = ''prores''"
  using choice_box_shows_current [of "''prores''" "[''h264'', ''h265'']" False] by simp

text \<open>A camera that leaves its current value out is shown with the first choice.\<close>

lemma choice_box_shows_first:
  "choices \<noteq> [] \<Longrightarrow> [] \<notin> set choices \<Longrightarrow> cb_current (fillChoice choices [] readOnly) = hd choices"
  by (simp add: fillChoice_def select_text_def)

subsection \<open>Groups and rows\<close>

definition groups_inv :: "settings_panel \<Rightarrow> bool" where
  "groups_inv p \<longleftrightarrow>
     se_groups p = offered_groups (se_client p \<noteq> None \<and> se_ptz p) \<and> se_catalog p \<in> set (se_groups p)
     \<and> (pane_rows (se_pane p) = [] \<or> se_client p \<noteq> None)"

definition same_groups :: "settings_panel \<Rightarrow> settings_panel \<Rightarrow> bool" where
  "same_groups p q \<longleftrightarrow> se_client q = se_client p \<and> se_ptz q = se_ptz p \<and> se_groups q = se_groups p
     \<and> se_catalog q = se_catalog p \<and> se_pane q = se_pane p"

lemma same_groups_inv: "same_groups p q \<Longrightarrow> groups_inv q = groups_inv p"
  by (simp add: same_groups_def groups_inv_def)

lemma stream_same_groups:
  "same_groups p (updateStreamBar p)" "same_groups p (show_document doc p)" "same_groups p (fst (loadStream p))"
  "same_groups p (fst (writeStreamParams params p))" "same_groups p (fst (bar_input control p))"
  by (auto simp: same_groups_def updateStreamBar_def show_document_def loadStream_def writeStreamParams_def bar_input_def
      se_ask_def split: option.splits)

lemma answer_same_groups: "same_groups p (fst (stream_answer cb doc p))"
proof (cases cb)
  case (SbDiscover c)
  show ?thesis
    using stream_same_groups(3) [of "p\<lparr>se_index := kLegacyStreamIndex\<rparr>"]
      stream_same_groups(2) [of "p\<lparr>se_index := kAppStreamIndex\<rparr>" doc]
    by (simp add: SbDiscover same_groups_def)
qed (use stream_same_groups(2) [of p doc] in \<open>simp_all add: same_groups_def\<close>)

lemma reply_same_groups: "same_groups p (fst (se_reply k doc p))"
proof (cases "map_of (se_pending p) k")
  case (Some cb)
  then show ?thesis
    using answer_same_groups [of "p\<lparr>se_pending := filter (\<lambda>(j, _). j \<noteq> k) (se_pending p)\<rparr>" cb doc]
    by (simp add: se_reply_def same_groups_def)
qed (simp add: se_reply_def same_groups_def)

lemma offered_nonempty: "offered_groups ptz \<noteq> []"
  by (simp add: offered_groups_def catalogs_def makeCatalogs_def catalogRequiresPtz_def)

lemma select_text_in: "items \<noteq> [] \<Longrightarrow> select_text s items \<in> set items"
  by (simp add: select_text_def)

lemma rebuild_inv: "groups_inv (buildRows e catalog (populateGroups p))"
  using select_text_in [OF offered_nonempty] by (simp add: groups_inv_def buildRows_def populateGroups_def Let_def)

lemma build_inv:
  assumes "groups_inv p"
  shows "groups_inv (buildRows e catalog p)"
proof -
  have "se_catalog p \<in> set (offered_groups (se_client p \<noteq> None \<and> se_ptz p))"
    using assms unfolding groups_inv_def by (elim conjE) simp
  then show ?thesis using assms by (simp only: groups_inv_def buildRows_def settings_panel.simps) simp
qed

lemma select_inv:
  "groups_inv p \<Longrightarrow> groups_inv (fst (selectGroup e catalog p))"
proof (cases "catalog \<in> set (se_groups p) \<and> catalog \<noteq> [] \<and> catalog \<noteq> se_catalog p")
  case True
  moreover assume "groups_inv p"
  ultimately have "groups_inv (p\<lparr>se_catalog := catalog\<rparr>)" by (simp add: groups_inv_def)
  with True show ?thesis by (simp add: selectGroup_def onGroupSelected_def Let_def build_inv)
qed (auto simp: selectGroup_def onGroupSelected_def)

lemma connection_inv: "groups_inv (p\<lparr>se_connected := b\<rparr>) = groups_inv p"
  by (simp add: groups_inv_def)

lemma row_input_inv: "groups_inv p \<Longrightarrow> groups_inv (fst (row_input k edit p))"
  by (cases "se_pane p") (auto simp: groups_inv_def row_input_def Let_def split: option.splits)

lemma se_step_groups: "groups_inv p \<Longrightarrow> groups_inv (fst (se_step (e, i) p))"
proof (cases i)
  case (SiClient new)
  show ?thesis by (simp add: SiClient se_setClient_def Let_def rebuild_inv)
next
  case (SiInfo ptz)
  assume "groups_inv p"
  with rebuild_inv same_groups_inv [OF stream_same_groups(3)] show ?thesis
    by (simp add: SiInfo camera_info_changed_def Let_def)
qed (use same_groups_inv [OF stream_same_groups(3)] same_groups_inv [OF stream_same_groups(5)]
      same_groups_inv [OF reply_same_groups] in
    \<open>simp_all add: build_inv connection_inv select_inv row_input_inv onGroupRefreshed_def refreshGroup_def\<close>)

lemma new_groups: "groups_inv settings_new"
  using select_text_in [OF offered_nonempty] by (simp add: groups_inv_def settings_new_def populateGroups_def updateStreamBar_def Let_def)

interpretation se: trace_system se_step groups_inv
  by unfold_locales (metis se_step_groups surj_pair)

definition calls_client :: "se_event \<Rightarrow> bool" where
  "calls_client ev \<longleftrightarrow> ev \<noteq> SeNull"

lemma stream_calls: "list_all calls_client (snd (loadStream p))" "list_all calls_client (snd (writeStreamParams params p))"
  by (simp_all add: loadStream_def writeStreamParams_def se_ask_def calls_client_def split: option.splits)

lemma se_step_calls:
  assumes "groups_inv p"
  shows "list_all calls_client (snd (se_step (e, i) p))"
proof (cases i)
  case (SiRow k edit)
  show ?thesis
  proof (cases "length (pane_rows (se_pane p)) \<le> k")
    case False
    with assms obtain c where "se_client p = Some c" by (auto simp: groups_inv_def)
    then show ?thesis by (simp add: SiRow row_input_def write_row_def Let_def calls_client_def split: option.splits)
  qed (simp add: SiRow row_input_def)
next
  case (SiReply k doc)
  have "list_all calls_client (snd (stream_answer cb doc q))" for cb q
    by (cases cb) (simp_all add: stream_calls)
  then show ?thesis by (simp add: SiReply se_reply_def split: option.splits)
next
  case (SiBar control)
  then show ?thesis by (simp add: bar_input_def stream_calls split: option.splits)
next
  case (SiInfo ptz)
  then show ?thesis
    by (simp add: camera_info_changed_def stream_calls readGroup_event_def Let_def) (simp add: calls_client_def)
next
  case SiRefresh
  then show ?thesis by (simp add: refreshGroup_def stream_calls readGroup_event_def) (simp add: calls_client_def)
qed (simp_all add: selectGroup_def onGroupSelected_def Let_def calls_client_def)

text \<open>
  The settings tab offers what the camera has: in every run the group on the screen is one of the list, the list
  holds the pan and tilt group exactly when the selected camera reported a head, rows are on the screen only
  while there is a client, and no handler calls a missing client.
\<close>

theorem settings_groups_offered:
  "groups_inv (fst (run_trace se_step inputs settings_new))
   \<and> list_all calls_client (snd (run_trace se_step inputs settings_new))"
proof -
  have "calls_client ev" if "ev \<in> set (snd (run_trace se_step inputs settings_new))" for ev
    using se.run_events [OF new_groups _ that, of calls_client] se_step_calls by (force simp: list_all_iff)
  with se.run_inv [OF new_groups] show ?thesis by (simp add: list_all_iff)
qed

subsection \<open>The document on the screen\<close>

fun cb_target :: "se_cb \<Rightarrow> nat \<times> string" where
  "cb_target (SbDiscover c) = (c, kAppStreamIndex)"
| "cb_target (SbRead c index) = (c, index)"
| "cb_target (SbWrite c index) = (c, index)"

text \<open>\<open>cam c index doc\<close>: the camera of client \<open>c\<close> may answer \<open>doc\<close> for \<open>index\<close>. A reply that
  no camera may give is left out of the run.\<close>

fun honest :: "(nat \<times> string \<Rightarrow> jobject \<Rightarrow> bool) \<Rightarrow> engine \<times> se_input \<Rightarrow> settings_panel \<Rightarrow> bool" where
  "honest cam (e, SiReply k doc) p =
     (case map_of (se_pending p) k of None \<Rightarrow> True | Some cb \<Rightarrow> cam (cb_target cb) doc)"
| "honest cam _ p = True"

definition se_camera_step :: "(nat \<times> string \<Rightarrow> jobject \<Rightarrow> bool) \<Rightarrow> engine \<times> se_input \<Rightarrow> settings_panel
    \<Rightarrow> settings_panel \<times> se_event list" where
  "se_camera_step cam i p = (if honest cam i p then se_step i p else (p, []))"

definition index_inv :: "(nat \<times> string \<Rightarrow> jobject \<Rightarrow> bool) \<Rightarrow> settings_panel \<Rightarrow> bool" where
  "index_inv cam p \<longleftrightarrow>
     (case se_client p of
        None \<Rightarrow> se_index p = []
      | Some c \<Rightarrow>
          se_index p = []
          \<or> se_index p = kAppStreamIndex \<and> (\<exists>d. cam (c, kAppStreamIndex) d \<and> isStreamDocument d)
          \<or> se_index p = kLegacyStreamIndex \<and> (\<exists>d. cam (c, kAppStreamIndex) d \<and> \<not> isStreamDocument d))"

definition doc_inv :: "(nat \<times> string \<Rightarrow> jobject \<Rightarrow> bool) \<Rightarrow> settings_panel \<Rightarrow> bool" where
  "doc_inv cam p \<longleftrightarrow>
     (if se_doc p = [] then \<not> sb_enabled (se_bar p)
      else isStreamDocument (se_doc p)
        \<and> (case se_client p of None \<Rightarrow> False | Some c \<Rightarrow> se_index p \<noteq> [] \<and> cam (c, se_index p) (se_doc p)))"

definition stream_inv :: "(nat \<times> string \<Rightarrow> jobject \<Rightarrow> bool) \<Rightarrow> settings_panel \<Rightarrow> bool" where
  "stream_inv cam p \<longleftrightarrow> index_inv cam p \<and> doc_inv cam p"

text \<open>What the invariant reads.\<close>

definition same_stream :: "settings_panel \<Rightarrow> settings_panel \<Rightarrow> bool" where
  "same_stream p q \<longleftrightarrow> se_client q = se_client p \<and> se_index q = se_index p \<and> se_doc q = se_doc p
     \<and> sb_enabled (se_bar q) = sb_enabled (se_bar p)"

lemma same_stream_inv: "same_stream p q \<Longrightarrow> stream_inv cam q = stream_inv cam p"
  unfolding same_stream_def stream_inv_def index_inv_def doc_inv_def by (elim conjE) (simp only:)

lemma load_same_stream: "same_stream p (fst (loadStream p))"
  by (simp add: same_stream_def loadStream_def se_ask_def split: option.splits)

lemma bar_changed_enabled: "bar_changed control b = Some (b1, params) \<Longrightarrow> sb_enabled b1 = sb_enabled b"
  by (cases control) (auto split: if_splits)

lemma bar_same_stream: "same_stream p (fst (bar_input control p))"
  by (auto simp: same_stream_def bar_input_def writeStreamParams_def se_ask_def dest: bar_changed_enabled split: option.splits)

lemma groups_same_stream:
  "same_stream p (populateGroups p)" "same_stream p (buildRows e catalog p)" "same_stream p (fst (row_input k edit p))"
  "same_stream p (fst (onGroupSelected e catalog p))" "same_stream p (p\<lparr>se_ptz := b\<rparr>)" "same_stream p (p\<lparr>se_connected := b\<rparr>)"
  "same_stream p (p\<lparr>se_pending := cbs\<rparr>)"
  by (auto simp: same_stream_def populateGroups_def buildRows_def row_input_def onGroupSelected_def Let_def split: option.splits)

lemma same_stream_trans: "same_stream p q \<Longrightarrow> same_stream q r \<Longrightarrow> same_stream p r"
  by (simp add: same_stream_def)

lemma info_same_stream: "same_stream p (fst (camera_info_changed e ptz p))"
proof (cases "se_client p")
  case (Some c)
  let ?p = "populateGroups (p\<lparr>se_ptz := ptz\<rparr>)"
  have "same_stream p (fst (loadStream (buildRows e (se_catalog ?p) ?p)))"
    by (rule same_stream_trans [OF same_stream_trans [OF same_stream_trans [OF groups_same_stream(5)
            groups_same_stream(1)] groups_same_stream(2)] load_same_stream])
  with Some show ?thesis by (simp add: camera_info_changed_def Let_def)
qed (simp add: camera_info_changed_def same_stream_def)

lemma show_document_inv:
  "isStreamDocument doc \<Longrightarrow> se_client p = Some c \<Longrightarrow> se_index p \<noteq> [] \<Longrightarrow> cam (c, se_index p) doc \<Longrightarrow>
     index_inv cam p \<Longrightarrow> stream_inv cam (show_document doc p)"
  by (auto simp: stream_inv_def index_inv_def doc_inv_def show_document_def updateStreamBar_def isStreamDocument_def)

lemma stream_document_nonempty: "isStreamDocument doc \<Longrightarrow> doc \<noteq> []"
  by (auto simp: isStreamDocument_def)

lemma index_names: "kAppStreamIndex \<noteq> []" "kLegacyStreamIndex \<noteq> []" "kAppStreamIndex \<noteq> kLegacyStreamIndex"
  by (simp_all add: kAppStreamIndex_def kLegacyStreamIndex_def)

text \<open>A camera offers the newer index or it does not.\<close>

definition settled_cameras :: "(nat \<times> string \<Rightarrow> jobject \<Rightarrow> bool) \<Rightarrow> bool" where
  "settled_cameras cam \<longleftrightarrow>
     (\<forall>c d d1. cam (c, kAppStreamIndex) d \<and> cam (c, kAppStreamIndex) d1 \<longrightarrow> isStreamDocument d = isStreamDocument d1)"

lemma answer_inv:
  assumes "settled_cameras cam" "stream_inv cam p" "cam (cb_target cb) doc" "snd (cb_target cb) \<noteq> []"
  shows "stream_inv cam (fst (stream_answer cb doc p))"
proof (cases cb)
  case (SbDiscover c)
  show ?thesis
  proof (cases "se_client p = Some c")
    case True
    show ?thesis
    proof (cases "isStreamDocument doc")
      case doc: True
      then have "stream_inv cam (show_document doc (p\<lparr>se_index := kAppStreamIndex\<rparr>))"
        using assms(3) True index_names by (intro show_document_inv [where c = c]) (auto simp: SbDiscover index_inv_def)
      with doc show ?thesis using True by (simp add: SbDiscover)
    next
      case doc: False
      let ?p = "p\<lparr>se_index := kLegacyStreamIndex\<rparr>"
      have a: "cam (c, kAppStreamIndex) doc" using assms(3) by (simp add: SbDiscover)
      have "\<not> isStreamDocument d" if "cam (c, kAppStreamIndex) d" for d
        using assms(1) a that doc unfolding settled_cameras_def by blast
      then have "se_index p \<noteq> kAppStreamIndex" using assms(2) True index_names by (auto simp: stream_inv_def index_inv_def)
      then have "stream_inv cam ?p"
        using assms(2) True a doc index_names
        by (auto simp: stream_inv_def index_inv_def doc_inv_def split: if_splits)
      then have "stream_inv cam (fst (loadStream ?p))" unfolding same_stream_inv [OF load_same_stream] .
      with doc True show ?thesis by (simp add: SbDiscover)
    qed
  qed (simp add: SbDiscover assms(2))
next
  case (SbRead c index)
  have "stream_inv cam (show_document doc p)" if "se_client p = Some c" "index = se_index p" "isStreamDocument doc"
    using assms(2-4) that by (intro show_document_inv [where c = c]) (simp_all add: SbRead stream_inv_def)
  with assms(2) show ?thesis by (simp add: SbRead)
next
  case (SbWrite c index)
  have "stream_inv cam (show_document doc p)" if "se_client p = Some c" "index = se_index p" "isStreamDocument doc"
    using assms(2-4) that by (intro show_document_inv [where c = c]) (simp_all add: SbWrite stream_inv_def)
  with assms(2) show ?thesis by (simp add: SbWrite)
qed

text \<open>Every query in flight names its index.\<close>

definition asked_inv :: "settings_panel \<Rightarrow> bool" where
  "asked_inv p \<longleftrightarrow> list_all (\<lambda>(k, cb). snd (cb_target cb) \<noteq> []) (se_pending p)"

lemma load_asked: "asked_inv p \<Longrightarrow> asked_inv (fst (loadStream p))"
  by (simp add: asked_inv_def loadStream_def se_ask_def index_names split: option.splits)

lemma write_asked: "asked_inv p \<Longrightarrow> asked_inv (fst (writeStreamParams params p))"
  by (simp add: asked_inv_def writeStreamParams_def se_ask_def split: option.splits)

lemma asked_fields [simp]:
  "asked_inv (updateStreamBar p) = asked_inv p" "asked_inv (populateGroups p) = asked_inv p" "asked_inv (buildRows e g p) = asked_inv p"
  "asked_inv (p\<lparr>se_bar := b\<rparr>) = asked_inv p" "asked_inv (p\<lparr>se_doc := doc\<rparr>) = asked_inv p"
  "asked_inv (p\<lparr>se_index := index\<rparr>) = asked_inv p" "asked_inv (p\<lparr>se_ptz := ptz\<rparr>) = asked_inv p"
  "asked_inv (p\<lparr>se_catalog := g\<rparr>) = asked_inv p" "asked_inv (p\<lparr>se_connected := ptz\<rparr>) = asked_inv p"
  "asked_inv (p\<lparr>se_pane := pane\<rparr>) = asked_inv p"
  by (simp_all add: asked_inv_def updateStreamBar_def populateGroups_def buildRows_def Let_def)

lemma answer_asked: "asked_inv p \<Longrightarrow> asked_inv (fst (stream_answer cb doc p))"
  by (cases cb) (simp_all add: show_document_def load_asked)

lemma filter_asked: "asked_inv p \<Longrightarrow> asked_inv (p\<lparr>se_pending := filter P (se_pending p)\<rparr>)"
  by (simp add: asked_inv_def list_all_iff)

lemma se_step_asked: "asked_inv p \<Longrightarrow> asked_inv (fst (se_step (e, i) p))"
proof (cases i)
  case (SiClient new)
  assume "asked_inv p"
  then show ?thesis by (simp add: SiClient se_setClient_def Let_def) (simp add: asked_inv_def)
qed (auto simp: camera_info_changed_def refreshGroup_def onGroupRefreshed_def selectGroup_def onGroupSelected_def bar_input_def
    row_input_def se_reply_def Let_def load_asked write_asked answer_asked filter_asked split: option.splits)

lemma client_stream_inv: "stream_inv cam (se_setClient e new p)"
proof -
  let ?p = "p\<lparr>se_client := (if new then Some (se_clients p) else None), se_clients := Suc (se_clients p),
    se_connected := False, se_ptz := False, se_index := [], se_doc := []\<rparr>"
  have "stream_inv cam (updateStreamBar ?p)"
    by (simp add: stream_inv_def index_inv_def doc_inv_def updateStreamBar_def bar_off_def)
  then show ?thesis
    unfolding se_setClient_def Let_def same_stream_inv [OF groups_same_stream(2)] same_stream_inv [OF groups_same_stream(1)] .
qed

lemma se_step_stream:
  assumes "settled_cameras cam" "stream_inv cam p" "asked_inv p" "honest cam (e, i) p"
  shows "stream_inv cam (fst (se_step (e, i) p))"
proof (cases i)
  case (SiReply k doc)
  show ?thesis
  proof (cases "map_of (se_pending p) k")
    case (Some cb)
    from map_of_SomeD [OF Some] assms(3) have "snd (cb_target cb) \<noteq> []" by (auto simp: asked_inv_def list_all_iff)
    with Some assms SiReply show ?thesis
      by (simp add: se_reply_def answer_inv same_stream_inv [OF groups_same_stream(7)])
  qed (simp add: SiReply se_reply_def assms(2))
qed (use assms(2) in \<open>simp_all add: client_stream_inv same_stream_inv [OF info_same_stream] same_stream_inv [OF bar_same_stream]
      same_stream_inv [OF groups_same_stream(3)] same_stream_inv [OF groups_same_stream(6)] onGroupRefreshed_def
      same_stream_inv [OF groups_same_stream(2)] selectGroup_def same_stream_inv [OF groups_same_stream(4)]
      refreshGroup_def same_stream_inv [OF load_same_stream]\<close>)

text \<open>A write goes to the index of the document on the screen.\<close>

fun write_shown :: "(nat \<times> string \<Rightarrow> jobject \<Rightarrow> bool) \<Rightarrow> settings_panel \<Rightarrow> se_event \<Rightarrow> bool" where
  "write_shown cam p (SeWriteStream c index params) =
     (se_client p = Some c \<and> se_index p = index \<and> isStreamDocument (se_doc p) \<and> cam (c, index) (se_doc p))"
| "write_shown cam p _ = True"

lemma writes_shown:
  assumes "stream_inv cam p"
  shows "list_all (write_shown cam p) (snd (se_step (e, i) p))"
proof -
  have load: "list_all (write_shown cam p) (snd (loadStream q))" for q
    by (simp add: loadStream_def se_ask_def split: option.splits)
  have answer: "list_all (write_shown cam p) (snd (stream_answer cb doc q))" for cb doc q
    by (cases cb) (simp_all add: load)
  show ?thesis
  proof (cases i)
    case (SiBar control)
    show ?thesis
    proof (cases "sb_enabled (se_bar p)")
      case True
      with assms have "se_doc p \<noteq> []" by (auto simp: stream_inv_def doc_inv_def)
      with assms show ?thesis
        by (auto simp: SiBar bar_input_def writeStreamParams_def se_ask_def stream_inv_def doc_inv_def split: option.splits)
    qed (simp add: SiBar bar_input_def)
  qed (simp_all add: camera_info_changed_def refreshGroup_def load answer readGroup_event_def selectGroup_def onGroupSelected_def
      row_input_def write_row_def se_reply_def Let_def split: option.splits)
qed

definition shown_inv :: "(nat \<times> string \<Rightarrow> jobject \<Rightarrow> bool) \<Rightarrow> settings_panel \<Rightarrow> bool" where
  "shown_inv cam p \<longleftrightarrow> settled_cameras cam \<longrightarrow> stream_inv cam p \<and> asked_inv p"

lemma camera_step_shown: "shown_inv cam p \<Longrightarrow> shown_inv cam (fst (se_camera_step cam (e, i) p))"
  by (auto simp: shown_inv_def se_camera_step_def se_step_stream se_step_asked)

interpretation shown: trace_system "se_camera_step cam" "shown_inv cam"
  by unfold_locales (metis camera_step_shown surj_pair)

lemma new_shown: "shown_inv cam settings_new"
proof -
  have "stream_inv cam settings_new" unfolding settings_new_def same_stream_inv [OF groups_same_stream(1)]
    by (simp add: stream_inv_def index_inv_def doc_inv_def updateStreamBar_def bar_off_def)
  then show ?thesis by (simp add: shown_inv_def) (simp add: settings_new_def asked_inv_def populateGroups_def updateStreamBar_def Let_def)
qed

text \<open>
  C24. A write goes where the operator looks: as long as every camera either offers the newer index or does not, in
  every run every change made in the stream bar is sent to the selected camera and to the index whose document, an
  answer of that camera for that index, is on the screen.
\<close>

theorem settings_writes_shown_stream:
  assumes "settled_cameras cam"
  shows "list_all (write_shown cam (fst (run_trace (se_camera_step cam) inputs settings_new)))
    (snd (se_camera_step cam i (fst (run_trace (se_camera_step cam) inputs settings_new))))"
proof -
  obtain e j where i: "i = (e, j)" by (cases i)
  show ?thesis
    using shown.run_inv [OF new_shown] assms writes_shown by (simp add: i se_camera_step_def shown_inv_def)
qed

definition app_document :: jobject where
  "app_document = [(''streamIndex'', JStr ''app_stream1''), (''bitrate'', JNum 8000), (''maxBitrate'', JNum 60000)]"

definition app_camera :: "nat \<times> string \<Rightarrow> jobject \<Rightarrow> bool" where
  "app_camera = (\<lambda>(c, index) doc. index = kAppStreamIndex \<and> doc = app_document)"

lemma app_document_facts [simp]:
  "isStreamDocument app_document" "\<not> isStreamDocument []" "app_document \<noteq> []"
  by (simp_all add: isStreamDocument_def app_document_def)

lemma app_document_bitrate: "sb_bitrate (bar_of index app_document) = set_slider 0 60000 8000 True"
  by (simp add: bar_of_def app_document_def Let_def)

lemmas stream_run =
  run_trace_Cons_eq se_setClient_def camera_info_changed_def refreshGroup_def readGroup_event_def loadStream_def se_ask_def
  se_reply_def bar_input_def writeStreamParams_def show_document_def updateStreamBar_def Let_def

definition two_queries :: "(engine \<times> se_input) list" where
  "two_queries = map (Pair en_init) [SiClient True, SiConnection True, SiRefresh, SiInfo False]"

text \<open>The two places that load the stream after a connection ask before the index is known.\<close>

definition twice_asked :: "settings_panel \<Rightarrow> bool" where
  "twice_asked p \<longleftrightarrow> se_client p = Some 0 \<and> se_connected p \<and> se_index p = [] \<and> se_next p = 2
     \<and> se_pending p = [(0, SbDiscover 0), (1, SbDiscover 0)]"

lemma fields_after_groups [simp]:
  "se_client (populateGroups p) = se_client p" "se_connected (populateGroups p) = se_connected p"
  "se_index (populateGroups p) = se_index p" "se_next (populateGroups p) = se_next p" "se_pending (populateGroups p) = se_pending p"
  "se_client (buildRows e g p) = se_client p" "se_connected (buildRows e g p) = se_connected p"
  "se_index (buildRows e g p) = se_index p" "se_next (buildRows e g p) = se_next p" "se_pending (buildRows e g p) = se_pending p"
  "se_clients (populateGroups p) = se_clients p"
  by (simp_all add: populateGroups_def buildRows_def Let_def)

lemma two_queries_pending: "twice_asked (fst (run_trace se_step two_queries settings_new))"
  by (simp add: twice_asked_def two_queries_def stream_run settings_new_def del: run_trace.simps(2))

lemma two_queries_honest: "run_trace (se_camera_step app_camera) two_queries = run_trace se_step two_queries"
  by (simp add: two_queries_def se_camera_step_def fun_eq_iff)

lemma first_answer:
  assumes "twice_asked p"
  shows "se_step (e, SiReply 0 app_document) p =
    (show_document app_document (p\<lparr>se_pending := [(1, SbDiscover 0)], se_index := kAppStreamIndex\<rparr>), [])"
  using assms by (simp add: twice_asked_def se_reply_def)

definition app_shown :: "string \<Rightarrow> settings_panel \<Rightarrow> bool" where
  "app_shown index p \<longleftrightarrow> se_client p = Some 0 \<and> se_index p = index \<and> se_doc p = app_document
     \<and> se_bar p = bar_of kAppStreamIndex app_document"

lemma first_shown: "twice_asked p \<Longrightarrow> app_shown kAppStreamIndex (fst (se_step (e, SiReply 0 app_document) p))"
  unfolding first_answer by (simp add: app_shown_def twice_asked_def show_document_def updateStreamBar_def)

lemma second_shown:
  assumes "twice_asked p"
  shows "app_shown kLegacyStreamIndex (fst (se_step (e, SiReply 1 []) (fst (se_step (e, SiReply 0 app_document) p))))"
  using assms unfolding first_answer [OF assms]
  by (simp add: app_shown_def twice_asked_def se_reply_def show_document_def updateStreamBar_def loadStream_def se_ask_def index_names)

lemma bitrate_written:
  assumes "app_shown index p" "index \<noteq> []"
  shows "snd (se_step (e, SiBar (BarBitrate 9000)) p) = [SeWriteStream 0 index [(''bitrate'', number 9000000)]]"
  using assms
  by (simp add: app_shown_def bar_input_def app_document_bitrate set_slider_def slide_to_def writeStreamParams_def se_ask_def
      wrap32_def kBitrateWriteScale_def Let_def) (simp add: bar_of_def Let_def)

theorem settings_writes_shown_stream_witness:
  "write_shown app_camera
     (fst (run_trace (se_camera_step app_camera) (two_queries @ [(en_init, SiReply 0 app_document)]) settings_new))
     (SeWriteStream 0 kAppStreamIndex [(''bitrate'', number 9000000)])"
proof -
  let ?p = "fst (run_trace (se_camera_step app_camera) (two_queries @ [(en_init, SiReply 0 app_document)]) settings_new)"
  have p: "?p = fst (se_step (en_init, SiReply 0 app_document) (fst (run_trace se_step two_queries settings_new)))"
    using two_queries_pending unfolding run_trace_append two_queries_honest
    by (simp add: run_trace_Cons_eq se_camera_step_def twice_asked_def app_camera_def del: run_trace.simps(2))
  have "app_shown kAppStreamIndex ?p" unfolding p by (rule first_shown [OF two_queries_pending])
  then have "snd (se_camera_step app_camera (en_init, SiBar (BarBitrate 9000)) ?p)
      = [SeWriteStream 0 kAppStreamIndex [(''bitrate'', number 9000000)]]"
    using bitrate_written index_names by (simp add: se_camera_step_def)
  moreover have "settled_cameras app_camera" by (simp add: settled_cameras_def app_camera_def)
  ultimately show ?thesis
    using settings_writes_shown_stream [of app_camera "two_queries @ [(en_init, SiReply 0 app_document)]"
        "(en_init, SiBar (BarBitrate 9000))"] by simp
qed

text \<open>
  C38. The index does not stay fixed: two queries for the index can be in flight, and when the first is answered with
  a document and the second fails, the panel still shows the document of the newer index while it sends the next
  change of the operator to the older one.
\<close>

theorem settings_index_flips:
  "snd (se_step (en_init, SiBar (BarBitrate 9000))
      (fst (run_trace se_step (two_queries @ [(en_init, SiReply 0 app_document), (en_init, SiReply 1 [])]) settings_new)))
    = [SeWriteStream 0 kLegacyStreamIndex [(''bitrate'', number 9000000)]]
   \<and> se_bar (fst (run_trace se_step (two_queries @ [(en_init, SiReply 0 app_document), (en_init, SiReply 1 [])]) settings_new))
    = bar_of kAppStreamIndex app_document"
proof -
  let ?p = "fst (run_trace se_step (two_queries @ [(en_init, SiReply 0 app_document), (en_init, SiReply 1 [])]) settings_new)"
  have "?p = fst (se_step (en_init, SiReply 1 []) (fst (se_step (en_init, SiReply 0 app_document)
      (fst (run_trace se_step two_queries settings_new)))))"
    by (simp add: run_trace_append run_trace_Cons_eq del: run_trace.simps(2) se_step.simps)
  then have "app_shown kLegacyStreamIndex ?p" using second_shown [OF two_queries_pending] by simp
  then show ?thesis using bitrate_written index_names by (simp add: app_shown_def)
qed

text \<open>
  The bit rate goes out in bits per second: a release of the slider sends a thousand times the value on the
  slider, which is in the range of the document, as long as the range is below 2147484 kbit/s.
\<close>

theorem settings_bitrate_scaled:
  assumes "sl_enabled (sb_bitrate b)" "0 \<le> sl_min (sb_bitrate b)" "sl_min (sb_bitrate b) \<le> sl_max (sb_bitrate b)"
    and "sl_max (sb_bitrate b) \<le> 2147483"
  shows "bar_changed (BarBitrate v) b =
    Some (b\<lparr>sb_bitrate := slide_to v (sb_bitrate b)\<rparr>, [(''bitrate'', number (sl_value (slide_to v (sb_bitrate b)) * 1000))])"
proof -
  let ?n = "sl_value (slide_to v (sb_bitrate b))"
  have "0 \<le> ?n" "?n \<le> 2147483" using assms by (auto simp: slide_to_def)
  then have "wrap32 (?n * 1000) = ?n * 1000" by (simp add: wrap32_def)
  with assms(1) show ?thesis by (simp add: kBitrateWriteScale_def)
qed

end
