(* ===== verification/Plugin_Module.thy ===== *)
theory Plugin_Module
  imports Resources "HOL-Library.Word"
begin

unbundle bit_operations_syntax

text \<open>
  The entry points of the plugin, \<^verbatim>\<open>src/obs-ssp.cpp\<close>, and the log of \<^verbatim>\<open>src/ui/zc_debug_panel.cpp\<close>. The record
  \<open>plugin\<close> holds the static variables of the module, what it has registered with OBS, and the calls
  queued for the thread of the main window. \<^verbatim>\<open>QPointer\<close> is \<open>pm_dock\<close>: Qt empties it when the main window
  takes the dock down.
\<close>

subsection \<open>The version of OBS\<close>

definition MIN_OBS_VERSION_MAJOR :: "8 word" where "MIN_OBS_VERSION_MAJOR = 31"
definition MIN_OBS_VERSION_MINOR :: "8 word" where "MIN_OBS_VERSION_MINOR = 0"

definition check_obs_version_compatibility :: "32 word \<Rightarrow> bool" where
  "check_obs_version_compatibility obs_version =
     (let obs_major = (ucast (drop_bit 24 obs_version AND 0xFF) :: 8 word);
          obs_minor = (ucast (drop_bit 16 obs_version AND 0xFF) :: 8 word) in
      if obs_major < MIN_OBS_VERSION_MAJOR then False
      else if obs_major = MIN_OBS_VERSION_MAJOR \<and> obs_minor < MIN_OBS_VERSION_MINOR then False
      else True)"

text \<open>The comparison of the parts is the comparison with the packed version 31.0.0.\<close>

theorem version_check_reference:
  "check_obs_version_compatibility v = (0x1F000000 \<le> v)"
proof -
  have v: "unat v < 2 ^ 32" using unsigned_less [of v] by simp
  have m: "(x :: nat) AND 255 = x mod 2 ^ 8" for x
    using take_bit_eq_mask [of 8 x] by (simp add: take_bit_eq_mod mask_eq_exp_minus_1)
  have "unat (ucast (drop_bit 24 v AND 0xFF) :: 8 word) = unat v div 2 ^ 24"
    by (simp add: unsigned_ucast_eq unsigned_and_eq m unat_drop_bit_eq take_bit_eq_mod) (use v in \<open>simp add: drop_bit_eq_div\<close>)
  then have "(ucast (drop_bit 24 v AND 0xFF) :: 8 word) < 31 \<longleftrightarrow> unat v div 2 ^ 24 < 31"
    by (simp add: word_less_nat_alt)
  also have "\<dots> \<longleftrightarrow> unat v < 31 * 2 ^ 24" by (simp add: div_less_iff_less_mult)
  finally show ?thesis
    by (auto simp: check_obs_version_compatibility_def MIN_OBS_VERSION_MAJOR_def MIN_OBS_VERSION_MINOR_def Let_def word_le_nat_alt)
qed

subsection \<open>Loading, the dock, unloading\<close>

datatype pm_event =
    MdnsStart | MdnsStop | SourceRegister | ErrorBox | WatchEvents bool | WatchSources bool
  | DockNew nat | DockShow nat | DockDelete nat | DockGone nat

record plugin =
  pm_dock :: "nat option"
  pm_next :: nat
  pm_armed :: bool
  pm_watching :: bool
  pm_signals :: bool
  pm_mdns :: bool
  pm_action :: bool
  pm_window :: bool
  pm_queue :: nat

definition plugin_new :: plugin where
  "plugin_new = \<lparr>pm_dock = None, pm_next = 0, pm_armed = False, pm_watching = False, pm_signals = False, pm_mdns = False,
     pm_action = False, pm_window = True, pm_queue = 0\<rparr>"

definition show_zcamera_control_dock :: "plugin \<Rightarrow> plugin \<times> pm_event list" where
  "show_zcamera_control_dock m =
     (case pm_dock m of
        None \<Rightarrow> (m\<lparr>pm_dock := Some (pm_next m), pm_next := Suc (pm_next m)\<rparr>, [DockNew (pm_next m), DockShow (pm_next m)])
      | Some d \<Rightarrow> (m, [DockShow d]))"

text \<open>A call queued for the main window is dropped when the window goes.\<close>

definition zc_show_control_dock :: "plugin \<Rightarrow> plugin" where
  "zc_show_control_dock m = (if pm_window m then m\<lparr>pm_queue := Suc (pm_queue m)\<rparr> else m)"

definition on_frontend_event :: "bool \<Rightarrow> plugin \<Rightarrow> plugin" where
  "on_frontend_event finished_loading m = (if finished_loading then m\<lparr>pm_armed := True\<rparr> else m)"

definition on_source_created :: "string option \<Rightarrow> plugin \<Rightarrow> plugin" where
  "on_source_created source m =
     (if \<not> pm_armed m then m
      else
        (case source of
           None \<Rightarrow> m
         | Some sid \<Rightarrow> if sid \<noteq> ''zcamera_source'' then m else if \<not> pm_window m then m else m\<lparr>pm_queue := Suc (pm_queue m)\<rparr>))"

definition obs_module_load :: "32 word \<Rightarrow> plugin \<Rightarrow> plugin \<times> pm_event list \<times> bool" where
  "obs_module_load version m =
     (if \<not> check_obs_version_compatibility version then (m, [ErrorBox], False)
      else (m\<lparr>pm_mdns := True, pm_action := True, pm_watching := True, pm_signals := True\<rparr>,
            [MdnsStart, SourceRegister, WatchEvents True, WatchSources True], True))"

definition obs_module_unload :: "plugin \<Rightarrow> plugin \<times> pm_event list" where
  "obs_module_unload m =
     (m\<lparr>pm_signals := False, pm_watching := False, pm_mdns := False, pm_dock := None\<rparr>,
      (if pm_signals m then [WatchSources False] else []) @ [WatchEvents False, MdnsStop]
      @ (case pm_dock m of None \<Rightarrow> [] | Some d \<Rightarrow> [DockDelete d]))"

text \<open>\<open>PmLoaded\<close> is the load of the module, after which OBS calls the rest; \<open>PmWindowGone\<close> is Qt destroying the
  main window with its children.\<close>

datatype pm_input =
    PmLoaded "32 word" | PmUnloaded | PmFrontend bool | PmSource "string option" | PmProperties | PmMenu | PmQueued | PmWindowGone

fun pm_step :: "pm_input \<Rightarrow> plugin \<Rightarrow> plugin \<times> pm_event list" where
  "pm_step (PmLoaded v) m =
     (if pm_mdns m then (m, []) else case obs_module_load v m of (m1, es, ok) \<Rightarrow> (m1, es))"
| "pm_step PmUnloaded m = (if pm_mdns m then obs_module_unload m else (m, []))"
| "pm_step (PmFrontend b) m = ((if pm_watching m then on_frontend_event b m else m), [])"
| "pm_step (PmSource source) m = ((if pm_signals m then on_source_created source m else m), [])"
| "pm_step PmProperties m = (zc_show_control_dock m, [])"
| "pm_step PmMenu m = (if pm_action m \<and> pm_window m then show_zcamera_control_dock m else (m, []))"
| "pm_step PmQueued m =
     (if pm_queue m = 0 \<or> \<not> pm_window m then (m, []) else show_zcamera_control_dock (m\<lparr>pm_queue := pm_queue m - 1\<rparr>))"
| "pm_step PmWindowGone m =
     (m\<lparr>pm_window := False, pm_queue := 0, pm_dock := None\<rparr>, (case pm_dock m of None \<Rightarrow> [] | Some d \<Rightarrow> [DockGone d]))"

text \<open>The one dock that may exist, the discovery loop, and the callbacks OBS holds.\<close>

fun pm_monitor :: "pm_event \<Rightarrow> nat option \<times> bool \<times> bool \<times> bool \<Rightarrow> (nat option \<times> bool \<times> bool \<times> bool) option" where
  "pm_monitor (DockNew d) (l, r) = (if l = None then Some (Some d, r) else None)"
| "pm_monitor (DockShow d) (l, r) = (if l = Some d then Some (l, r) else None)"
| "pm_monitor (DockDelete d) (l, r) = (if l = Some d then Some (None, r) else None)"
| "pm_monitor (DockGone d) (l, r) = (if l = Some d then Some (None, r) else None)"
| "pm_monitor MdnsStart (l, s, w, g) = (if s then None else Some (l, True, w, g))"
| "pm_monitor MdnsStop (l, s, w, g) = (if s then Some (l, False, w, g) else None)"
| "pm_monitor (WatchEvents b) (l, s, w, g) = (if w = b then None else Some (l, s, b, g))"
| "pm_monitor (WatchSources b) (l, s, w, g) = (if g = b then None else Some (l, s, w, b))"
| "pm_monitor SourceRegister v = Some v"
| "pm_monitor ErrorBox v = Some v"

definition pm_view :: "plugin \<Rightarrow> nat option \<times> bool \<times> bool \<times> bool" where
  "pm_view m = (pm_dock m, pm_mdns m, pm_watching m, pm_signals m)"

definition pm_inv :: "plugin \<Rightarrow> bool" where
  "pm_inv m \<longleftrightarrow> pm_watching m = pm_mdns m \<and> pm_signals m = pm_mdns m \<and> (pm_window m \<or> pm_dock m = None)"

lemmas pm_ops = show_zcamera_control_dock_def zc_show_control_dock_def on_frontend_event_def on_source_created_def
  obs_module_load_def obs_module_unload_def

lemma pm_step_ok: "pm_inv m \<Longrightarrow> pm_inv (fst (pm_step i m)) \<and> tracked pm_monitor pm_view m (pm_step i m)"
  by (cases i; auto simp: pm_inv_def pm_ops tracked_def pm_view_def split: option.splits)

interpretation pm: monitored pm_step pm_inv pm_monitor pm_view
  by unfold_locales (simp_all add: pm_step_ok)

text \<open>
  The dock of the module: for every order of loads, unloads, sources, menu clicks, queued calls and the end of the
  main window there is at most one dock, it is shown only while it exists and destroyed once, by Qt or by the
  module, and discovery and the callbacks of OBS are started and stopped in turn.
\<close>

theorem module_dock_lifetime:
  "mon_run pm_monitor (snd (run_trace pm_step inputs plugin_new)) (None, False, False, False)
     = Some (pm_view (fst (run_trace pm_step inputs plugin_new)))"
  using pm.run_accepted [of plugin_new inputs] by (simp add: pm_inv_def plugin_new_def pm_view_def)

text \<open>A call that was queued before the unload opens a new dock after it.\<close>

lemma module_late_dock:
  "snd (run_trace pm_step [PmLoaded 0x1F000000, PmProperties, PmUnloaded, PmQueued] plugin_new)
    = [MdnsStart, SourceRegister, WatchEvents True, WatchSources True,
       WatchSources False, WatchEvents False, MdnsStop, DockNew 0, DockShow 0]"
  by (simp add: plugin_new_def pm_ops version_check_reference)

subsection \<open>The debug log\<close>

definition secret_words :: "string list" where
  "secret_words = [''Authorization'', ''X-Auth-Token'', ''Cookie'', ''Password'', ''password'']"

text \<open>What one match of the expression for a word leaves: the word, optional space, a separator, optional space and
  at least one character that is no space.\<close>

definition match_word :: "string \<Rightarrow> string \<Rightarrow> string option" where
  "match_word s w =
     (if \<not> starts_with w s then None
      else
        (case dropWhile is_space (drop (length w) s) of
           [] \<Rightarrow> None
         | c # r \<Rightarrow>
             if c \<noteq> CHR '':'' \<and> c \<noteq> CHR ''='' then None
             else (let v = dropWhile is_space r in if v = [] then None else Some (dropWhile (\<lambda>x. \<not> is_space x) v))))"

fun match_words :: "string \<Rightarrow> string list \<Rightarrow> (string \<times> string) option" where
  "match_words s [] = None"
| "match_words s (w # ws) = (case match_word s w of None \<Rightarrow> match_words s ws | Some r \<Rightarrow> Some (w, r))"

lemma match_word_shorter:
  assumes "match_word s w = Some r"
  shows "length r < length s"
proof -
  obtain c q where q: "dropWhile is_space (drop (length w) s) = c # q"
      and r: "r = dropWhile (\<lambda>x. \<not> is_space x) (dropWhile is_space q)"
    using assms by (auto simp: match_word_def Let_def split: if_splits list.splits)
  have "length r \<le> length q" unfolding r by (meson length_dropWhile_le order_trans)
  also have "length q < length (dropWhile is_space (drop (length w) s))" unfolding q by simp
  also have "\<dots> \<le> length (drop (length w) s)" by (rule length_dropWhile_le)
  also have "\<dots> \<le> length s" by simp
  finally show ?thesis .
qed

lemma match_words_shorter: "match_words s ws = Some (w, r) \<Longrightarrow> length r < length s"
  by (induction s ws rule: match_words.induct) (auto split: option.splits dest: match_word_shorter)

function sanitize :: "string \<Rightarrow> string" where
  "sanitize s =
     (case s of
        [] \<Rightarrow> []
      | c # cs \<Rightarrow>
          (case match_words s secret_words of
             None \<Rightarrow> c # sanitize cs
           | Some (w, r) \<Rightarrow> w @ '': [redacted]'' @ sanitize r))"
  by pat_completeness auto

termination sanitize
  by (relation "measure length") (auto dest: match_words_shorter)

declare sanitize.simps [simp del]

record debug_log =
  dl_lines :: "string list"
  dl_recent :: "string list"

text \<open>The edit keeps 2000 blocks; \<open>stamp\<close> is the time of day it writes.\<close>

definition log_append :: "string \<Rightarrow> string \<Rightarrow> debug_log \<Rightarrow> debug_log" where
  "log_append stamp line l =
     (let safe = sanitize line; lines = dl_lines l @ [stamp @ '' '' @ safe]; recent = dl_recent l @ [safe] in
      \<lparr>dl_lines = drop (length lines - 2000) lines, dl_recent = (if length recent > 2000 then tl recent else recent)\<rparr>)"

definition clearLog :: "debug_log \<Rightarrow> debug_log" where
  "clearLog l = \<lparr>dl_lines = [], dl_recent = []\<rparr>"

lemma log_bounded:
  "length (dl_recent l) \<le> 2000 \<Longrightarrow> length (dl_recent (log_append stamp line l)) \<le> 2000 \<and> length (dl_lines (log_append stamp line l)) \<le> 2000"
  by (auto simp: log_append_def Let_def)

text \<open>Only the word behind the separator is removed: of an authorization header that is the scheme, and the credentials
  stay in the log.\<close>

lemma debug_log_keeps_credentials:
  assumes "scheme \<noteq> []" "list_all (\<lambda>c. \<not> is_space c) scheme"
  shows "sanitize (''Authorization: '' @ scheme @ '' '' @ credentials) = ''Authorization: [redacted]'' @ sanitize ('' '' @ credentials)"
proof -
  let ?rest = "scheme @ '' '' @ credentials"
  have sp: "is_space (CHR '' '')" "\<not> is_space (CHR '':'')" by (simp_all add: is_space_def)
  have "\<not> is_space (hd scheme)" using assms by (cases scheme) simp_all
  then have "dropWhile is_space ?rest = ?rest" using assms(1) by (cases scheme) simp_all
  moreover have ex: "\<exists>x\<in>set scheme \<union> set credentials. \<not> is_space x" using assms by (cases scheme) simp_all
  moreover have "dropWhile (\<lambda>x. \<not> is_space x) ?rest = '' '' @ credentials"
    using assms(2) sp by (simp add: list_all_iff)
  ultimately have "match_word (''Authorization: '' @ ?rest) ''Authorization'' = Some ('' '' @ credentials)"
    using assms(1) sp ex by (simp add: match_word_def starts_with_def)
  then have "match_words (''Authorization: '' @ ?rest) secret_words = Some (''Authorization'', '' '' @ credentials)"
    by (simp add: secret_words_def)
  then show ?thesis by (subst sanitize.simps) simp
qed

lemma debug_log_keeps_basic:
  "sanitize ''Authorization: Basic dXNlcjpwdw=='' = ''Authorization: [redacted] dXNlcjpwdw==''"
proof -
  have "sanitize '' dXNlcjpwdw=='' = '' dXNlcjpwdw==''"
    by (simp add: sanitize.simps secret_words_def match_word_def starts_with_def)
  then show ?thesis using debug_log_keeps_credentials [of "''Basic''" "''dXNlcjpwdw==''"] by (simp add: is_space_def)
qed

end
