(* ===== verification/Spec2Isabelle.thy ===== *)
theory Spec2Isabelle
  imports Camera_Client Ssp_Client Frame_Queue Mdns_Discovery Source_Behaviour Source_Threads Stream_Path Hw_Import Control_Dock Preset_Panel Ptz_Pad Settings_Panel Plugin_Module
begin

text \<open>
  Verification of obs-zcamera, the OBS plugin for Z CAM cameras.

  \<^bold>\<open>The program.\<close> A camera is discovered by mDNS, controlled over HTTP and a WebSocket, and streams
  H.264 or HEVC over SSP. The SSP library lives in a separate connector process; the plugin starts
  it with the address of the camera and reads framed messages from its output. The OBS source
  decodes the access units in hardware or software and draws them. The control dock talks to the
  camera through the camera client, which combines the HTTP transport, the notification socket and
  the settings engine.

  \<^bold>\<open>Theories and sources.\<close> File names are relative to \<^verbatim>\<open>src/\<close> of the repository.

  \<^item> \<open>Prelude\<close>, \<open>Json\<close>: Qt strings, byte strings, number formatting, JSON values.
  \<^item> \<open>Trace_System\<close>, \<open>Resources\<close>: components as functions from an input and a state to a state and
    events; runs, invariants of runs (locale \<open>trace_system\<close>) and monitors of event traces (locale
    \<open>monitored\<close>).
  \<^item> \<open>Ws_Client\<close>, \<open>Ws_Notifier\<close>: \<^verbatim>\<open>cameractrl/zc_ws_client.cpp\<close> and \<^verbatim>\<open>zc_ws_notifier.cpp\<close>. Handshake,
    frame parser and writer; the reconnecting notification socket.
  \<^item> \<open>Http_Transport\<close>: \<^verbatim>\<open>cameractrl/zc_http_transport.cpp\<close>. Origin negotiation, Digest
    authentication and the serial request queue.
  \<^item> \<open>Settings_Schema\<close>, \<open>Settings_Engine\<close>: \<^verbatim>\<open>cameractrl/zc_settings_schema.cpp\<close> and
    \<^verbatim>\<open>zc_settings_engine.cpp\<close>. Catalogs, batch and single reads, writes and dependent re-reads.
  \<^item> \<open>Camera_Client\<close>: \<^verbatim>\<open>cameractrl/zc_camera_client.cpp\<close>, the facade over the four above.
  \<^item> \<open>Connector_Protocol\<close>, \<open>Ssp_Client\<close>: \<^verbatim>\<open>ssp_connector/main.cpp\<close>, the message format, and
    \<^verbatim>\<open>ssp-client-iso.cpp\<close>; the latter with its receive thread as a step relation.
  \<^item> \<open>Hw_Decode\<close>: \<^verbatim>\<open>hwdecode/hw_decode.c\<close>. Backend selection and the bit depth read from an SPS.
  \<^item> \<open>Ffmpeg_Decode\<close>, \<open>Sw_Backend\<close>: \<^verbatim>\<open>ffmpeg-decode.c\<close> and \<^verbatim>\<open>hwdecode/hw_decode_sw.cpp\<close>. The FFmpeg wrapper
    and the software backend over it.
  \<^item> \<open>Hw_Ffmpeg\<close>, \<open>Gpu_Cache\<close>, \<open>D3d11_Import\<close>, \<open>Cuda_Import\<close>, \<open>Hw_Import\<close>: \<^verbatim>\<open>hwdecode/hw_decode_ffmpeg.cpp\<close>,
    \<^verbatim>\<open>hw_decode_d3d11_win.cpp\<close> and \<^verbatim>\<open>hw_decode_cuda_win.cpp\<close>. Detection and creation of the hardware
    decoder, the two GPU importers with the objects they keep, and frames through import and release.
  \<^item> \<open>Cpu_Frame\<close>, \<open>Ssp_Source\<close>: \<^verbatim>\<open>zc_source.cpp\<close>. Every method of \<^verbatim>\<open>ZcSspSource\<close> as an operation on
    the record \<open>source\<close>. \<open>Source_Ownership\<close>, \<open>Source_Behaviour\<close> and \<open>Source_Threads\<close> hold its
    properties; the last refines \<^verbatim>\<open>stop\<close> and the reconnect thread to interleaved steps.
  \<^item> \<open>Frame_Queue\<close>: \<^verbatim>\<open>VFrameQueue.cpp\<close>, producer and consumer thread interleaved.
  \<^item> \<open>Mdns_Discovery\<close>: \<^verbatim>\<open>ssp-mdns.cpp\<close>. Interface scan, query loop, record table and iterator.
  \<^item> \<open>Control_Dock\<close>, \<open>Settings_Panel\<close>, \<open>Ptz_Pad\<close>, \<open>Preset_Panel\<close>: \<^verbatim>\<open>ui/zc_control_dock.cpp\<close>. The camera rail and the
    main widget with the life of the control client; the settings tab with the stream bar; the
    joystick; the preset and trace slots. Records hold the members and what the widgets show.
  \<^item> \<open>Plugin_Module\<close>: \<^verbatim>\<open>obs-ssp.cpp\<close> and \<^verbatim>\<open>ui/zc_debug_panel.cpp\<close>. Load and unload of the module, its one dock, and
    the redaction of the debug log.
  \<^item> \<open>Stream_Path\<close> and this theory: the path of an access unit from the connector to the decoder
    and of an address from the dock to the connector.

  \<^bold>\<open>State and operations.\<close> The fields of a record are the members of the class with the name of the
  class as a prefix; operations have the names of the methods. Effects on other components
  (socket writes, callbacks, releases of GPU resources) are events an operation returns. A method
  that waits for an asynchronous answer is cut into the call and one operation per continuation.
  Fallible calls return options, sums or an error event. Machine integers are words of their width
  wherever the code computes with them.

  \<^bold>\<open>Interfaces.\<close> Each locale states what a client relies on and is interpreted on the model:
  \<open>trace_system\<close> on the steps of every component that runs on inputs, the panels of the dock among them;
  \<open>fifo_service\<close> on the HTTP transport and the frame queue; \<open>monitored\<close> on the source, the software
  backend, the importers and the hardware frames; \<open>gpu_cache\<close> on the release order of the D3D11
  importer; \<open>field_codec\<close> on the fields of the pipe messages.

  \<^bold>\<open>What is shown.\<close>
  \<^item> Parsing and framing: the WebSocket parser and the pipe receiver deliver exactly what was sent,
    in order, however the bytes are split; headers, frames and messages round trip.
  \<^item> Request discipline: one request in flight, callbacks once and in order, at most one retry, nonce
    counts that grow; the client refines the engine over that contract.
  \<^item> Ownership: a monitor accepts every run of the source; no decoder, frame or texture is used or
    freed outside its life time and the destructor frees all of them; CPU buffers are not overrun.
  \<^item> Life cycles: stopping against concurrent threads, reconnects after a stall, no reconnect after a
    stop, and termination of the waits.
  \<^item> Decoders: FFmpeg objects, GPU objects, device references and stacked contexts are created, used and
    released in balance, for every sequence of frames and failing calls.
  \<^item> The dock: requests of the panels stay in range, late replies never mix slots, families, cameras or
    stream indexes, released controls stop the head, and references to OBS are given back.
  \<^item> Refinement and equivalence: the mDNS table against a directory, the interface scan against a
    filter, the client against the engine.
  \<^item> Composition: every access unit the connector sends is decoded once; the host in the name of a
    source reaches the argument parser of the connector.
  \<^item> Deviations of the code from its comments, as theorems about the code as it is.

  \<^bold>\<open>Parameters.\<close> Code outside the repository is an argument of the definitions: MD5, SHA-1, base64,
  the JSON parser and random numbers; the SSP library as the list of its events; sockets, pipes and
  the scheduler as the order and size of reads; FFmpeg, the graphics system and the clock as the
  answers they give. Hypotheses on them are stated in the theorems.

  \<^bold>\<open>Termination.\<close> Loops over data are total functions with measures (the pipe by the bytes left, the
  bit reader by the bits left). The WebSocket receive loop is a partial function in the option monad,
  because a hostile length makes it run for ever; that it returns for every stream of frames is
  part of its theorem. No definition uses fuel.

  \<^bold>\<open>Not modelled.\<close> Painting, layouts, styles and the construction of widgets; the HUD, which the sources
  never create; the vendored mDNS library and the headers of the SSP library and libuv; tests, installers
  and build files. Logging has no effect on the state and is left out. Pixel values and the arithmetic
  of the shaders are not modelled, only the sizes of the buffers and textures. What OBS, FFmpeg, Qt and
  the drivers do inside a call is an input of the call.
\<close>

section \<open>Properties that span components\<close>

lemma connect_on_first_update:
  assumes "st_ip st \<noteq> []"
  shows "snd (update now st (source_new name async)) = [EvConnect (st_ip st)]"
    and "sr_running (fst (update now st (source_new name async)))"
    and "sr_waitIFrame (fst (update now st (source_new name async))) = st_waitIFrame st"
  using assms
  by (simp_all add: update_def Let_def start_def connect_now_def installDecoder_def apply_settings_def source_new_def
      stop_def drop_cpu_def drop_decoder_def drop_drawn_def drop_pending_def joinReconnect_def teardownConnection_def
      release_frame_direct_def owned_frames_def owned_textures_def frame_none_def)


definition video_unit :: ssp_video where
  "video_unit = \<lparr>v_pts = 1, v_ntp = 2, v_frm_no = 3, v_type = 5, v_data = [9, 8]\<rparr>"

definition stream_meta :: ssp_event where
  "stream_meta = SspMeta \<lparr>vm_width = 4, vm_height = 2, vm_timescale = 1, vm_unit = 1, vm_gop = 1, vm_encoder = 96\<rparr>
     \<lparr>am_timescale = 1, am_unit = 1, am_sample_rate = 1, am_sample_size = 1, am_channel = 1, am_bitrate = 1, am_encoder = 1\<rparr>
     \<lparr>bm_pts_is_wall_clock = False, bm_tc_drop_frame = False, bm_timecode = 0\<rparr>"


lemma name_connects:
  assumes "host \<noteq> []"
  shows "snd (update now zc_source_getdefaults (source_new (cameraSourceName host) async)) = [EvConnect host]"
  using assms
  by (simp add: update_def Let_def start_def connect_now_def installDecoder_def apply_settings_def source_new_def
      stop_def drop_cpu_def drop_decoder_def drop_drawn_def drop_pending_def joinReconnect_def teardownConnection_def
      release_frame_direct_def owned_frames_def owned_textures_def frame_none_def zc_source_getdefaults_def
      ipFromSourceName_def cameraSourceName_def starts_with_def)

lemma parse_args_odd: "odd (length argv) \<Longrightarrow> parse_args strtoul argv c = None"
  by (induction strtoul argv c rule: parse_args.induct) auto

lemma blank_rejected:
  assumes "plain_word a" "plain_word b"
  shows "process_args strtoul (connector_args (a @ '' '' @ b)) = None"
proof -
  have "connector_args (a @ '' '' @ b) = [''--host'', a, b, ''--port'', ''9999'']"
    using assms [THEN plain_word_chars] words_word [of a "[]"] words_word [of b "[]"] by (simp add: connector_args_def)
  then show ?thesis by (simp only: process_args_def) (simp add: parse_args_odd del: parse_args.simps)
qed

text \<open>
  C29. The address survives the way from the dock to the connector: a source that the dock created for
  a host and that has lost its saved address recovers the host from its own name, connects to exactly
  that host, and the connector it starts accepts its arguments and dials that host on port 9999.
\<close>

theorem source_name_reaches_connector:
  assumes "plain_word host" "length host < 256" "strtoul ''9999'' = 9999"
  shows "snd (update now zc_source_getdefaults (source_new (cameraSourceName host) async)) = [EvConnect host]
    \<and> (\<exists>a. process_args strtoul (connector_args host) = Some a \<and> ar_port a = 9999 \<and> c_string (ar_address a) = Some host)"
  using args_accepted [where strtoul = strtoul, OF assms(1,3)] plain_word_chars [OF assms(1)] assms(2) name_connects by simp

theorem source_name_reaches_connector_witness:
  "snd (update 5 zc_source_getdefaults (source_new (cameraSourceName ''10.0.0.2'') False)) = [EvConnect ''10.0.0.2'']
    \<and> (\<exists>a. process_args (\<lambda>_. 9999) (connector_args ''10.0.0.2'') = Some a \<and> ar_port a = 9999
        \<and> c_string (ar_address a) = Some ''10.0.0.2'')"
  by (rule source_name_reaches_connector) (simp_all add: plain_word_def)

text \<open>
  A name with a blank behind the prefix cannot connect: the source takes everything behind "ZCamera " for
  the address and the command line of the connector is not quoted, so the connector rejects its
  arguments whatever the two words are made of.
\<close>

theorem source_name_blank_rejected:
  assumes "plain_word a" "plain_word b"
  shows "snd (update now zc_source_getdefaults (source_new (''ZCamera '' @ a @ '' '' @ b) async)) = [EvConnect (a @ '' '' @ b)]
    \<and> process_args strtoul (connector_args (a @ '' '' @ b)) = None"
  using plain_word_chars [OF assms(1)] name_connects [of "a @ '' '' @ b" now async] blank_rejected [OF assms] by (simp add: cameraSourceName_def)

theorem source_name_blank_rejected_witness:
  "snd (update 5 zc_source_getdefaults (source_new (''ZCamera '' @ ''left'' @ '' '' @ ''cam'') False)) = [EvConnect (''left'' @ '' '' @ ''cam'')]
    \<and> process_args (\<lambda>_. 9999) (connector_args (''left'' @ '' '' @ ''cam'')) = None"
  by (rule source_name_blank_rejected) (simp_all add: plain_word_def)

end
